(* ===== verification/MI_Prelude.thy ===== *)
theory MI_Prelude
  imports Main "HOL-Library.Word"
begin

text \<open>
  What every component of the development shares: the faults a C execution can end in, the
  result type of a function that can fault, C strings as the bytes from a pointer to the end of
  its buffer, and the parts of the C library the sources call (\<open>strcmp\<close>, \<open>strncmp\<close>, \<open>isalnum\<close>,
  \<open>atoi\<close>, \<open>strtol\<close>, \<open>strtoul\<close>).
\<close>

named_theorems run_simps \<open>equations of the run monad and of the pointer operations\<close>
named_theorems conserve \<open>conservation of heap blocks by one operation\<close>

section \<open>Runs: a value or a fault\<close>

text \<open>
  A fault is where the C code leaves the language: a read or a write outside an object, the use
  of a null pointer, the use of the wrong member of a union, a \<open>printf\<close> directive with no argument,
  a function that ends with no return value. \<open>Out_of_fuel\<close> is the model's own: the theorems of \<open>MI_Parse\<close> show that it
  does not occur.
\<close>

datatype fault = Over_read | Over_write | Null_deref | Bad_union | Bad_format | No_return | Out_of_fuel

type_synonym 'a run = "fault + 'a"

definition bnd :: "'a run \<Rightarrow> ('a \<Rightarrow> 'b run) \<Rightarrow> 'b run" where
  "bnd m f = (case m of Inl e \<Rightarrow> Inl e | Inr x \<Rightarrow> f x)"

lemma bnd_simps [simp, run_simps]:
  "bnd (Inl e) f = Inl e"
  "bnd (Inr x) f = f x"
  by (simp_all add: bnd_def)

lemma bnd_Inr_iff: "bnd m f = Inr y \<longleftrightarrow> (\<exists>x. m = Inr x \<and> f x = Inr y)"
  by (cases m) simp_all

lemma bnd_Inl_iff: "bnd m f = Inl e \<longleftrightarrow> m = Inl e \<or> (\<exists>x. m = Inr x \<and> f x = Inl e)"
  by (cases m) simp_all

lemma bnd_InrE:
  assumes "bnd m f = Inr y"
  obtains x where "m = Inr x" and "f x = Inr y"
  using assms by (auto simp: bnd_Inr_iff)

lemma bnd_assoc: "bnd (bnd m f) g = bnd m (\<lambda>x. bnd (f x) g)"
  by (cases m) simp_all

text \<open>
  \<open>wp m Q F\<close>: the run ends in a value that satisfies \<open>Q\<close> or in a fault that satisfies \<open>F\<close>.
\<close>

definition wp :: "'a run \<Rightarrow> ('a \<Rightarrow> bool) \<Rightarrow> (fault \<Rightarrow> bool) \<Rightarrow> bool" where
  "wp m Q F = (case m of Inl e \<Rightarrow> F e | Inr x \<Rightarrow> Q x)"

lemma wp_simps [simp, run_simps]:
  "wp (Inl e) Q F = F e"
  "wp (Inr x) Q F = Q x"
  "wp (bnd m f) Q F = wp m (\<lambda>x. wp (f x) Q F) F"
  "wp (if b then m1 else m2) Q F = (if b then wp m1 Q F else wp m2 Q F)"
  by (simp_all add: wp_def bnd_def split: sum.splits)

lemma wp_cases [simp, run_simps]:
  "wp (Let a g) Q F = wp (g a) Q F"
  "wp (case p of (a, b) \<Rightarrow> h a b) Q F = (case p of (a, b) \<Rightarrow> wp (h a b) Q F)"
  "wp (case v of None \<Rightarrow> m1 | Some y \<Rightarrow> k y) Q F =
     (case v of None \<Rightarrow> wp m1 Q F | Some y \<Rightarrow> wp (k y) Q F)"
  by (simp_all add: Let_def split: prod.splits option.splits)

lemma wp_mono:
  assumes "wp m Q F" and "\<And>x. Q x \<Longrightarrow> Q' x" and "\<And>e. F e \<Longrightarrow> F' e"
  shows "wp m Q' F'"
  using assms by (auto simp: wp_def split: sum.splits)

lemma wp_bndI:
  assumes "wp m Q F'" and "\<And>e. F' e \<Longrightarrow> F e" and "\<And>x. Q x \<Longrightarrow> wp (g x) P F"
  shows "wp (bnd m g) P F"
  using assms by (auto elim: wp_mono)

lemma wp_Inr: "wp m Q F \<Longrightarrow> m = Inr x \<Longrightarrow> Q x"
  by simp

lemma wp_Inl: "wp m Q F \<Longrightarrow> m = Inl e \<Longrightarrow> F e"
  by simp

lemma wp_if_cases:
  "(b \<Longrightarrow> wp m1 Q F) \<Longrightarrow> (\<not> b \<Longrightarrow> wp m2 Q F) \<Longrightarrow> wp (if b then m1 else m2) Q F"
  by simp

lemma wp_conj: "wp m Q F \<Longrightarrow> wp m Q' F' \<Longrightarrow> wp m (\<lambda>x. Q x \<and> Q' x) F"
  by (auto simp: wp_def split: sum.splits)

lemma wp_ifI: "wp m1 Q F \<Longrightarrow> wp m2 Q F \<Longrightarrow> wp (if b then m1 else m2) Q F"
  by simp

section \<open>C strings\<close>

text \<open>
  A \<open>const char *\<close> is the list of the bytes from the place it points at to the end of the
  buffer it points into. The terminating NUL is one of those bytes, and bytes may follow it
  (what the buffer held before). The empty list is the pointer one past the buffer: it may be
  formed but not read.
\<close>

type_synonym cptr = "char list"

abbreviation NUL :: char where "NUL \<equiv> CHR 0x00"
abbreviation QUOTE :: char where "QUOTE \<equiv> CHR 0x22"
abbreviation BSLASH :: char where "BSLASH \<equiv> CHR 0x5C"
abbreviation NEWLINE :: char where "NEWLINE \<equiv> CHR 0x0A"
abbreviation TAB :: char where "TAB \<equiv> CHR 0x09"
abbreviation CRET :: char where "CRET \<equiv> CHR 0x0D"

definition deref :: "cptr \<Rightarrow> char run" where
  "deref p = (case p of [] \<Rightarrow> Inl Over_read | c # _ \<Rightarrow> Inr c)"

lemma deref_simps [simp, run_simps]:
  "deref [] = Inl Over_read"
  "deref (c # p) = Inr c"
  by (simp_all add: deref_def)

text \<open>The buffer of a string literal or of an array that holds the string \<open>s\<close> and no more.\<close>

definition cbuf :: "string \<Rightarrow> cptr" where
  "cbuf s = s @ [NUL]"

text \<open>\<open>strncmp(p, lit, strlen(lit)) == 0\<close>: the comparison stops at the first difference.\<close>

fun strncmp_eq :: "string \<Rightarrow> cptr \<Rightarrow> bool run" where
  "strncmp_eq [] p = Inr True"
| "strncmp_eq (c # cs) [] = Inl Over_read"
| "strncmp_eq (c # cs) (d # p) = (if c = d then strncmp_eq cs p else Inr False)"

lemma strncmp_eq_append [simp]: "strncmp_eq s (s @ p) = Inr True"
  by (induction s) simp_all

lemma strncmp_eq_Inr: "strncmp_eq s p = Inr True \<Longrightarrow> p = s @ drop (length s) p"
  by (induction s p rule: strncmp_eq.induct) (auto split: if_splits)

lemma strncmp_eq_no_fault: "NUL \<in> set p \<Longrightarrow> NUL \<notin> set s \<Longrightarrow> \<exists>b. strncmp_eq s p = Inr b"
  by (induction s p rule: strncmp_eq.induct) auto

text \<open>\<open>isalnum\<close> in the C locale.\<close>

definition is_digit :: "char \<Rightarrow> bool" where
  "is_digit c \<longleftrightarrow> (48::nat) \<le> of_char c \<and> (of_char c :: nat) \<le> 57"

definition isalnum :: "char \<Rightarrow> bool" where
  "isalnum c \<longleftrightarrow> is_digit c \<or>
     ((65::nat) \<le> of_char c \<and> (of_char c :: nat) \<le> 90) \<or>
     ((97::nat) \<le> of_char c \<and> (of_char c :: nat) \<le> 122)"

section \<open>Numbers read from strings\<close>

text \<open>
  \<open>strtol\<close> and \<open>strtoul\<close> skip white space, take a sign and then the digits of the base; base 0
  takes the base from a \<open>0x\<close> or \<open>0\<close> prefix. A value out of range is the nearest bound.
\<close>

definition is_space :: "char \<Rightarrow> bool" where
  "is_space c \<longleftrightarrow> c = CHR '' '' \<or> ((9::nat) \<le> of_char c \<and> (of_char c :: nat) \<le> 13)"

definition digit_val :: "char \<Rightarrow> int" where
  "digit_val c = (let k = (of_char c :: int) in
     if 48 \<le> k \<and> k \<le> 57 then k - 48
     else if 65 \<le> k \<and> k \<le> 90 then k - 55
     else if 97 \<le> k \<and> k \<le> 122 then k - 87
     else 36)"

fun read_digits :: "int \<Rightarrow> int \<Rightarrow> string \<Rightarrow> int" where
  "read_digits base acc [] = acc"
| "read_digits base acc (c # cs) =
     (if digit_val c < base then read_digits base (base * acc + digit_val c) cs else acc)"

fun read_sign :: "string \<Rightarrow> bool \<times> string" where
  "read_sign [] = (False, [])"
| "read_sign (c # cs) =
     (if c = CHR ''-'' then (True, cs) else if c = CHR ''+'' then (False, cs) else (False, c # cs))"

fun read_base0 :: "string \<Rightarrow> int" where
  "read_base0 (z # x # h # cs) =
     (if z = CHR ''0'' \<and> (x = CHR ''x'' \<or> x = CHR ''X'') \<and> digit_val h < 16
      then read_digits 16 0 (h # cs)
      else if z = CHR ''0'' then read_digits 8 0 (z # x # h # cs)
      else read_digits 10 0 (z # x # h # cs))"
| "read_base0 (z # cs) =
     (if z = CHR ''0'' then read_digits 8 0 (z # cs) else read_digits 10 0 (z # cs))"
| "read_base0 [] = 0"

definition clamp64 :: "int \<Rightarrow> int" where
  "clamp64 i = max (- (2 ^ 63)) (min (2 ^ 63 - 1) i)"

definition strtol10 :: "string \<Rightarrow> int" where
  "strtol10 s = (let (neg, ds) = read_sign (dropWhile is_space s);
                     n = read_digits 10 0 ds
                 in clamp64 (if neg then - n else n))"

text \<open>\<open>atoi\<close> of the C library is \<open>(int) strtol(s, NULL, 10)\<close>.\<close>

definition atoi :: "string \<Rightarrow> int" where
  "atoi s = sint (word_of_int (strtol10 s) :: 32 word)"

definition strtol0 :: "string \<Rightarrow> int" where
  "strtol0 s = (let (neg, ds) = read_sign (dropWhile is_space s); n = read_base0 ds
                in clamp64 (if neg then - n else n))"

definition strtoul0 :: "string \<Rightarrow> 64 word" where
  "strtoul0 s = (let (neg, ds) = read_sign (dropWhile is_space s); n = read_base0 ds
                 in if 2 ^ 64 \<le> n then - 1
                    else word_of_int (if neg then - n else n))"

text \<open>\<open>atoi\<close> stays within a C \<open>int\<close>.\<close>

lemma atoi_bounds: "- (2 ^ 31) \<le> atoi s \<and> atoi s < 2 ^ 31"
  unfolding atoi_def
  using sint_ge [of "word_of_int (strtol10 s) :: 32 word"]
    sint_less [of "word_of_int (strtol10 s) :: 32 word"]
  by simp

end
