(* ===== verification/MI_Alloc.thy ===== *)
theory MI_Alloc
  imports MI_Prelude
begin

text \<open>
  The allocator of \<open>src/alloc.c\<close> and the result trees of \<open>src/mi_gdb.h\<close>.

  The process state the library shares is \<open>mi_error\<close> and the heap. Of the heap the model keeps
  the number of blocks in use (\<open>live\<close>), and a script of the allocations that fail (\<open>oom\<close>: the
  head says whether the next allocation fails; past its end none does). Data is a value, and
  every owner counts the blocks it owns, so that a leak shows as \<open>live\<close> above the blocks owned
  and a double free as \<open>live\<close> below them.
\<close>

section \<open>Error numbers\<close>

definition MI_OK :: nat where "MI_OK = 0"
definition MI_OUT_OF_MEMORY :: nat where "MI_OUT_OF_MEMORY = 1"
definition MI_PIPE_CREATE :: nat where "MI_PIPE_CREATE = 2"
definition MI_FORK :: nat where "MI_FORK = 3"
definition MI_DEBUGGER_RUN :: nat where "MI_DEBUGGER_RUN = 4"
definition MI_PARSER :: nat where "MI_PARSER = 5"
definition MI_UNKNOWN_ASYNC :: nat where "MI_UNKNOWN_ASYNC = 6"
definition MI_UNKNOWN_RESULT :: nat where "MI_UNKNOWN_RESULT = 7"
definition MI_FROM_GDB :: nat where "MI_FROM_GDB = 8"
definition MI_GDB_TIME_OUT :: nat where "MI_GDB_TIME_OUT = 9"
definition MI_GDB_DIED :: nat where "MI_GDB_DIED = 10"
definition MI_MISSING_XTERM :: nat where "MI_MISSING_XTERM = 11"
definition MI_CREATE_TEMPORAL :: nat where "MI_CREATE_TEMPORAL = 12"
definition MI_MISSING_GDB :: nat where "MI_MISSING_GDB = 13"
definition MI_LAST_ERROR :: nat where "MI_LAST_ERROR = 13"

lemmas error_codes =
  MI_OK_def MI_OUT_OF_MEMORY_def MI_PIPE_CREATE_def MI_FORK_def MI_DEBUGGER_RUN_def
  MI_PARSER_def MI_UNKNOWN_ASYNC_def MI_UNKNOWN_RESULT_def MI_FROM_GDB_def
  MI_GDB_TIME_OUT_def MI_GDB_DIED_def MI_MISSING_XTERM_def MI_CREATE_TEMPORAL_def
  MI_MISSING_GDB_def MI_LAST_ERROR_def

section \<open>The heap\<close>

record world =
  mi_error :: nat
  oom :: "bool list"
  live :: int

text \<open>\<open>malloc\<close>: whether it returned a block, and the state after it.\<close>

definition c_malloc :: "world \<Rightarrow> bool \<times> world" where
  "c_malloc w = (case oom w of
       [] \<Rightarrow> (True, w\<lparr>live := live w + 1\<rparr>)
     | b # bs \<Rightarrow> if b then (False, w\<lparr>oom := bs\<rparr>)
                else (True, w\<lparr>oom := bs, live := live w + 1\<rparr>))"

text \<open>
  \<open>calloc(count, sz)\<close> with \<open>count\<close> converted to \<open>size_t\<close>: it fails when the product does not fit.
\<close>

definition c_calloc :: "int \<Rightarrow> int \<Rightarrow> world \<Rightarrow> bool \<times> world" where
  "c_calloc count sz w =
     (if 2 ^ 64 \<le> (count mod 2 ^ 64) * sz then (False, w) else c_malloc w)"

text \<open>\<open>free\<close>: of a null pointer it does nothing.\<close>

definition c_free :: "'a option \<Rightarrow> world \<Rightarrow> world" where
  "c_free p w = (case p of None \<Rightarrow> w | Some _ \<Rightarrow> w\<lparr>live := live w - 1\<rparr>)"

definition c_strdup :: "string \<Rightarrow> world \<Rightarrow> string option \<times> world" where
  "c_strdup s w = (let (ok, w') = c_malloc w in (if ok then Some s else None, w'))"

definition mi_calloc :: "int \<Rightarrow> int \<Rightarrow> world \<Rightarrow> bool \<times> world" where
  "mi_calloc count sz w = (let (ok, w') = c_calloc count sz w in
     if ok then (True, w') else (False, w'\<lparr>mi_error := MI_OUT_OF_MEMORY\<rparr>))"

definition mi_calloc1 :: "int \<Rightarrow> world \<Rightarrow> bool \<times> world" where
  "mi_calloc1 sz w = mi_calloc 1 sz w"

definition mi_malloc :: "world \<Rightarrow> bool \<times> world" where
  "mi_malloc w = (let (ok, w') = c_malloc w in
     if ok then (True, w') else (False, w'\<lparr>mi_error := MI_OUT_OF_MEMORY\<rparr>))"

section \<open>Result trees\<close>

text \<open>
  \<open>struct mi_results_struct\<close>: a name or NULL, and a tagged union of a string and a list. The
  chain of the \<open>next\<close> pointers is the list the node is in.
\<close>

datatype mi_val_type = t_const | t_tuple | t_list

datatype mi_results = MiRes (r_var: "string option") (r_val: mi_val)
and mi_val = VConst "string option" | VTuple "mi_results list" | VList "mi_results list"

fun val_type :: "mi_val \<Rightarrow> mi_val_type" where
  "val_type (VConst _) = t_const"
| "val_type (VTuple _) = t_tuple"
| "val_type (VList _) = t_list"

abbreviation r_type :: "mi_results \<Rightarrow> mi_val_type" where
  "r_type r \<equiv> val_type (r_val r)"

text \<open>The blocks a node and a value own.\<close>

definition own :: "'a option \<Rightarrow> int" where
  "own p = (case p of None \<Rightarrow> 0 | Some _ \<Rightarrow> 1)"

lemma own_simps [simp]: "own None = 0" "own (Some x) = 1"
  by (simp_all add: own_def)

lemma own_nonneg [simp]: "0 \<le> own p"
  by (cases p) simp_all

fun blocks_r :: "mi_results \<Rightarrow> int" and blocks_v :: "mi_val \<Rightarrow> int" where
  "blocks_r (MiRes v x) = 1 + own v + blocks_v x"
| "blocks_v (VConst s) = own s"
| "blocks_v (VTuple rs) = (\<Sum>r\<leftarrow>rs. blocks_r r)"
| "blocks_v (VList rs) = (\<Sum>r\<leftarrow>rs. blocks_r r)"

abbreviation blocks_l :: "mi_results list \<Rightarrow> int" where
  "blocks_l rs \<equiv> (\<Sum>r\<leftarrow>rs. blocks_r r)"

lemma blocks_nonneg: "0 \<le> blocks_r r" "0 \<le> blocks_v x"
proof (induction r and x rule: blocks_r_blocks_v.induct)
  case (3 rs)
  then show ?case by (auto intro!: sum_list_nonneg)
next
  case (4 rs)
  then show ?case by (auto intro!: sum_list_nonneg)
qed simp_all

lemma blocks_l_nonneg: "0 \<le> blocks_l rs"
  by (auto intro!: sum_list_nonneg simp: blocks_nonneg)

definition mi_alloc_results :: "world \<Rightarrow> mi_results option \<times> world" where
  "mi_alloc_results w = (let (ok, w') = mi_calloc1 32 w in
     (if ok then Some (MiRes None (VConst None)) else None, w'))"

text \<open>
  A pointer to a node is the path to it: its index in the list, then its index in the list of
  that node's value, and so on. The empty path is NULL, or a node that is not in the list.
\<close>

type_synonym node_path = "nat list"

definition path_in :: "node_path \<Rightarrow> node_path" where
  "path_in p = (case p of 0 # q \<Rightarrow> q | _ \<Rightarrow> [])"

definition path_next :: "node_path \<Rightarrow> node_path" where
  "path_next p = (case p of Suc i # q \<Rightarrow> i # q | _ \<Rightarrow> [])"

lemma path_simps [simp]:
  "path_in [] = []" "path_next [] = []"
  "path_in (0 # q) = q" "path_in (Suc i # q) = []"
  "path_next (0 # q) = []" "path_next (Suc i # q) = i # q"
  by (simp_all add: path_in_def path_next_def)

fun mi_free_results_but :: "mi_results list \<Rightarrow> node_path \<Rightarrow> world \<Rightarrow> world" where
  "mi_free_results_but [] no w = w"
| "mi_free_results_but (MiRes v x # rs) no w =
     (if no = [0] then mi_free_results_but rs (path_next no) w
      else
        let w1 = c_free v w;
            w2 = (case x of
                    VConst s \<Rightarrow> c_free s w1
                  | VTuple l \<Rightarrow> mi_free_results_but l (path_in no) w1
                  | VList l \<Rightarrow> mi_free_results_but l (path_in no) w1);
            w3 = c_free (Some ()) w2
        in mi_free_results_but rs (path_next no) w3)"

definition mi_free_results :: "mi_results list \<Rightarrow> world \<Rightarrow> world" where
  "mi_free_results rs w = mi_free_results_but rs [] w"

section \<open>Output records\<close>

text \<open>\<open>struct mi_output_struct\<close>; again \<open>next\<close> is the list the record is in.\<close>

definition MI_T_OUT_OF_BAND :: nat where "MI_T_OUT_OF_BAND = 0"
definition MI_T_RESULT_RECORD :: nat where "MI_T_RESULT_RECORD = 1"
definition MI_ST_ASYNC :: nat where "MI_ST_ASYNC = 0"
definition MI_ST_STREAM :: nat where "MI_ST_STREAM = 1"
definition MI_SST_EXEC :: nat where "MI_SST_EXEC = 0"
definition MI_SST_STATUS :: nat where "MI_SST_STATUS = 1"
definition MI_SST_NOTIFY :: nat where "MI_SST_NOTIFY = 2"
definition MI_SST_CONSOLE :: nat where "MI_SST_CONSOLE = 3"
definition MI_SST_TARGET :: nat where "MI_SST_TARGET = 4"
definition MI_SST_LOG :: nat where "MI_SST_LOG = 5"
definition MI_CL_UNKNOWN :: nat where "MI_CL_UNKNOWN = 0"
definition MI_CL_STOPPED :: nat where "MI_CL_STOPPED = 1"
definition MI_CL_DOWNLOAD :: nat where "MI_CL_DOWNLOAD = 2"
definition MI_CL_DONE :: nat where "MI_CL_DONE = 2"
definition MI_CL_RUNNING :: nat where "MI_CL_RUNNING = 3"
definition MI_CL_CONNECTED :: nat where "MI_CL_CONNECTED = 4"
definition MI_CL_ERROR :: nat where "MI_CL_ERROR = 5"
definition MI_CL_EXIT :: nat where "MI_CL_EXIT = 6"

lemmas record_codes =
  MI_T_OUT_OF_BAND_def MI_T_RESULT_RECORD_def MI_ST_ASYNC_def MI_ST_STREAM_def
  MI_SST_EXEC_def MI_SST_STATUS_def MI_SST_NOTIFY_def MI_SST_CONSOLE_def MI_SST_TARGET_def
  MI_SST_LOG_def MI_CL_UNKNOWN_def MI_CL_STOPPED_def MI_CL_DOWNLOAD_def MI_CL_DONE_def
  MI_CL_RUNNING_def MI_CL_CONNECTED_def MI_CL_ERROR_def MI_CL_EXIT_def

record mi_output =
  o_type :: nat
  o_stype :: nat
  o_sstype :: nat
  o_tclass :: nat
  o_c :: "mi_results list"

definition mi_alloc_output :: "world \<Rightarrow> mi_output option \<times> world" where
  "mi_alloc_output w = (let (ok, w') = mi_calloc1 24 w in
     (if ok then Some \<lparr>o_type = 0, o_stype = 0, o_sstype = 0, o_tclass = 0, o_c = []\<rparr>
      else None, w'))"

definition blocks_o :: "mi_output \<Rightarrow> int" where
  "blocks_o r = 1 + blocks_l (o_c r)"

abbreviation blocks_os :: "mi_output list \<Rightarrow> int" where
  "blocks_os rs \<equiv> (\<Sum>r\<leftarrow>rs. blocks_o r)"

text \<open>
  \<open>no\<close> is a record of the list (its index) or NULL; \<open>no_r\<close> a node of one of the records: the
  index of the record, then the path to the node.
\<close>

fun mi_free_output_but :: "mi_output list \<Rightarrow> nat option \<Rightarrow> node_path \<Rightarrow> world \<Rightarrow> world" where
  "mi_free_output_but [] no no_r w = w"
| "mi_free_output_but (r # rs) no no_r w =
     (let no' = (case no of Some (Suc k) \<Rightarrow> Some k | _ \<Rightarrow> None) in
      if no = Some 0 then mi_free_output_but rs no' (path_next no_r) w
      else
        let w1 = (if o_c r \<noteq> [] then mi_free_results_but (o_c r) (path_in no_r) w else w);
            w2 = c_free (Some ()) w1
        in mi_free_output_but rs no' (path_next no_r) w2)"

definition mi_free_output :: "mi_output list \<Rightarrow> world \<Rightarrow> world" where
  "mi_free_output rs w = mi_free_output_but rs None [] w"

section \<open>Allocation and release lemmas\<close>

text \<open>\<open>heap_ext w w'\<close>: the two states differ only in the number of live blocks.\<close>

abbreviation add_live :: "int \<Rightarrow> world \<Rightarrow> world" where
  "add_live k w \<equiv> w\<lparr>live := live w + k\<rparr>"

lemma add_live_0: "w\<lparr>live := live w\<rparr> = w"
  by simp

lemma c_free_live: "c_free p w = add_live (- own p) w"
  by (cases p) (simp_all add: c_free_def)

lemma c_malloc_ok [simp]: "oom w = [] \<Longrightarrow> c_malloc w = (True, add_live 1 w)"
  by (simp add: c_malloc_def)

lemma mi_malloc_ok [simp]: "oom w = [] \<Longrightarrow> mi_malloc w = (True, add_live 1 w)"
  by (simp add: mi_malloc_def)

lemma mi_calloc1_ok: "sz < 2 ^ 64 \<Longrightarrow> oom w = [] \<Longrightarrow> mi_calloc1 sz w = (True, add_live 1 w)"
  by (simp add: mi_calloc1_def mi_calloc_def c_calloc_def)

lemma mi_alloc_results_ok [simp]:
  "oom w = [] \<Longrightarrow> mi_alloc_results w = (Some (MiRes None (VConst None)), add_live 1 w)"
  by (simp add: mi_alloc_results_def mi_calloc1_ok)

lemma mi_alloc_output_ok [simp]:
  "oom w = [] \<Longrightarrow> mi_alloc_output w =
     (Some \<lparr>o_type = 0, o_stype = 0, o_sstype = 0, o_tclass = 0, o_c = []\<rparr>, add_live 1 w)"
  by (simp add: mi_alloc_output_def mi_calloc1_ok)

text \<open>What an allocation does in any state: a block, or \<open>MI_OUT_OF_MEMORY\<close> and no block.\<close>

lemma mi_malloc_cases:
  assumes "mi_malloc w = (ok, w')"
  shows "if ok then live w' = live w + 1 \<and> mi_error w' = mi_error w
         else live w' = live w \<and> mi_error w' = MI_OUT_OF_MEMORY"
  using assms
  by (auto simp: mi_malloc_def c_malloc_def split: list.splits prod.splits if_splits)

lemma mi_calloc1_cases:
  assumes "mi_calloc1 sz w = (ok, w')" and "sz < 2 ^ 64"
  shows "if ok then live w' = live w + 1 \<and> mi_error w' = mi_error w
         else live w' = live w \<and> mi_error w' = MI_OUT_OF_MEMORY"
  using assms
  by (auto simp: mi_calloc1_def mi_calloc_def c_calloc_def c_malloc_def
      split: list.splits prod.splits if_splits)

lemma mi_alloc_results_cases:
  assumes "mi_alloc_results w = (r, w')"
  obtains "r = Some (MiRes None (VConst None))" "live w' = live w + 1" "mi_error w' = mi_error w"
  | "r = None" "live w' = live w" "mi_error w' = MI_OUT_OF_MEMORY"
  using assms mi_calloc1_cases [of 32 w]
  by (auto simp: mi_alloc_results_def split: prod.splits if_splits)

lemma mi_alloc_output_cases:
  assumes "mi_alloc_output w = (r, w')"
  obtains "r = Some \<lparr>o_type = 0, o_stype = 0, o_sstype = 0, o_tclass = 0, o_c = []\<rparr>"
      "live w' = live w + 1" "mi_error w' = mi_error w"
  | "r = None" "live w' = live w" "mi_error w' = MI_OUT_OF_MEMORY"
  using assms mi_calloc1_cases [of 24 w]
  by (auto simp: mi_alloc_output_def split: prod.splits if_splits)

text \<open>The node at a path.\<close>

fun node_at :: "mi_results list \<Rightarrow> node_path \<Rightarrow> mi_results option" where
  "node_at [] p = None"
| "node_at (r # rs) [] = None"
| "node_at (r # rs) (Suc i # p) = node_at rs (i # p)"
| "node_at (r # rs) [0] = Some r"
| "node_at (MiRes v (VConst s) # rs) (0 # i # p) = None"
| "node_at (MiRes v (VTuple l) # rs) (0 # i # p) = node_at l (i # p)"
| "node_at (MiRes v (VList l) # rs) (0 # i # p) = node_at l (i # p)"

lemma node_at_Nil [simp]: "node_at rs [] = None"
  by (cases rs) simp_all

definition kept_blocks :: "mi_results list \<Rightarrow> node_path \<Rightarrow> int" where
  "kept_blocks rs p = (case node_at rs p of None \<Rightarrow> 0 | Some r \<Rightarrow> blocks_r r)"

lemma kept_blocks_simps [simp]:
  "kept_blocks [] p = 0"
  "kept_blocks rs [] = 0"
  "kept_blocks (r # rs) [0] = blocks_r r"
  "kept_blocks (r # rs) (Suc i # p) = kept_blocks rs (i # p)"
  by (simp_all add: kept_blocks_def)

lemma kept_blocks_step:
  "p \<noteq> [0] \<Longrightarrow> kept_blocks (MiRes v x # rs) p =
     (case x of VConst s \<Rightarrow> 0 | VTuple l \<Rightarrow> kept_blocks l (path_in p)
      | VList l \<Rightarrow> kept_blocks l (path_in p)) + kept_blocks rs (path_next p)"
  by (cases "(MiRes v x # rs, p)" rule: node_at.cases)
    (simp_all add: kept_blocks_def split: mi_val.splits)

lemma mi_free_results_but_live:
  "mi_free_results_but rs p w = add_live (kept_blocks rs p - blocks_l rs) w"
proof (induction rs p w rule: mi_free_results_but.induct)
  case (2 v x rs no w)
  show ?case
  proof (cases "no = [0]")
    case True
    with 2 show ?thesis by simp
  next
    case False
    with 2 show ?thesis
      by (cases x) (simp_all add: c_free_live kept_blocks_step algebra_simps Let_def)
  qed
qed simp

lemma mi_free_results_live: "mi_free_results rs w = add_live (- blocks_l rs) w"
  by (simp add: mi_free_results_def mi_free_results_but_live)

lemma mi_free_output_but_live:
  "mi_free_output_but os None no_r w =
     add_live ((case no_r of k # p \<Rightarrow> if k < length os then kept_blocks (o_c (os ! k)) p else 0
                | [] \<Rightarrow> 0) - blocks_os os) w"
proof (induction os arbitrary: no_r w)
  case (Cons r rs)
  then show ?case
    by (cases no_r; cases "hd no_r")
      (simp_all add: mi_free_results_but_live c_free_live blocks_o_def algebra_simps Let_def
        path_in_def path_next_def split: list.splits nat.splits)
qed (simp split: list.splits)

lemma mi_free_output_live: "mi_free_output os w = add_live (- blocks_os os) w"
  by (simp add: mi_free_output_def mi_free_output_but_live)

lemmas free_live = c_free_live mi_free_results_live mi_free_output_live

end
