(* ===== verification/MI_Parse.thy ===== *)
theory MI_Parse
  imports MI_Alloc
begin

text \<open>
  The parser of gdb's output, \<open>src/parse.c\<close> lines 36 to 496, as the code has it: recursive
  descent over a C string, result trees built node by node, \<open>mi_error\<close> set where the code sets
  it, every block accounted for. The Apple-only functions are left out (the Linux build has
  tuples of results only).

  The mutually recursive functions take fuel; the entry point gives three units for each byte of
  the buffer, which is always enough (\<open>parse_fuel\<close> below).
\<close>

section \<open>Constants\<close>

definition end_of_str :: "cptr \<Rightarrow> bool run" where
  "end_of_str s = bnd (deref s) (\<lambda>c.
     if c = QUOTE
     then bnd (deref (tl s)) (\<lambda>d.
       Inr (d = NUL \<or> d = CHR '','' \<or> d = CHR '']'' \<or> d = CHR ''}''))
     else Inr False)"

text \<open>The guard of both loops of \<open>mi_get_cstring_r\<close>: \<open>*s && !EndOfStr(s)\<close>.\<close>

definition cstr_more :: "cptr \<Rightarrow> bool run" where
  "cstr_more s = bnd (deref s) (\<lambda>c.
     if c = NUL then Inr False else bnd (end_of_str s) (\<lambda>e. Inr (\<not> e)))"

text \<open>
  The first loop counts the characters. Its test \<open>!*s\<close> looks at the backslash itself, so the
  error return (\<open>None\<close>) is never taken: a backslash before the final NUL steps over the NUL.
\<close>

fun measure_cstr :: "cptr \<Rightarrow> nat \<Rightarrow> nat option run" where
  "measure_cstr [] len = Inl Over_read"
| "measure_cstr (c # s) len = bnd (cstr_more (c # s)) (\<lambda>more.
     if \<not> more then Inr (Some len)
     else if c = BSLASH then
       (if c = NUL then Inr None else measure_cstr (tl s) (Suc len))
     else measure_cstr s (Suc len))"

definition unescape :: "char \<Rightarrow> char" where
  "unescape c = (if c = CHR ''n'' then NEWLINE else if c = CHR ''t'' then TAB else c)"

text \<open>
  The second loop writes the characters through \<open>d\<close>, then the NUL; \<open>room\<close> is what is left of the
  allocated bytes at \<open>d\<close>. Its value is what it wrote and where \<open>s\<close> stopped.
\<close>

fun copy_cstr :: "cptr \<Rightarrow> nat \<Rightarrow> (string \<times> cptr) run" where
  "copy_cstr [] room = Inl Over_read"
| "copy_cstr (c # s) room = bnd (cstr_more (c # s)) (\<lambda>more.
     case room of
       0 \<Rightarrow> Inl Over_write
     | Suc room' \<Rightarrow>
         if \<not> more then Inr ([], c # s)
         else if c = BSLASH then
           bnd (deref s) (\<lambda>e. bnd (copy_cstr (tl s) room') (\<lambda>(t, q). Inr (unescape e # t, q)))
         else bnd (copy_cstr s room') (\<lambda>(t, q). Inr (c # t, q)))"

text \<open>
  The result of a function that fills a node: \<open>*end\<close> when it returned 1 and \<open>None\<close> when it
  returned 0, and the node's value after it. The node is fresh in every call. The string a
  buffer holds ends at its first NUL.
\<close>

definition mi_get_cstring_r :: "cptr \<Rightarrow> world \<Rightarrow> (cptr option \<times> mi_val \<times> world) run" where
  "mi_get_cstring_r str w = bnd (deref str) (\<lambda>c.
     if c \<noteq> QUOTE then Inr (None, VConst None, w\<lparr>mi_error := MI_PARSER\<rparr>)
     else bnd (measure_cstr (tl str) 0) (\<lambda>l.
       case l of
         None \<Rightarrow> Inr (None, VConst None, w\<lparr>mi_error := MI_PARSER\<rparr>)
       | Some len \<Rightarrow>
           let (ok, w1) = mi_malloc w in
           if \<not> ok then Inr (None, VConst None, w1)
           else bnd (copy_cstr (tl str) (len + 1)) (\<lambda>(t, q).
             Inr (Some (tl q), VConst (Some (takeWhile (\<lambda>c. c \<noteq> NUL) t)), w1))))"

section \<open>Names\<close>

definition mi_is_var_name_char :: "char \<Rightarrow> bool" where
  "mi_is_var_name_char c \<longleftrightarrow> isalnum c \<or> c = CHR ''-'' \<or> c = CHR ''_''"

fun var_name_span :: "cptr \<Rightarrow> (string \<times> cptr) run" where
  "var_name_span [] = Inl Over_read"
| "var_name_span (c # s) =
     (if c \<noteq> NUL \<and> mi_is_var_name_char c
      then bnd (var_name_span s) (\<lambda>(v, q). Inr (c # v, q))
      else Inr ([], c # s))"

text \<open>The block for the name is used without a test for NULL.\<close>

definition mi_get_var_name :: "cptr \<Rightarrow> world \<Rightarrow> ((string \<times> cptr) option \<times> world) run" where
  "mi_get_var_name str w = bnd (var_name_span str) (\<lambda>(v, s).
     bnd (deref s) (\<lambda>c.
       if c \<noteq> CHR ''='' then Inr (None, w\<lparr>mi_error := MI_PARSER\<rparr>)
       else let (ok, w1) = mi_malloc w in
         if \<not> ok then Inl Null_deref else Inr (Some (v, tl s), w1)))"

section \<open>Values, tuples, lists and results\<close>

text \<open>
  \<open>mi_get_list_res n acc last_r str closeC\<close>: one turn of the loop, with \<open>acc\<close> the list at
  \<open>r->v.rs\<close> and \<open>last_r\<close> only whether the pointer of that name is not NULL. A result that does not
  parse leaves \<open>str\<close> where it was and \<open>last_r\<close> NULL, so that the next node replaces the list.
\<close>

function (sequential) mi_get_list_res ::
    "nat \<Rightarrow> mi_results list \<Rightarrow> bool \<Rightarrow> cptr \<Rightarrow> char \<Rightarrow> world
      \<Rightarrow> (cptr option \<times> mi_results list \<times> world) run"
  and mi_get_tuple :: "nat \<Rightarrow> cptr \<Rightarrow> world \<Rightarrow> (cptr option \<times> mi_val \<times> world) run"
  and mi_get_list_val ::
    "nat \<Rightarrow> mi_results list \<Rightarrow> cptr \<Rightarrow> world
      \<Rightarrow> (cptr option \<times> mi_results list \<times> world) run"
  and mi_get_list :: "nat \<Rightarrow> cptr \<Rightarrow> world \<Rightarrow> (cptr option \<times> mi_val \<times> world) run"
  and mi_get_value :: "nat \<Rightarrow> cptr \<Rightarrow> world \<Rightarrow> (cptr option \<times> mi_val \<times> world) run"
  and mi_get_result :: "nat \<Rightarrow> cptr \<Rightarrow> world \<Rightarrow> ((mi_results \<times> cptr) option \<times> world) run"
where
  "mi_get_list_res 0 acc last_r str closeC w = Inl Out_of_fuel"
| "mi_get_list_res (Suc n) acc last_r str closeC w =
     bnd (mi_get_result n str w) (\<lambda>(rs, w1).
       let acc1 = (case rs of
                     Some (node, _) \<Rightarrow> if last_r then acc @ [node] else [node]
                   | None \<Rightarrow> if last_r then acc else []);
           str1 = (case rs of Some (_, e) \<Rightarrow> e | None \<Rightarrow> str)
       in bnd (deref str1) (\<lambda>c.
         if c = closeC then Inr (Some (tl str1), acc1, w1)
         else if c \<noteq> CHR '','' then Inr (None, acc1, w1\<lparr>mi_error := MI_PARSER\<rparr>)
         else mi_get_list_res n acc1 (rs \<noteq> None) (tl str1) closeC w1))"
| "mi_get_tuple 0 str w = Inl Out_of_fuel"
| "mi_get_tuple (Suc n) str w = bnd (deref str) (\<lambda>c.
     if c \<noteq> CHR ''{'' then Inr (None, VConst None, w\<lparr>mi_error := MI_PARSER\<rparr>)
     else bnd (deref (tl str)) (\<lambda>d.
       if d = CHR ''}'' then Inr (Some (tl (tl str)), VTuple [], w)
       else bnd (mi_get_list_res n [] False (tl str) CHR ''}'' w) (\<lambda>(e, l, w1).
         Inr (e, VTuple l, w1))))"
| "mi_get_list_val 0 acc str w = Inl Out_of_fuel"
| "mi_get_list_val (Suc n) acc str w =
     (case mi_alloc_results w of
        (None, w1) \<Rightarrow> Inr (None, acc, w1)
      | (Some _, w1) \<Rightarrow>
          bnd (mi_get_value n str w1) (\<lambda>(e, x, w2).
            case e of
              None \<Rightarrow> Inr (None, acc, mi_free_results [MiRes None x] w2)
            | Some str1 \<Rightarrow>
                let acc1 = acc @ [MiRes None x] in
                bnd (deref str1) (\<lambda>c.
                  if c = CHR '']'' then Inr (Some (tl str1), acc1, w2)
                  else if c \<noteq> CHR '','' then Inr (None, acc1, w2\<lparr>mi_error := MI_PARSER\<rparr>)
                  else mi_get_list_val n acc1 (tl str1) w2)))"
| "mi_get_list 0 str w = Inl Out_of_fuel"
| "mi_get_list (Suc n) str w = bnd (deref str) (\<lambda>c.
     if c \<noteq> CHR ''['' then Inr (None, VConst None, w\<lparr>mi_error := MI_PARSER\<rparr>)
     else bnd (deref (tl str)) (\<lambda>d.
       if d = CHR '']'' then Inr (Some (tl (tl str)), VList [], w)
       else if mi_is_var_name_char d
       then bnd (mi_get_list_res n [] False (tl str) CHR '']'' w) (\<lambda>(e, l, w1).
         Inr (e, VList l, w1))
       else bnd (mi_get_list_val n [] (tl str) w) (\<lambda>(e, l, w1).
         Inr (e, VList l, w1))))"
| "mi_get_value 0 str w = Inl Out_of_fuel"
| "mi_get_value (Suc n) str w = bnd (deref str) (\<lambda>c.
     if c = QUOTE then mi_get_cstring_r str w
     else if c = CHR ''{'' then mi_get_tuple n str w
     else if c = CHR ''['' then mi_get_list n str w
     else Inr (None, VConst None, w\<lparr>mi_error := MI_PARSER\<rparr>))"
| "mi_get_result 0 str w = Inl Out_of_fuel"
| "mi_get_result (Suc n) str w =
     bnd (mi_get_var_name str w) (\<lambda>(var, w1).
       case var of
         None \<Rightarrow> Inr (None, w1)
       | Some (v, s) \<Rightarrow>
           (case mi_alloc_results w1 of
              (None, w2) \<Rightarrow> Inr (None, c_free (Some v) w2)
            | (Some _, w2) \<Rightarrow>
                bnd (mi_get_value n s w2) (\<lambda>(e, x, w3).
                  case e of
                    None \<Rightarrow> Inr (None, mi_free_results [MiRes (Some v) x] w3)
                  | Some q \<Rightarrow> Inr (Some (MiRes (Some v) x, q), w3))))"
  by pat_completeness auto
termination
  by (relation "measure (case_sum (case_sum fst (case_sum fst fst))
        (case_sum fst (case_sum fst fst)))") simp_all

section \<open>Records\<close>

text \<open>The loop over the results of a record; \<open>last_r\<close> is again whether that pointer is not NULL.\<close>

fun mi_get_results_alone ::
    "nat \<Rightarrow> mi_output \<Rightarrow> bool \<Rightarrow> cptr \<Rightarrow> world \<Rightarrow> (mi_output option \<times> world) run" where
  "mi_get_results_alone 0 r last_r str w = Inl Out_of_fuel"
| "mi_get_results_alone (Suc n) r last_r str w = bnd (deref str) (\<lambda>c.
     if c = NUL then Inr (Some r, w)
     else if c \<noteq> CHR '','' then
       Inr (None, mi_free_output [r] (w\<lparr>mi_error := MI_PARSER\<rparr>))
     else bnd (mi_get_result n (tl str) w) (\<lambda>(rs, w1).
       case rs of
         None \<Rightarrow> Inr (None, mi_free_output [r] w1)
       | Some (node, q) \<Rightarrow>
           mi_get_results_alone n (r\<lparr>o_c := (if last_r then o_c r @ [node] else [node])\<rparr>) True q w1))"

definition mi_parse_result_record ::
    "nat \<Rightarrow> mi_output \<Rightarrow> cptr \<Rightarrow> world \<Rightarrow> (mi_output option \<times> world) run" where
  "mi_parse_result_record n r0 str w =
     (let r = r0\<lparr>o_type := MI_T_RESULT_RECORD\<rparr> in
      bnd (strncmp_eq ''done'' str) (\<lambda>b.
        if b then mi_get_results_alone n (r\<lparr>o_tclass := MI_CL_DONE\<rparr>) False (drop 4 str) w
        else bnd (strncmp_eq ''running'' str) (\<lambda>b.
        if b then mi_get_results_alone n (r\<lparr>o_tclass := MI_CL_RUNNING\<rparr>) False (drop 7 str) w
        else bnd (strncmp_eq ''connected'' str) (\<lambda>b.
        if b then mi_get_results_alone n (r\<lparr>o_tclass := MI_CL_CONNECTED\<rparr>) False (drop 9 str) w
        else bnd (strncmp_eq ''error'' str) (\<lambda>b.
        if b then mi_get_results_alone n (r\<lparr>o_tclass := MI_CL_ERROR\<rparr>) False (drop 5 str) w
        else bnd (strncmp_eq ''exit'' str) (\<lambda>b.
        if b then mi_get_results_alone n (r\<lparr>o_tclass := MI_CL_EXIT\<rparr>) False (drop 4 str) w
        else Inr (None, w\<lparr>mi_error := MI_UNKNOWN_RESULT\<rparr>)))))))"

definition mi_parse_asyn ::
    "nat \<Rightarrow> mi_output \<Rightarrow> cptr \<Rightarrow> world \<Rightarrow> (mi_output option \<times> world) run" where
  "mi_parse_asyn n r0 str w =
     (let r = r0\<lparr>o_type := MI_T_OUT_OF_BAND, o_stype := MI_ST_ASYNC\<rparr> in
      bnd (strncmp_eq ''stopped'' str) (\<lambda>b.
        if b then mi_get_results_alone n (r\<lparr>o_tclass := MI_CL_STOPPED\<rparr>) False (drop 7 str) w
        else bnd (strncmp_eq ''download'' str) (\<lambda>b.
        if b then mi_get_results_alone n (r\<lparr>o_tclass := MI_CL_DOWNLOAD\<rparr>) False (drop 8 str) w
        else Inr (None, mi_free_output [r] (w\<lparr>mi_error := MI_UNKNOWN_ASYNC\<rparr>)))))"

definition mi_parse_exec_asyn where
  "mi_parse_exec_asyn n r str w = mi_parse_asyn n (r\<lparr>o_sstype := MI_SST_EXEC\<rparr>) str w"

definition mi_parse_status_asyn where
  "mi_parse_status_asyn n r str w = mi_parse_asyn n (r\<lparr>o_sstype := MI_SST_STATUS\<rparr>) str w"

definition mi_parse_notify_asyn where
  "mi_parse_notify_asyn n r str w = mi_parse_asyn n (r\<lparr>o_sstype := MI_SST_NOTIFY\<rparr>) str w"

definition mi_console :: "mi_output \<Rightarrow> cptr \<Rightarrow> world \<Rightarrow> (mi_output option \<times> world) run" where
  "mi_console r0 str w =
     (let r = r0\<lparr>o_type := MI_T_OUT_OF_BAND, o_stype := MI_ST_STREAM\<rparr> in
      case mi_alloc_results w of
        (None, w1) \<Rightarrow> Inr (None, mi_free_output [r\<lparr>o_c := []\<rparr>] w1)
      | (Some _, w1) \<Rightarrow> bnd (mi_get_cstring_r str w1) (\<lambda>(e, x, w2).
          let r1 = r\<lparr>o_c := [MiRes None x]\<rparr> in
          if e = None then Inr (None, mi_free_output [r1] w2) else Inr (Some r1, w2)))"

definition mi_console_stream where
  "mi_console_stream r str w = mi_console (r\<lparr>o_sstype := MI_SST_CONSOLE\<rparr>) str w"

definition mi_target_stream where
  "mi_target_stream r str w = mi_console (r\<lparr>o_sstype := MI_SST_TARGET\<rparr>) str w"

definition mi_log_stream where
  "mi_log_stream r str w = mi_console (r\<lparr>o_sstype := MI_SST_LOG\<rparr>) str w"

definition parse_fuel :: "cptr \<Rightarrow> nat" where
  "parse_fuel str = 3 * length str + 3"

text \<open>The record is not released when its type is unknown, nor when its result class is.\<close>

definition mi_parse_gdb_output :: "cptr \<Rightarrow> world \<Rightarrow> (mi_output option \<times> world) run" where
  "mi_parse_gdb_output str w = bnd (deref str) (\<lambda>type.
     case mi_alloc_output w of
       (None, w1) \<Rightarrow> Inr (None, w1\<lparr>mi_error := MI_OUT_OF_MEMORY\<rparr>)
     | (Some r, w1) \<Rightarrow>
         let s = tl str; n = parse_fuel s in
         if type = CHR ''^'' then mi_parse_result_record n r s w1
         else if type = CHR ''*'' then mi_parse_exec_asyn n r s w1
         else if type = CHR ''+'' then mi_parse_status_asyn n r s w1
         else if type = CHR ''='' then mi_parse_notify_asyn n r s w1
         else if type = CHR ''~'' then mi_console_stream r s w1
         else if type = CHR ''@'' then mi_target_stream r s w1
         else if type = CHR ''&'' then mi_log_stream r s w1
         else Inr (None, w1\<lparr>mi_error := MI_PARSER\<rparr>))"

end
