(* ===== verification/MI_Parse_Safe.thy ===== *)
theory MI_Parse_Safe
  imports MI_Parse
begin

text \<open>
  What the parser of \<open>MI_Parse\<close> guarantees for any bytes: it ends within its fuel, its only fault
  is a read past the buffer (and the unchecked block of a name, when memory runs out), it accounts
  for every block it takes, a failure always leaves an error number, and the trees it returns have
  names and strings where the code that walks them expects these.
\<close>

section \<open>The contract of the parser\<close>

subsection \<open>Constants and names\<close>

lemma cstr_more_fault: "wp (cstr_more s) (\<lambda>_. s \<noteq> []) (\<lambda>f. f = Over_read)"
  by (cases s; cases "tl s") (auto simp: cstr_more_def end_of_str_def)

text \<open>Both loops of a constant take the same turns, so the copy fits the block.\<close>

lemma copy_measure:
  "wp (measure_cstr s len)
     (\<lambda>l. \<exists>n t q. l = Some (len + n) \<and> copy_cstr s (Suc n) = Inr (t, q) \<and>
        length t = n \<and> length q \<le> length s \<and> q \<noteq> [])
     (\<lambda>f. f = Over_read)"
proof (induction s len rule: measure_cstr.induct)
  case (2 c s len)
  show ?case
  proof (cases "cstr_more (c # s)")
    case (Inl f)
    then show ?thesis using cstr_more_fault [of "c # s"] by simp
  next
    case (Inr more)
    consider "\<not> more" | "more" "c = BSLASH" | "more" "c \<noteq> BSLASH" by blast
    then show ?thesis
    proof cases
      case 2
      with Inr "2.IH"(1) [of more] show ?thesis
        by (cases s) (auto elim!: wp_mono)
    next
      case 3
      with Inr "2.IH"(2) [of more] show ?thesis
        by (auto elim!: wp_mono)
    qed (simp add: Inr)
  qed
qed simp

text \<open>
  \<open>moved w b w'\<close>: from \<open>w\<close> to \<open>w'\<close> the heap gained at least the \<open>b\<close> blocks of the result, and
  exactly these when no error is recorded; a recorded error stays recorded.
\<close>

definition moved :: "world \<Rightarrow> int \<Rightarrow> world \<Rightarrow> bool" where
  "moved w b w' \<longleftrightarrow>
     live w + b \<le> live w' \<and>
     (mi_error w' = MI_OK \<longrightarrow> live w' = live w + b) \<and>
     (mi_error w \<noteq> MI_OK \<longrightarrow> mi_error w' \<noteq> MI_OK) \<and>
     (oom w = [] \<longrightarrow> oom w' = [])"

lemma moved_refl [simp]: "moved w 0 w"
  by (simp add: moved_def)

lemma moved_trans: "moved w b w1 \<Longrightarrow> moved w1 c w2 \<Longrightarrow> moved w (b + c) w2"
  by (auto simp: moved_def)

lemma moved_add_live: "moved w b w1 \<Longrightarrow> moved w (b + k) (add_live k w1)"
  by (auto simp: moved_def)

lemma moved_error: "moved w b w1 \<Longrightarrow> e \<noteq> MI_OK \<Longrightarrow> moved w b (w1\<lparr>mi_error := e\<rparr>)"
  by (auto simp: moved_def)

lemma moved_loss: "moved w b w1 \<Longrightarrow> c \<le> b \<Longrightarrow> mi_error w1 \<noteq> MI_OK \<Longrightarrow> moved w c w1"
  by (auto simp: moved_def)

lemma moved_errorD: "moved w b w1 \<Longrightarrow> mi_error w \<noteq> MI_OK \<Longrightarrow> mi_error w1 \<noteq> MI_OK"
  by (auto simp: moved_def)

lemma moved_oomD: "moved w b w1 \<Longrightarrow> oom w1 \<noteq> [] \<Longrightarrow> oom w \<noteq> []"
  by (auto simp: moved_def)

lemma mi_malloc_moved:
  "mi_malloc w = (ok, w1) \<Longrightarrow>
     moved w (if ok then 1 else 0) w1 \<and> (\<not> ok \<longrightarrow> mi_error w1 = MI_OUT_OF_MEMORY \<and> oom w \<noteq> [])"
  by (auto simp: moved_def mi_malloc_def c_malloc_def error_codes
      split: list.splits if_splits)

lemma mi_alloc_results_moved:
  assumes "mi_alloc_results w = (r, w1)"
  shows "(r = Some (MiRes None (VConst None)) \<and> moved w 1 w1) \<or>
         (r = None \<and> moved w 0 w1 \<and> mi_error w1 = MI_OUT_OF_MEMORY)"
  using assms
  by (auto simp: moved_def mi_alloc_results_def mi_calloc1_def mi_calloc_def c_calloc_def
      c_malloc_def error_codes split: list.splits if_splits)

text \<open>A complete tree: every constant has its string, and names are where the grammar has them.\<close>

definition good_name :: "string option \<Rightarrow> bool" where
  "good_name v = (case v of None \<Rightarrow> True | Some s \<Rightarrow> list_all mi_is_var_name_char s)"

fun full_r :: "mi_results \<Rightarrow> bool" and full_v :: "mi_val \<Rightarrow> bool" where
  "full_r (MiRes v x) \<longleftrightarrow> good_name v \<and> full_v x"
| "full_v (VConst s) \<longleftrightarrow> (case s of None \<Rightarrow> False | Some t \<Rightarrow> NUL \<notin> set t)"
| "full_v (VTuple rs) \<longleftrightarrow> (\<forall>r\<in>set rs. r_var r \<noteq> None \<and> full_r r)"
| "full_v (VList rs) \<longleftrightarrow>
     ((\<forall>r\<in>set rs. r_var r \<noteq> None) \<or> (\<forall>r\<in>set rs. r_var r = None)) \<and> (\<forall>r\<in>set rs. full_r r)"

text \<open>The faults a parsing function may end in; \<open>short\<close> says that the fuel was too little.\<close>

definition fault_ok :: "world \<Rightarrow> bool \<Rightarrow> fault \<Rightarrow> bool" where
  "fault_ok w short f \<longleftrightarrow>
     f = Over_read \<or> (f = Null_deref \<and> oom w \<noteq> []) \<or> (f = Out_of_fuel \<and> short)"

lemma fault_ok_mono:
  "fault_ok w1 b f \<Longrightarrow> (oom w1 \<noteq> [] \<longrightarrow> oom w \<noteq> []) \<Longrightarrow> (b \<longrightarrow> b') \<Longrightarrow> fault_ok w b' f"
  by (auto simp: fault_ok_def)

lemma fault_ok_Over_read [simp]: "fault_ok w b Over_read"
  by (simp add: fault_ok_def)

definition value_post :: "cptr \<Rightarrow> world \<Rightarrow> cptr option \<times> mi_val \<times> world \<Rightarrow> bool" where
  "value_post str w = (\<lambda>(e, x, w1).
     moved w (blocks_v x) w1 \<and>
     (case e of None \<Rightarrow> mi_error w1 \<noteq> MI_OK
      | Some p \<Rightarrow> length p < length str \<and> full_v x))"

lemma deref_wp [simp]: "wp (deref s) Q F \<longleftrightarrow> (if s = [] then F Over_read else Q (hd s))"
  by (cases s) simp_all

lemma takeWhile_NUL [simp]: "NUL \<notin> set (takeWhile (\<lambda>c. c \<noteq> NUL) t)"
  by (auto dest: set_takeWhileD)

lemma mi_get_cstring_r_contract:
  "wp (mi_get_cstring_r str w) (value_post str w) (fault_ok w b)"
proof (cases str)
  case (Cons c s)
  obtain ok w1 where m: "mi_malloc w = (ok, w1)" by fastforce
  have "wp (mi_get_cstring_r (QUOTE # s) w) (value_post (QUOTE # s) w) (fault_ok w b)"
    using copy_measure [of s 0] mi_malloc_moved [OF m]
    by (auto simp: mi_get_cstring_r_def value_post_def m error_codes elim!: wp_mono)
  then show ?thesis
    using Cons
    by (cases "c = QUOTE") (simp_all add: mi_get_cstring_r_def value_post_def moved_error error_codes)
qed (simp add: mi_get_cstring_r_def)

lemma var_name_span_contract:
  "wp (var_name_span s)
     (\<lambda>(v, q). q \<noteq> [] \<and> length q \<le> length s \<and> list_all mi_is_var_name_char v)
     (\<lambda>f. f = Over_read)"
  by (induction s) (auto elim!: wp_mono)

definition name_post :: "cptr \<Rightarrow> world \<Rightarrow> (string \<times> cptr) option \<times> world \<Rightarrow> bool" where
  "name_post str w = (\<lambda>(var, w1). case var of
       None \<Rightarrow> moved w 0 w1 \<and> mi_error w1 \<noteq> MI_OK
     | Some (v, p) \<Rightarrow> moved w 1 w1 \<and> length p < length str \<and> list_all mi_is_var_name_char v)"

lemma mi_get_var_name_contract:
  "wp (mi_get_var_name str w) (name_post str w) (fault_ok w b)"
proof -
  obtain ok w1 where m: "mi_malloc w = (ok, w1)" by fastforce
  show ?thesis
    using mi_malloc_moved [OF m] var_name_span_contract [of str]
    by (auto simp: mi_get_var_name_def name_post_def m moved_error fault_ok_def error_codes
        neq_Nil_conv split: if_splits elim!: wp_mono)
qed


subsection \<open>The mutually recursive functions\<close>

definition list_post ::
    "bool \<Rightarrow> mi_results list \<Rightarrow> cptr \<Rightarrow> world \<Rightarrow> cptr option \<times> mi_results list \<times> world \<Rightarrow> bool" where
  "list_post named acc str w = (\<lambda>(e, l, w1).
     moved w (blocks_l l - blocks_l acc) w1 \<and>
     (\<forall>r\<in>set l. (r_var r \<noteq> None) = named \<and> full_r r) \<and>
     (case e of None \<Rightarrow> mi_error w1 \<noteq> MI_OK | Some p \<Rightarrow> length p < length str))"

definition result_post :: "cptr \<Rightarrow> world \<Rightarrow> (mi_results \<times> cptr) option \<times> world \<Rightarrow> bool" where
  "result_post str w = (\<lambda>(rs, w1). case rs of
       None \<Rightarrow> moved w 0 w1 \<and> mi_error w1 \<noteq> MI_OK
     | Some (r, p) \<Rightarrow> moved w (blocks_r r) w1 \<and> r_var r \<noteq> None \<and> full_r r \<and> length p < length str)"

definition list_res_ok :: "nat \<Rightarrow> bool" where
  "list_res_ok n \<longleftrightarrow> (\<forall>acc last_r str closeC w.
     (\<forall>r\<in>set acc. r_var r \<noteq> None \<and> full_r r) \<longrightarrow>
     (\<not> last_r \<and> acc \<noteq> [] \<longrightarrow> mi_error w \<noteq> MI_OK) \<longrightarrow>
     wp (mi_get_list_res n acc last_r str closeC w) (list_post True acc str w)
       (fault_ok w (n < 3 * length str + 2)))"

definition list_val_ok :: "nat \<Rightarrow> bool" where
  "list_val_ok n \<longleftrightarrow> (\<forall>acc str w.
     (\<forall>r\<in>set acc. r_var r = None \<and> full_r r) \<longrightarrow>
     wp (mi_get_list_val n acc str w) (list_post False acc str w)
       (fault_ok w (n < 3 * length str + 2)))"

definition value_ok :: "nat \<Rightarrow> (nat \<Rightarrow> cptr \<Rightarrow> world \<Rightarrow> (cptr option \<times> mi_val \<times> world) run) \<Rightarrow> nat \<Rightarrow> bool" where
  "value_ok k f n \<longleftrightarrow> (\<forall>str w. wp (f n str w) (value_post str w)
     (fault_ok w (str = [] \<and> n = 0 \<or> n < 3 * length str + k)))"

definition result_ok :: "nat \<Rightarrow> bool" where
  "result_ok n \<longleftrightarrow> (\<forall>str w. wp (mi_get_result n str w) (result_post str w)
     (fault_ok w (n < 3 * length str + 1)))"

lemmas parser_ok_defs = list_res_ok_def list_val_ok_def value_ok_def result_ok_def

lemma list_res_tail:
  assumes "list_res_ok n"
    and "moved w (blocks_l acc1 - blocks_l acc) w1"
    and "\<forall>r\<in>set acc1. r_var r \<noteq> None \<and> full_r r"
    and "\<not> last_r \<and> acc1 \<noteq> [] \<longrightarrow> mi_error w1 \<noteq> MI_OK"
    and "length str1 \<le> length str"
  shows "wp (bnd (deref str1) (\<lambda>c.
         if c = closeC then Inr (Some (tl str1), acc1, w1)
         else if c \<noteq> CHR '','' then Inr (None, acc1, w1\<lparr>mi_error := MI_PARSER\<rparr>)
         else mi_get_list_res n acc1 last_r (tl str1) closeC w1))
     (list_post True acc str w) (fault_ok w (Suc n < 3 * length str + 2))"
proof (cases "str1 = []")
  case False
  have "wp (mi_get_list_res n acc1 last_r (tl str1) closeC w1) (list_post True acc1 (tl str1) w1)
       (fault_ok w1 (n < 3 * length (tl str1) + 2))"
    using assms unfolding list_res_ok_def by blast
  moreover have "list_post True acc1 (tl str1) w1 x \<Longrightarrow> list_post True acc str w x" for x
    using assms(2,5) False moved_trans [of w "blocks_l acc1 - blocks_l acc" w1]
    by (fastforce simp: list_post_def split: option.splits)
  moreover have "fault_ok w1 (n < 3 * length (tl str1) + 2) f
      \<Longrightarrow> fault_ok w (Suc n < 3 * length str + 2) f" for f
    using assms(2,5) False by (auto elim!: fault_ok_mono dest: moved_oomD simp: neq_Nil_conv)
  ultimately have "wp (mi_get_list_res n acc1 last_r (tl str1) closeC w1)
      (list_post True acc str w) (fault_ok w (Suc n < 3 * length str + 2))"
    by (rule wp_mono)
  with assms False show ?thesis
    by (auto simp: list_post_def moved_error error_codes neq_Nil_conv)
qed simp

lemma list_res_step:
  assumes "result_ok n" and "list_res_ok n"
  shows "list_res_ok (Suc n)"
  unfolding list_res_ok_def mi_get_list_res.simps
proof (intro allI impI, rule wp_bndI [OF assms(1) [unfolded result_ok_def, rule_format]], goal_cases)
  case (1 acc last_r str closeC w f)
  then show ?case by (auto elim: fault_ok_mono)
next
  case (2 acc last_r str closeC w x)
  obtain rs w1 where x: "x = (rs, w1)" by fastforce
  show ?case
  proof (cases rs)
    case None
    with 2 x have "moved w 0 w1" and "mi_error w1 \<noteq> MI_OK"
      by (simp_all add: result_post_def)
    then have "moved w (blocks_l (if last_r then acc else []) - blocks_l acc) w1"
      by (auto intro: moved_loss simp: blocks_l_nonneg)
    with 2 \<open>mi_error w1 \<noteq> MI_OK\<close> show ?thesis
      unfolding x None Let_def prod.case option.case
      by (intro list_res_tail [OF assms(2)]) auto
  next
    case (Some p)
    obtain node e where p: "p = (node, e)" by fastforce
    with 2 x Some have node: "moved w (blocks_r node) w1" "r_var node \<noteq> None" "full_r node"
      "length e < length str"
      by (simp_all add: result_post_def)
    have "moved w (blocks_l (if last_r then acc @ [node] else [node]) - blocks_l acc) w1"
      using node(1) 2(2) moved_errorD [OF node(1)]
      by (auto intro: moved_loss simp: blocks_l_nonneg)
    with 2 node show ?thesis
      unfolding x Some p Let_def prod.case option.case
      by (intro list_res_tail [OF assms(2)]) auto
  qed
qed


lemma list_val_tail:
  assumes "list_val_ok n"
    and "moved w (blocks_l acc1 - blocks_l acc) w1"
    and "\<forall>r\<in>set acc1. r_var r = None \<and> full_r r"
    and "length str1 < length str"
  shows "wp (bnd (deref str1) (\<lambda>c.
         if c = CHR '']'' then Inr (Some (tl str1), acc1, w1)
         else if c \<noteq> CHR '','' then Inr (None, acc1, w1\<lparr>mi_error := MI_PARSER\<rparr>)
         else mi_get_list_val n acc1 (tl str1) w1))
     (list_post False acc str w) (fault_ok w (Suc n < 3 * length str + 2))"
proof (cases "str1 = []")
  case False
  have "wp (mi_get_list_val n acc1 (tl str1) w1) (list_post False acc1 (tl str1) w1)
       (fault_ok w1 (n < 3 * length (tl str1) + 2))"
    using assms unfolding list_val_ok_def by blast
  moreover have "list_post False acc1 (tl str1) w1 x \<Longrightarrow> list_post False acc str w x" for x
    using assms(2,4) False moved_trans [of w "blocks_l acc1 - blocks_l acc" w1]
    by (fastforce simp: list_post_def split: option.splits)
  moreover have "fault_ok w1 (n < 3 * length (tl str1) + 2) f
      \<Longrightarrow> fault_ok w (Suc n < 3 * length str + 2) f" for f
    using assms(2,4) False by (auto elim!: fault_ok_mono dest: moved_oomD simp: neq_Nil_conv)
  ultimately have "wp (mi_get_list_val n acc1 (tl str1) w1)
      (list_post False acc str w) (fault_ok w (Suc n < 3 * length str + 2))"
    by (rule wp_mono)
  with assms False show ?thesis
    by (auto simp: list_post_def moved_error error_codes neq_Nil_conv)
qed simp

lemma list_val_step:
  assumes "value_ok 1 mi_get_value n" and "list_val_ok n"
  shows "list_val_ok (Suc n)"
  unfolding list_val_ok_def mi_get_list_val.simps
proof (intro allI impI)
  fix acc str and w :: world
  assume acc: "\<forall>r\<in>set acc. r_var r = None \<and> full_r r"
  obtain r w1 where al: "mi_alloc_results w = (r, w1)" by fastforce
  note val = assms(1) [unfolded value_ok_def, rule_format, of str w1]
  show "wp (case mi_alloc_results w of
        (None, w1) \<Rightarrow> Inr (None, acc, w1)
      | (Some _, w1) \<Rightarrow>
          bnd (mi_get_value n str w1) (\<lambda>(e, x, w2).
            case e of
              None \<Rightarrow> Inr (None, acc, mi_free_results [MiRes None x] w2)
            | Some str1 \<Rightarrow>
                let acc1 = acc @ [MiRes None x] in
                bnd (deref str1) (\<lambda>c.
                  if c = CHR '']'' then Inr (Some (tl str1), acc1, w2)
                  else if c \<noteq> CHR '','' then Inr (None, acc1, w2\<lparr>mi_error := MI_PARSER\<rparr>)
                  else mi_get_list_val n acc1 (tl str1) w2)))
      (list_post False acc str w) (fault_ok w (Suc n < 3 * length str + 2))"
    using mi_alloc_results_moved [OF al]
  proof (elim disjE conjE, goal_cases)
    case 1
    have w1: "moved w 1 w1" by fact
    show ?case
      unfolding al 1 prod.case option.case
    proof (rule wp_bndI [OF val], goal_cases)
      case (1 f)
      with w1 show ?case by (auto elim!: fault_ok_mono dest: moved_oomD)
    next
      case (2 y)
      obtain e x w2 where y: "y = (e, x, w2)" by (metis prod_cases3)
      with 2 have m: "moved w (1 + blocks_v x) w2"
        using moved_trans [OF w1] by (simp add: value_post_def)
      show ?case
      proof (cases e)
        case None
        with 2 y acc moved_add_live [OF m, of "- (1 + blocks_v x)"] show ?thesis
          by (simp add: list_post_def value_post_def free_live)
      next
        case (Some p)
        with 2 y m acc show ?thesis
          unfolding y Some Let_def prod.case option.case
          by (intro list_val_tail [OF assms(2)]) (auto simp: value_post_def good_name_def)
      qed
    qed
  next
    case 2
    then show ?case using acc by (simp add: al list_post_def error_codes)
  qed
qed

lemma tuple_step:
  assumes "list_res_ok n"
  shows "value_ok 0 mi_get_tuple (Suc n)"
  unfolding value_ok_def
proof (intro allI)
  fix str and w :: world
  note lr = assms [unfolded list_res_ok_def, rule_format, of "[]" False w "tl str" "CHR ''}''"]
  show "wp (mi_get_tuple (Suc n) str w) (value_post str w)
      (fault_ok w (str = [] \<and> Suc n = 0 \<or> Suc n < 3 * length str + 0))"
    using lr
    by (cases str)
      (auto simp: value_post_def list_post_def moved_error error_codes neq_Nil_conv
        elim!: wp_mono fault_ok_mono split: option.splits)
qed

lemma list_step:
  assumes "list_res_ok n" and "list_val_ok n"
  shows "value_ok 0 mi_get_list (Suc n)"
  unfolding value_ok_def
proof (intro allI)
  fix str and w :: world
  note lr = assms(1) [unfolded list_res_ok_def, rule_format, of "[]" False w "tl str" "CHR '']''"]
  note lv = assms(2) [unfolded list_val_ok_def, rule_format, of "[]" "tl str" w]
  show "wp (mi_get_list (Suc n) str w) (value_post str w)
      (fault_ok w (str = [] \<and> Suc n = 0 \<or> Suc n < 3 * length str + 0))"
    using lr lv
    by (cases str)
      (auto simp: value_post_def list_post_def moved_error error_codes neq_Nil_conv
        elim!: wp_mono fault_ok_mono split: option.splits)
qed

lemma value_step:
  assumes "value_ok 0 mi_get_tuple n" and "value_ok 0 mi_get_list n"
  shows "value_ok 1 mi_get_value (Suc n)"
  unfolding value_ok_def
proof (intro allI)
  fix str and w :: world
  note sub = assms [unfolded value_ok_def, rule_format, of str w]
  show "wp (mi_get_value (Suc n) str w) (value_post str w)
      (fault_ok w (str = [] \<and> Suc n = 0 \<or> Suc n < 3 * length str + 1))"
    using sub mi_get_cstring_r_contract [of str w "n < 3 * length str"]
    by (cases "str = []") (simp_all add: value_post_def moved_error error_codes)
qed

lemma result_step:
  assumes "value_ok 1 mi_get_value n"
  shows "result_ok (Suc n)"
  unfolding result_ok_def mi_get_result.simps
proof (intro allI, rule wp_bndI [OF mi_get_var_name_contract], goal_cases)
  case (2 str w x)
  obtain var w1 where x: "x = (var, w1)" by fastforce
  show ?case
  proof (cases var)
    case None
    with 2 x show ?thesis by (simp add: name_post_def result_post_def)
  next
    case (Some p)
    obtain v s where p: "p = (v, s)" by fastforce
    obtain r w2 where al: "mi_alloc_results w1 = (r, w2)" by fastforce
    from 2 x Some p have v: "moved w 1 w1" "length s < length str" "list_all mi_is_var_name_char v"
      by (simp_all add: name_post_def)
    show ?thesis
      using mi_alloc_results_moved [OF al]
    proof (elim disjE conjE, goal_cases)
      case 1
      then have w2: "moved w 2 w2" using moved_trans [OF v(1)] by fastforce
      show ?case
        unfolding x Some p al 1 prod.case option.case
      proof (rule wp_bndI [OF assms [unfolded value_ok_def, rule_format]], goal_cases)
        case (1 f)
        with w2 v show ?case by (auto elim!: fault_ok_mono dest: moved_oomD)
      next
        case (2 y)
        obtain e x w3 where y: "y = (e, x, w3)" by (metis prod_cases3)
        with 2 have m: "moved w (2 + blocks_v x) w3"
          using moved_trans [OF w2] by (simp add: value_post_def)
        from 2 y v m moved_add_live [OF m, of "- (2 + blocks_v x)"] show ?case
          by (cases e) (simp_all add: result_post_def value_post_def free_live good_name_def)
      qed
    next
      case 2
      then show ?case
        using moved_add_live [OF moved_trans [OF v(1)], of 0 w2 "- 1"]
        by (simp add: x Some p al result_post_def free_live error_codes)
    qed
  qed
qed simp

lemma parser_contract:
  "list_res_ok n \<and> list_val_ok n \<and> value_ok 0 mi_get_tuple n \<and> value_ok 0 mi_get_list n \<and>
   value_ok 1 mi_get_value n \<and> result_ok n"
proof (induction n)
  case 0
  show ?case
    by (auto simp: parser_ok_defs fault_ok_def)
next
  case (Suc n)
  then show ?case
    by (blast intro: list_res_step list_val_step tuple_step list_step value_step result_step)
qed


lemmas result_contract = parser_contract [THEN conjunct2, THEN conjunct2, THEN conjunct2,
  THEN conjunct2, THEN conjunct2, unfolded result_ok_def, rule_format]

subsection \<open>Records\<close>

text \<open>A record of one of the three kinds, with the class numbers of its kind and a complete tree.\<close>

definition record_ok :: "mi_output \<Rightarrow> bool" where
  "record_ok r \<longleftrightarrow>
     (o_type r = MI_T_RESULT_RECORD \<and> o_stype r = 0 \<and> o_sstype r = 0 \<and>
        o_tclass r \<in> {MI_CL_DONE, MI_CL_RUNNING, MI_CL_CONNECTED, MI_CL_ERROR, MI_CL_EXIT} \<and>
        (\<forall>x\<in>set (o_c r). r_var x \<noteq> None \<and> full_r x)) \<or>
     (o_type r = MI_T_OUT_OF_BAND \<and> o_stype r = MI_ST_ASYNC \<and>
        o_sstype r \<in> {MI_SST_EXEC, MI_SST_STATUS, MI_SST_NOTIFY} \<and>
        o_tclass r \<in> {MI_CL_STOPPED, MI_CL_DOWNLOAD} \<and>
        (\<forall>x\<in>set (o_c r). r_var x \<noteq> None \<and> full_r x)) \<or>
     (o_type r = MI_T_OUT_OF_BAND \<and> o_stype r = MI_ST_STREAM \<and>
        o_sstype r \<in> {MI_SST_CONSOLE, MI_SST_TARGET, MI_SST_LOG} \<and> o_tclass r = 0 \<and>
        (\<exists>s. NUL \<notin> set s \<and> o_c r = [MiRes None (VConst (Some s))]))"

definition out_post :: "mi_output \<Rightarrow> world \<Rightarrow> mi_output option \<times> world \<Rightarrow> bool" where
  "out_post r w = (\<lambda>(ro, w1). case ro of
       None \<Rightarrow> moved w (- blocks_o r) w1 \<and> mi_error w1 \<noteq> MI_OK
     | Some r1 \<Rightarrow> moved w (blocks_o r1 - blocks_o r) w1 \<and> record_ok r1)"

definition with_results :: "mi_output \<Rightarrow> bool" where
  "with_results r \<longleftrightarrow> (\<forall>c. (\<forall>x\<in>set c. r_var x \<noteq> None \<and> full_r x) \<longrightarrow> record_ok (r\<lparr>o_c := c\<rparr>))"

lemma with_results_o_c [simp]: "with_results (r\<lparr>o_c := c\<rparr>) = with_results r"
  by (simp add: with_results_def)

lemma with_resultsD:
  "with_results r \<Longrightarrow> \<forall>x\<in>set (o_c r). r_var x \<noteq> None \<and> full_r x \<Longrightarrow> record_ok r"
  unfolding with_results_def by (drule spec [of _ "o_c r"]) simp

lemma mi_get_results_alone_contract:
  assumes "with_results r" and "\<forall>x\<in>set (o_c r). r_var x \<noteq> None \<and> full_r x"
    and "\<not> last_r \<longrightarrow> o_c r = []"
  shows "wp (mi_get_results_alone n r last_r str w) (out_post r w)
    (fault_ok w (n < 3 * length str + 1))"
  using assms
proof (induction n arbitrary: r last_r str w)
  case 0
  then show ?case by (simp add: fault_ok_def)
next
  case (Suc n)
  show ?case
  proof (cases "str = []")
    case False
    have tail: "wp (case x of (rs, w1) \<Rightarrow>
       (case rs of
         None \<Rightarrow> Inr (None, mi_free_output [r] w1)
       | Some (node, q) \<Rightarrow>
           mi_get_results_alone n (r\<lparr>o_c := (if last_r then o_c r @ [node] else [node])\<rparr>) True q w1))
       (out_post r w) (fault_ok w (Suc n < 3 * length str + 1))"
      if post: "result_post (tl str) w x" for x
    proof -
      obtain rs w1 where x: "x = (rs, w1)" by fastforce
      show ?thesis
      proof (cases rs)
        case None
        with post x show ?thesis
          using moved_add_live [of w 0 w1 "- blocks_o r"]
          by (simp add: result_post_def out_post_def free_live)
      next
        case (Some p)
        obtain node q where p: "p = (node, q)" by fastforce
        let ?r = "r\<lparr>o_c := o_c r @ [node]\<rparr>"
        have eq: "r\<lparr>o_c := (if last_r then o_c r @ [node] else [node])\<rparr> = ?r"
          using Suc.prems(3) by simp
        have m: "moved w (blocks_r node) w1" "r_var node \<noteq> None" "full_r node"
          "length q < length (tl str)"
          using post by (simp_all add: x Some p result_post_def)
        have "wp (mi_get_results_alone n ?r True q w1) (out_post ?r w1)
            (fault_ok w1 (n < 3 * length q + 1))"
          using Suc.prems m by (intro Suc.IH) auto
        moreover have "out_post r w y" if y: "out_post ?r w1 y" for y
          using y by (cases y; cases "fst y")
            (auto simp: out_post_def blocks_o_def algebra_simps dest!: moved_trans [OF m(1)])
        moreover have "fault_ok w1 (n < 3 * length q + 1) f
            \<Longrightarrow> fault_ok w (Suc n < 3 * length str + 1) f" for f
          using m by (auto elim!: fault_ok_mono dest: moved_oomD)
        ultimately show ?thesis
          unfolding x Some p prod.case option.case eq by (rule wp_mono)
      qed
    qed
    have res: "wp (mi_get_result n (tl str) w) (result_post (tl str) w)
        (fault_ok w (n < 3 * length (tl str) + 1))"
      by (rule result_contract)
    have "wp (bnd (mi_get_result n (tl str) w) (\<lambda>(rs, w1).
       case rs of
         None \<Rightarrow> Inr (None, mi_free_output [r] w1)
       | Some (node, q) \<Rightarrow>
           mi_get_results_alone n (r\<lparr>o_c := (if last_r then o_c r @ [node] else [node])\<rparr>) True q w1))
       (out_post r w) (fault_ok w (Suc n < 3 * length str + 1))"
      using False by (intro wp_bndI [OF res _ tail]) (auto elim!: fault_ok_mono simp: neq_Nil_conv)
    moreover have "out_post r w (Some r, w)"
      using with_resultsD [OF Suc.prems(1,2)] by (simp add: out_post_def)
    moreover have "out_post r w (None, mi_free_output [r] (w\<lparr>mi_error := MI_PARSER\<rparr>))"
      by (auto simp: out_post_def free_live moved_def error_codes)
    ultimately show ?thesis using False by simp
  qed simp
qed

lemma strncmp_eq_wp: "wp (strncmp_eq s p) (\<lambda>b. b \<longrightarrow> p = s @ drop (length s) p) (\<lambda>f. f = Over_read)"
  by (induction s p rule: strncmp_eq.induct) (auto elim!: wp_mono)

abbreviation fresh_output :: mi_output where
  "fresh_output \<equiv> \<lparr>o_type = 0, o_stype = 0, o_sstype = 0, o_tclass = 0, o_c = []\<rparr>"

definition parse_post :: "world \<Rightarrow> mi_output option \<times> world \<Rightarrow> bool" where
  "parse_post w = (\<lambda>(ro, w1). case ro of
       None \<Rightarrow> moved w (- 1) w1 \<and> mi_error w1 \<noteq> MI_OK
     | Some r \<Rightarrow> moved w (blocks_o r - 1) w1 \<and> record_ok r)"

definition record_post :: "world \<Rightarrow> mi_output option \<times> world \<Rightarrow> bool" where
  "record_post w = (\<lambda>(ro, w1). case ro of
       None \<Rightarrow> live w \<le> live w1 + 1 \<and> mi_error w1 \<noteq> MI_OK
     | Some r \<Rightarrow> moved w (blocks_o r - 1) w1 \<and> record_ok r)"

lemma record_postI: "parse_post w x \<Longrightarrow> record_post w x"
  by (auto simp: parse_post_def record_post_def moved_def split: option.splits)

lemma alone_parse_post:
  assumes "with_results r" and "o_c r = []" and "length s \<le> length str"
  shows "wp (mi_get_results_alone n r False s w) (parse_post w) (fault_ok w (n < 3 * length str + 1))"
proof -
  have "wp (mi_get_results_alone n r False s w) (out_post r w) (fault_ok w (n < 3 * length s + 1))"
    using assms by (intro mi_get_results_alone_contract) auto
  then show ?thesis
    using assms
    by (auto simp: out_post_def parse_post_def blocks_o_def split: option.splits
      elim!: wp_mono fault_ok_mono)
qed

lemma alone_record_post:
  assumes "with_results r" and "o_c r = []" and "length s \<le> length str"
  shows "wp (mi_get_results_alone n r False s w) (record_post w) (fault_ok w (n < 3 * length str + 1))"
  using alone_parse_post [OF assms] by (rule wp_mono) (auto intro: record_postI)

lemma wp_strncmp_eq:
  assumes "wp m1 Q F" and "wp m2 Q F" and "F Over_read"
  shows "wp (bnd (strncmp_eq s p) (\<lambda>b. if b then m1 else m2)) Q F"
  using assms by (auto intro: wp_mono [OF strncmp_eq_wp])

lemma mi_parse_result_record_contract:
  "wp (mi_parse_result_record n fresh_output str w) (record_post w)
     (fault_ok w (n < 3 * length str + 1))"
  unfolding mi_parse_result_record_def Let_def
  by (intro wp_strncmp_eq alone_record_post fault_ok_Over_read)
    (auto simp: with_results_def record_ok_def record_codes record_post_def error_codes)

lemma mi_parse_asyn_contract:
  "sst \<in> {MI_SST_EXEC, MI_SST_STATUS, MI_SST_NOTIFY} \<Longrightarrow>
   wp (mi_parse_asyn n (fresh_output\<lparr>o_sstype := sst\<rparr>) str w) (parse_post w)
     (fault_ok w (n < 3 * length str + 1))"
  unfolding mi_parse_asyn_def Let_def
  by (intro wp_strncmp_eq alone_parse_post fault_ok_Over_read)
    (auto simp: with_results_def record_ok_def record_codes parse_post_def
      moved_def error_codes free_live blocks_o_def)

lemma mi_get_cstring_r_const:
  "wp (mi_get_cstring_r str w) (\<lambda>(e, x, w1). \<exists>s. x = VConst s) (\<lambda>_. True)"
  by (auto simp: mi_get_cstring_r_def wp_def bnd_def split: sum.splits option.splits prod.splits)

lemma mi_console_contract:
  assumes "sst \<in> {MI_SST_CONSOLE, MI_SST_TARGET, MI_SST_LOG}"
  shows "wp (mi_console (fresh_output\<lparr>o_sstype := sst\<rparr>) str w) (parse_post w) (fault_ok w b)"
proof -
  obtain r w1 where al: "mi_alloc_results w = (r, w1)" by fastforce
  show ?thesis
    using mi_alloc_results_moved [OF al]
  proof (elim disjE conjE, goal_cases)
    case 1
    have w1: "moved w 1 w1" by fact
    note cs = wp_conj [OF mi_get_cstring_r_contract [of str w1 b] mi_get_cstring_r_const]
    show ?case
      unfolding mi_console_def al 1 Let_def prod.case option.case
    proof (rule wp_bndI [OF cs], goal_cases)
      case (1 f)
      with w1 show ?case by (auto elim!: fault_ok_mono dest: moved_oomD)
    next
      case (2 y)
      obtain e s w2 where y: "y = (e, VConst s, w2)" using 2 by (cases y) auto
      with 2 have m: "moved w (1 + own s) w2"
        using moved_trans [OF w1] by (auto simp: value_post_def)
      show ?case
      proof (cases e)
        case None
        with 2 y show ?thesis
          using moved_add_live [OF m, of "- (2 + own s)"]
          by (auto simp: value_post_def parse_post_def free_live blocks_o_def)
      next
        case (Some p)
        with 2 y m assms show ?thesis
          by (auto simp: value_post_def parse_post_def blocks_o_def record_ok_def record_codes
              split: option.splits)
      qed
    qed
  next
    case 2
    then show ?case
      using moved_add_live [of w 0 w1 "- 1"]
      by (simp add: mi_console_def al parse_post_def free_live blocks_o_def error_codes)
  qed
qed

lemma mi_alloc_output_moved:
  assumes "mi_alloc_output w = (r, w1)"
  shows "(r = Some fresh_output \<and> moved w 1 w1) \<or>
         (r = None \<and> moved w 0 w1 \<and> mi_error w1 = MI_OUT_OF_MEMORY)"
  using assms
  by (auto simp: moved_def mi_alloc_output_def mi_calloc1_def mi_calloc_def c_calloc_def
      c_malloc_def error_codes split: list.splits if_splits)

text \<open>What \<open>mi_parse_gdb_output\<close> promises its callers.\<close>

definition output_post :: "world \<Rightarrow> mi_output option \<times> world \<Rightarrow> bool" where
  "output_post w = (\<lambda>(ro, w1). case ro of
       None \<Rightarrow> live w \<le> live w1 \<and> mi_error w1 \<noteq> MI_OK
     | Some r \<Rightarrow> moved w (blocks_o r) w1 \<and> record_ok r)"

lemma record_output_post:
  assumes "moved w 1 w1" and "record_post w1 x"
  shows "output_post w x"
  using assms moved_trans [OF assms(1)]
  by (fastforce simp: output_post_def record_post_def moved_def split: option.splits)

lemma mi_parse_gdb_output_contract:
  "wp (mi_parse_gdb_output str w) (output_post w) (fault_ok w False)"
proof (cases str)
  case (Cons c s)
  obtain r w1 where al: "mi_alloc_output w = (r, w1)" by fastforce
  show ?thesis
    using mi_alloc_output_moved [OF al]
  proof (elim disjE conjE, goal_cases)
    case 1
    have w1: "moved w 1 w1" by fact
    have fuel: "fault_ok w1 (parse_fuel s < 3 * length s + 1) f \<Longrightarrow> fault_ok w False f" for f
      using w1 by (auto elim!: fault_ok_mono dest: moved_oomD simp: parse_fuel_def)
    have post: "record_post w1 x \<Longrightarrow> output_post w x" for x
      using w1 by (rule record_output_post)
    have parsed: "wp m (output_post w) (fault_ok w False)"
      if "wp m (record_post w1) (fault_ok w1 (parse_fuel s < 3 * length s + 1))" for m
      using that by (rule wp_mono) (auto intro: post fuel)
    have parsed': "wp m (output_post w) (fault_ok w False)"
      if "wp m (parse_post w1) (fault_ok w1 (parse_fuel s < 3 * length s + 1))" for m
      by (rule parsed, rule wp_mono [OF that]) (auto intro: record_postI)
    have unknown: "output_post w (None, w1\<lparr>mi_error := MI_PARSER\<rparr>)"
      using w1 by (simp add: output_post_def moved_def error_codes)
    note recs = parsed [OF mi_parse_result_record_contract [of "parse_fuel s" s w1]]
      parsed' [OF mi_parse_asyn_contract [of _ "parse_fuel s" s w1]]
      parsed' [OF mi_console_contract [of _ s w1]]
    show ?case
      unfolding mi_parse_gdb_output_def Cons deref_simps bnd_simps al 1 Let_def prod.case
        option.case list.sel mi_parse_exec_asyn_def mi_parse_status_asyn_def
        mi_parse_notify_asyn_def mi_console_stream_def mi_target_stream_def mi_log_stream_def
      by (intro wp_ifI recs) (simp_all add: unknown)
  next
    case 2
    then show ?case
      by (auto simp: mi_parse_gdb_output_def Cons al output_post_def moved_def error_codes)
  qed
qed (simp add: mi_parse_gdb_output_def)

section \<open>What a caller of the parser can rely on\<close>

text \<open>
  C11: On any bytes the parser returns (the fuel of the model is always enough) or reads past the
  end of the buffer; it never writes outside its blocks and never uses the wrong union member.
  The only null pointer it uses is the unchecked block of a name, when memory runs out.
\<close>

theorem parse_faults:
  "case mi_parse_gdb_output str w of
     Inl f \<Rightarrow> f = Over_read \<or> (f = Null_deref \<and> length (oom w) > 0)
   | Inr _ \<Rightarrow> True"
  using mi_parse_gdb_output_contract [of str w]
  by (auto simp: wp_def fault_ok_def split: sum.splits)

text \<open>
  C10: A record the parser returns has the shape the rest of the library relies on: its kind, its
  class and its tree fit together, and every constant in it has a string. It owns exactly the
  blocks taken from the heap when no error is recorded, and never more than these.
\<close>

theorem parse_success:
  assumes "mi_parse_gdb_output str w = Inr (Some r, w1)"
  shows "record_ok r \<and> live w + blocks_o r \<le> live w1 \<and>
    (if mi_error w1 = MI_OK then live w1 = live w + blocks_o r else True)"
  using mi_parse_gdb_output_contract [of str w] assms
  by (simp add: output_post_def moved_def)

theorem parse_success_witness:
  "let r = \<lparr>o_type = 0, o_stype = 1, o_sstype = 3, o_tclass = 0,
             o_c = [MiRes None (VConst (Some ''hi''))]\<rparr>
   in record_ok r \<and> blocks_o r = 3 \<and>
     mi_parse_gdb_output (cbuf ''~\"hi\"'') \<lparr>mi_error = 0, oom = [], live = 0\<rparr> =
       Inr (Some r, \<lparr>mi_error = 0, oom = [], live = 3\<rparr>)"
  using parse_success [of "cbuf ''~\"hi\"''" "\<lparr>mi_error = 0, oom = [], live = 0\<rparr>"
      "\<lparr>o_type = 0, o_stype = 1, o_sstype = 3, o_tclass = 0,
        o_c = [MiRes None (VConst (Some ''hi''))]\<rparr>" "\<lparr>mi_error = 0, oom = [], live = 3\<rparr>"]
  by (simp add: mi_parse_gdb_output_def cbuf_def mi_console_stream_def mi_console_def
      mi_get_cstring_r_def cstr_more_def end_of_str_def record_codes blocks_o_def)

text \<open>
  C18: When the parser returns NULL it has recorded an error number, and the heap holds at least
  the blocks it held before: nothing of the caller is released.
\<close>

theorem parse_failure:
  assumes "mi_parse_gdb_output str w = Inr (None, w1)"
  shows "mi_error w1 \<noteq> MI_OK \<and> live w \<le> live w1"
  using mi_parse_gdb_output_contract [of str w] assms
  by (simp add: output_post_def)

theorem parse_failure_witness:
  "(5::nat) \<noteq> MI_OK \<and> (0::int) \<le> 0 \<and>
   mi_parse_gdb_output (cbuf ''*stopped]'') \<lparr>mi_error = 0, oom = [], live = 0\<rparr> =
     Inr (None, \<lparr>mi_error = 5, oom = [], live = 0\<rparr>)"
  using parse_failure [of "cbuf ''*stopped]''" "\<lparr>mi_error = 0, oom = [], live = 0\<rparr>"
      "\<lparr>mi_error = 5, oom = [], live = 0\<rparr>"]
  by (simp add: mi_parse_gdb_output_def cbuf_def mi_parse_exec_asyn_def mi_parse_asyn_def
      record_codes parse_fuel_def error_codes free_live blocks_o_def eval_nat_numeral)

text \<open>
  A failed parse is not always clean: a line that starts with none of the seven record marks,
  or a result class gdb does not document, leaves the fresh record on the heap (one block), while
  an unknown asynchronous class releases it.
\<close>

theorem unknown_record_leak:
  assumes "oom w = []"
  shows "mi_parse_gdb_output (cbuf ''!done'') w =
      Inr (None, w\<lparr>mi_error := MI_PARSER, live := live w + 1\<rparr>) \<and>
    mi_parse_gdb_output (cbuf ''^undone'') w =
      Inr (None, w\<lparr>mi_error := MI_UNKNOWN_RESULT, live := live w + 1\<rparr>) \<and>
    mi_parse_gdb_output (cbuf ''*undone'') w = Inr (None, w\<lparr>mi_error := MI_UNKNOWN_ASYNC\<rparr>)"
  using assms
  by (simp add: mi_parse_gdb_output_def cbuf_def mi_parse_result_record_def
      mi_parse_exec_asyn_def mi_parse_asyn_def record_codes free_live blocks_o_def)

theorem unknown_record_leak_witness:
  "mi_parse_gdb_output (cbuf ''!done'') \<lparr>mi_error = 0, oom = [], live = 0\<rparr> =
     Inr (None, \<lparr>mi_error = 5, oom = [], live = 1\<rparr>)"
  using unknown_record_leak [of "\<lparr>mi_error = 0, oom = [], live = 0\<rparr>"]
  by (simp add: error_codes)

text \<open>
  A constant that ends in a backslash makes the parser read past the NUL: the test of
  \<open>mi_get_cstring_r\<close> for this case looks at the backslash, which is never NUL. A constant with no
  closing quote has the same effect in its caller, because the returned end is past the NUL.
\<close>

theorem unterminated_overread:
  assumes "oom w = []"
  shows "mi_parse_gdb_output (cbuf (''~\"ab'' @ [BSLASH])) w = Inl Over_read \<and>
    mi_parse_gdb_output (cbuf ''^done,a=\"x'') w = Inl Over_read"
  using assms
  by (simp add: mi_parse_gdb_output_def cbuf_def mi_console_stream_def mi_console_def
      mi_get_cstring_r_def cstr_more_def end_of_str_def mi_parse_result_record_def
      parse_fuel_def eval_nat_numeral mi_get_var_name_def mi_is_var_name_char_def isalnum_def
      is_digit_def)

theorem unterminated_overread_witness:
  "mi_parse_gdb_output (cbuf (''~\"ab'' @ [BSLASH])) \<lparr>mi_error = 0, oom = [], live = 0\<rparr> =
     Inl Over_read"
  using unterminated_overread [of "\<lparr>mi_error = 0, oom = [], live = 0\<rparr>"] by simp

end
