(* ===== verification/MI_Structs.thy ===== *)
theory MI_Structs
  imports MI_Parse_Safe
begin

text \<open>
  The structures of \<open>src/mi_gdb.h\<close> that the queries return, with their allocation and release
  functions of \<open>src/alloc.c\<close>. A \<open>next\<close> chain is a list, NULL the empty list. Numbers are the C
  values (\<open>int\<close> within 32 bits, addresses 64-bit words). \<open>blocks_\<close> counts the heap blocks a
  structure owns; each release function is shown to give back exactly these.
\<close>

section \<open>Structures\<close>

datatype mi_bkp_type = t_unknown | t_breakpoint | t_hw
datatype mi_bkp_disp = d_unknown | d_keep | d_del
datatype mi_bkp_mode = m_file_line | m_function | m_file_function | m_address
datatype mi_wp_mode = wm_unknown | wm_write | wm_read | wm_rw
datatype mi_gvar_fmt = fm_natural | fm_binary | fm_decimal | fm_hexadecimal | fm_octal | fm_raw
datatype mi_gvar_lang = lg_unknown | lg_c | lg_cpp | lg_java
datatype mi_stop_reason = sr_unknown | sr_bkpt_hit | sr_wp_trigger | sr_read_wp_trigger
  | sr_access_wp_trigger | sr_wp_scope | sr_function_finished | sr_location_reached
  | sr_end_stepping_range | sr_exited_signalled | sr_exited | sr_exited_normally
  | sr_signal_received

record mi_bkpt =
  bk_number :: int
  bk_type :: mi_bkp_type
  bk_disp :: mi_bkp_disp
  bk_enabled :: bool
  bk_addr :: "64 word"
  bk_func :: "string option"
  bk_file :: "string option"
  bk_line :: int
  bk_ignore :: int
  bk_times :: int
  bk_cond :: "string option"
  bk_file_abs :: "string option"
  bk_thread :: int
  bk_mode :: mi_bkp_mode

record mi_wp =
  wp_number :: int
  wp_exp :: "string option"
  wp_mode :: mi_wp_mode
  wp_enabled :: bool

record mi_frame =
  fr_level :: int
  fr_addr :: "64 word"
  fr_func :: "string option"
  fr_file :: "string option"
  fr_from :: "string option"
  fr_line :: int
  fr_args :: "mi_results list"
  fr_thread_id :: int

definition MI_ATTR_DONT_KNOW :: int where "MI_ATTR_DONT_KNOW = 0"
definition MI_ATTR_NONEDITABLE :: int where "MI_ATTR_NONEDITABLE = 1"
definition MI_ATTR_EDITABLE :: int where "MI_ATTR_EDITABLE = 2"

text \<open>
  \<open>struct mi_gvar_struct\<close>: the fields of one variable, then the tree. The \<open>parent\<close> pointer of a
  node is the node whose \<open>child\<close> list it is in.
\<close>

record gvar_fields =
  gv_name :: "string option"
  gv_numchild :: int
  gv_type :: "string option"
  gv_format :: mi_gvar_fmt
  gv_lang :: mi_gvar_lang
  gv_exp :: "string option"
  gv_attr :: int
  gv_value :: "string option"
  gv_opened :: bool
  gv_changed :: bool
  gv_vischild :: int
  gv_depth :: int
  gv_ispointer :: bool

datatype mi_gvar = GVar (gv_own: gvar_fields) (gv_child: "mi_gvar list")

record mi_gvar_chg =
  chg_name :: "string option"
  chg_in_scope :: bool
  chg_new_type :: "string option"
  chg_new_num_children :: int

record mi_asm_insn =
  in_addr :: "64 word"
  in_func :: "string option"
  in_offset :: int
  in_inst :: "string option"

record mi_asm_insns =
  is_file :: "string option"
  is_line :: int
  is_ins :: "mi_asm_insn list"

record mi_chg_reg =
  rg_reg :: int
  rg_val :: "string option"
  rg_name :: "string option"
  rg_updated :: bool

record mi_stop =
  st_reason :: mi_stop_reason
  st_have_thread_id :: bool
  st_have_bkptno :: bool
  st_have_exit_code :: bool
  st_have_wpno :: bool
  st_thread_id :: int
  st_frame :: "mi_frame list"
  st_bkptno :: int
  st_wp :: "mi_wp list"
  st_wp_old :: "string option"
  st_wp_val :: "string option"
  st_wpno :: int
  st_gdb_result_var :: "string option"
  st_return_value :: "string option"
  st_signal_name :: "string option"
  st_signal_meaning :: "string option"
  st_exit_code :: int

section \<open>Allocation\<close>

text \<open>
  \<open>calloc\<close> of one structure: all bits zero, so numbers are 0, pointers NULL and every
  enumeration its first constant. The sizes are those of the 64-bit ABI.
\<close>

definition mi_alloc :: "int \<Rightarrow> 'a \<Rightarrow> world \<Rightarrow> 'a option \<times> world" where
  "mi_alloc sz zero w = (let (ok, w1) = mi_calloc1 sz w in (if ok then Some zero else None, w1))"

definition zero_frame :: mi_frame where
  "zero_frame = \<lparr>fr_level = 0, fr_addr = 0, fr_func = None, fr_file = None, fr_from = None,
     fr_line = 0, fr_args = [], fr_thread_id = 0\<rparr>"

definition mi_alloc_frames :: "world \<Rightarrow> mi_frame option \<times> world" where
  "mi_alloc_frames = mi_alloc 72 zero_frame"

definition zero_gvar :: mi_gvar where
  "zero_gvar = GVar \<lparr>gv_name = None, gv_numchild = 0, gv_type = None, gv_format = fm_natural,
     gv_lang = lg_unknown, gv_exp = None, gv_attr = 0, gv_value = None, gv_opened = False,
     gv_changed = False, gv_vischild = 0, gv_depth = 0, gv_ispointer = False\<rparr> []"

definition mi_alloc_gvar :: "world \<Rightarrow> mi_gvar option \<times> world" where
  "mi_alloc_gvar = mi_alloc 96 zero_gvar"

definition zero_gvar_chg :: mi_gvar_chg where
  "zero_gvar_chg = \<lparr>chg_name = None, chg_in_scope = False, chg_new_type = None,
     chg_new_num_children = 0\<rparr>"

definition mi_alloc_gvar_chg :: "world \<Rightarrow> mi_gvar_chg option \<times> world" where
  "mi_alloc_gvar_chg = mi_alloc 40 zero_gvar_chg"

definition zero_bkpt :: mi_bkpt where
  "zero_bkpt = \<lparr>bk_number = 0, bk_type = t_unknown, bk_disp = d_unknown, bk_enabled = False,
     bk_addr = 0, bk_func = None, bk_file = None, bk_line = 0, bk_ignore = 0, bk_times = 0,
     bk_cond = None, bk_file_abs = None, bk_thread = 0, bk_mode = m_file_line\<rparr>"

definition mi_alloc_bkpt :: "world \<Rightarrow> mi_bkpt option \<times> world" where
  "mi_alloc_bkpt w = (case mi_alloc 88 zero_bkpt w of
       (None, w1) \<Rightarrow> (None, w1)
     | (Some b, w1) \<Rightarrow> (Some (b\<lparr>bk_thread := - 1, bk_ignore := - 1\<rparr>), w1))"

definition zero_wp :: mi_wp where
  "zero_wp = \<lparr>wp_number = 0, wp_exp = None, wp_mode = wm_unknown, wp_enabled = False\<rparr>"

definition mi_alloc_wp :: "world \<Rightarrow> mi_wp option \<times> world" where
  "mi_alloc_wp = mi_alloc 40 zero_wp"

definition zero_stop :: mi_stop where
  "zero_stop = \<lparr>st_reason = sr_unknown, st_have_thread_id = False, st_have_bkptno = False,
     st_have_exit_code = False, st_have_wpno = False, st_thread_id = 0, st_frame = [],
     st_bkptno = 0, st_wp = [], st_wp_old = None, st_wp_val = None, st_wpno = 0,
     st_gdb_result_var = None, st_return_value = None, st_signal_name = None,
     st_signal_meaning = None, st_exit_code = 0\<rparr>"

definition mi_alloc_stop :: "world \<Rightarrow> mi_stop option \<times> world" where
  "mi_alloc_stop = mi_alloc 104 zero_stop"

definition zero_asm_insns :: mi_asm_insns where
  "zero_asm_insns = \<lparr>is_file = None, is_line = 0, is_ins = []\<rparr>"

definition mi_alloc_asm_insns :: "world \<Rightarrow> mi_asm_insns option \<times> world" where
  "mi_alloc_asm_insns = mi_alloc 32 zero_asm_insns"

definition zero_asm_insn :: mi_asm_insn where
  "zero_asm_insn = \<lparr>in_addr = 0, in_func = None, in_offset = 0, in_inst = None\<rparr>"

definition mi_alloc_asm_insn :: "world \<Rightarrow> mi_asm_insn option \<times> world" where
  "mi_alloc_asm_insn = mi_alloc 40 zero_asm_insn"

definition zero_chg_reg :: mi_chg_reg where
  "zero_chg_reg = \<lparr>rg_reg = 0, rg_val = None, rg_name = None, rg_updated = False\<rparr>"

definition mi_alloc_chg_reg :: "world \<Rightarrow> mi_chg_reg option \<times> world" where
  "mi_alloc_chg_reg = mi_alloc 40 zero_chg_reg"

lemmas zero_structs = zero_frame_def zero_gvar_def zero_gvar_chg_def zero_bkpt_def zero_wp_def
  zero_stop_def zero_asm_insns_def zero_asm_insn_def zero_chg_reg_def

lemmas alloc_structs = mi_alloc_frames_def mi_alloc_gvar_def mi_alloc_gvar_chg_def
  mi_alloc_bkpt_def mi_alloc_wp_def mi_alloc_stop_def mi_alloc_asm_insns_def
  mi_alloc_asm_insn_def mi_alloc_chg_reg_def

lemma mi_alloc_ok [simp]:
  "oom w = [] \<Longrightarrow> sz < 2 ^ 64 \<Longrightarrow> mi_alloc sz z w = (Some z, add_live 1 w)"
  by (simp add: mi_alloc_def mi_calloc1_ok)

lemma mi_alloc_live:
  assumes "mi_alloc sz z w = (p, w1)"
  shows "live w1 = live w + own p \<and> (p = None \<or> p = Some z) \<and> (oom w = [] \<longrightarrow> oom w1 = [])"
  using assms
  by (auto simp: mi_alloc_def mi_calloc1_def mi_calloc_def c_calloc_def c_malloc_def
      split: list.splits prod.splits if_splits)

section \<open>Release\<close>

fun mi_free_frames :: "mi_frame list \<Rightarrow> world \<Rightarrow> world" where
  "mi_free_frames [] w = w"
| "mi_free_frames (f # fs) w =
     (let w1 = c_free (fr_func f) w;
          w2 = c_free (fr_file f) w1;
          w3 = c_free (fr_from f) w2;
          w4 = mi_free_results (fr_args f) w3
      in mi_free_frames fs (c_free (Some ()) w4))"

fun mi_free_bkpt :: "mi_bkpt list \<Rightarrow> world \<Rightarrow> world" where
  "mi_free_bkpt [] w = w"
| "mi_free_bkpt (b # bs) w =
     (let w1 = c_free (bk_func b) w;
          w2 = c_free (bk_file b) w1;
          w3 = c_free (bk_file_abs b) w2;
          w4 = c_free (bk_cond b) w3
      in mi_free_bkpt bs (c_free (Some ()) w4))"

function (sequential) mi_free_gvar :: "mi_gvar list \<Rightarrow> world \<Rightarrow> world" where
  "mi_free_gvar [] w = w"
| "mi_free_gvar (GVar v ch # vs) w =
     (let w1 = c_free (gv_name v) w;
          w2 = c_free (gv_type v) w1;
          w3 = c_free (gv_exp v) w2;
          w4 = c_free (gv_value v) w3;
          w5 = (if gv_numchild v \<noteq> 0 \<and> ch \<noteq> [] then mi_free_gvar ch w4 else w4)
      in mi_free_gvar vs (c_free (Some ()) w5))"
  by pat_completeness auto
termination
  by (relation "measure (\<lambda>(vs, w). size_list size vs)") auto

fun mi_free_gvar_chg :: "mi_gvar_chg list \<Rightarrow> world \<Rightarrow> world" where
  "mi_free_gvar_chg [] w = w"
| "mi_free_gvar_chg (c # cs) w =
     mi_free_gvar_chg cs (c_free (Some ()) (c_free (chg_new_type c) (c_free (chg_name c) w)))"

fun mi_free_wp :: "mi_wp list \<Rightarrow> world \<Rightarrow> world" where
  "mi_free_wp [] w = w"
| "mi_free_wp (p # ps) w = mi_free_wp ps (c_free (Some ()) (c_free (wp_exp p) w))"

definition mi_free_stop :: "mi_stop option \<Rightarrow> world \<Rightarrow> world" where
  "mi_free_stop p w = (case p of
       None \<Rightarrow> w
     | Some s \<Rightarrow>
         let w1 = mi_free_frames (st_frame s) w;
             w2 = mi_free_wp (st_wp s) w1;
             w3 = c_free (st_wp_old s) w2;
             w4 = c_free (st_wp_val s) w3;
             w5 = c_free (st_gdb_result_var s) w4;
             w6 = c_free (st_return_value s) w5;
             w7 = c_free (st_signal_name s) w6;
             w8 = c_free (st_signal_meaning s) w7
         in c_free (Some ()) w8)"

fun mi_free_asm_insn :: "mi_asm_insn list \<Rightarrow> world \<Rightarrow> world" where
  "mi_free_asm_insn [] w = w"
| "mi_free_asm_insn (i # is) w =
     mi_free_asm_insn is (c_free (Some ()) (c_free (in_inst i) (c_free (in_func i) w)))"

fun mi_free_asm_insns :: "mi_asm_insns list \<Rightarrow> world \<Rightarrow> world" where
  "mi_free_asm_insns [] w = w"
| "mi_free_asm_insns (i # is) w =
     mi_free_asm_insns is (c_free (Some ()) (mi_free_asm_insn (is_ins i) (c_free (is_file i) w)))"

fun mi_free_chg_reg :: "mi_chg_reg list \<Rightarrow> world \<Rightarrow> world" where
  "mi_free_chg_reg [] w = w"
| "mi_free_chg_reg (r # rs) w =
     mi_free_chg_reg rs (c_free (Some ()) (c_free (rg_name r) (c_free (rg_val r) w)))"

section \<open>Blocks owned, and what release gives back\<close>

definition blocks_frame :: "mi_frame \<Rightarrow> int" where
  "blocks_frame f = 1 + own (fr_func f) + own (fr_file f) + own (fr_from f) + blocks_l (fr_args f)"

definition blocks_bkpt :: "mi_bkpt \<Rightarrow> int" where
  "blocks_bkpt b = 1 + own (bk_func b) + own (bk_file b) + own (bk_file_abs b) + own (bk_cond b)"

definition blocks_gvf :: "gvar_fields \<Rightarrow> int" where
  "blocks_gvf v = 1 + own (gv_name v) + own (gv_type v) + own (gv_exp v) + own (gv_value v)"

fun blocks_gvar :: "mi_gvar \<Rightarrow> int" where
  "blocks_gvar (GVar v ch) = blocks_gvf v + (\<Sum>c\<leftarrow>ch. blocks_gvar c)"

definition blocks_chg :: "mi_gvar_chg \<Rightarrow> int" where
  "blocks_chg c = 1 + own (chg_name c) + own (chg_new_type c)"

definition blocks_wp :: "mi_wp \<Rightarrow> int" where
  "blocks_wp p = 1 + own (wp_exp p)"

definition blocks_insn :: "mi_asm_insn \<Rightarrow> int" where
  "blocks_insn i = 1 + own (in_func i) + own (in_inst i)"

definition blocks_insns :: "mi_asm_insns \<Rightarrow> int" where
  "blocks_insns i = 1 + own (is_file i) + (\<Sum>j\<leftarrow>is_ins i. blocks_insn j)"

definition blocks_reg :: "mi_chg_reg \<Rightarrow> int" where
  "blocks_reg r = 1 + own (rg_val r) + own (rg_name r)"

definition blocks_stop :: "mi_stop \<Rightarrow> int" where
  "blocks_stop s = 1 + (\<Sum>f\<leftarrow>st_frame s. blocks_frame f) + (\<Sum>p\<leftarrow>st_wp s. blocks_wp p)
     + own (st_wp_old s) + own (st_wp_val s) + own (st_gdb_result_var s) + own (st_return_value s)
     + own (st_signal_name s) + own (st_signal_meaning s)"

lemmas blocks_structs = blocks_frame_def blocks_bkpt_def blocks_gvf_def blocks_chg_def
  blocks_wp_def blocks_insn_def blocks_insns_def blocks_reg_def blocks_stop_def

lemma mi_free_frames_live: "mi_free_frames fs w = add_live (- (\<Sum>f\<leftarrow>fs. blocks_frame f)) w"
  by (induction fs arbitrary: w) (simp_all add: free_live blocks_frame_def Let_def algebra_simps)

lemma mi_free_bkpt_live: "mi_free_bkpt bs w = add_live (- (\<Sum>b\<leftarrow>bs. blocks_bkpt b)) w"
  by (induction bs arbitrary: w) (simp_all add: free_live blocks_bkpt_def Let_def algebra_simps)

lemma mi_free_gvar_chg_live: "mi_free_gvar_chg cs w = add_live (- (\<Sum>c\<leftarrow>cs. blocks_chg c)) w"
  by (induction cs arbitrary: w) (simp_all add: free_live blocks_chg_def algebra_simps)

lemma mi_free_wp_live: "mi_free_wp ps w = add_live (- (\<Sum>p\<leftarrow>ps. blocks_wp p)) w"
  by (induction ps arbitrary: w) (simp_all add: free_live blocks_wp_def algebra_simps)

lemma mi_free_asm_insn_live: "mi_free_asm_insn is w = add_live (- (\<Sum>i\<leftarrow>is. blocks_insn i)) w"
  by (induction "is" arbitrary: w) (simp_all add: free_live blocks_insn_def algebra_simps)

lemma mi_free_asm_insns_live: "mi_free_asm_insns is w = add_live (- (\<Sum>i\<leftarrow>is. blocks_insns i)) w"
  by (induction "is" arbitrary: w)
    (simp_all add: free_live mi_free_asm_insn_live blocks_insns_def algebra_simps)

lemma mi_free_chg_reg_live: "mi_free_chg_reg rs w = add_live (- (\<Sum>r\<leftarrow>rs. blocks_reg r)) w"
  by (induction rs arbitrary: w) (simp_all add: free_live blocks_reg_def algebra_simps)

lemma mi_free_stop_live:
  "mi_free_stop p w = add_live (- (case p of None \<Rightarrow> 0 | Some s \<Rightarrow> blocks_stop s)) w"
  by (simp add: mi_free_stop_def free_live mi_free_frames_live mi_free_wp_live blocks_stop_def
      Let_def algebra_simps split: option.splits)

text \<open>
  A variable whose \<open>numchild\<close> is 0 keeps its children: \<open>mi_free_gvar\<close> looks at \<open>numchild\<close> before
  it looks at \<open>child\<close>. In a tidy tree only a variable with a child count has children.
\<close>

fun tidy_gvar :: "mi_gvar \<Rightarrow> bool" where
  "tidy_gvar (GVar v ch) \<longleftrightarrow> (gv_numchild v = 0 \<longrightarrow> ch = []) \<and> (\<forall>c\<in>set ch. tidy_gvar c)"

lemma mi_free_gvar_live:
  "\<forall>v\<in>set vs. tidy_gvar v \<Longrightarrow> mi_free_gvar vs w = add_live (- (\<Sum>v\<leftarrow>vs. blocks_gvar v)) w"
  by (induction vs w rule: mi_free_gvar.induct)
    (auto simp: free_live blocks_gvf_def Let_def algebra_simps)

lemmas release_live = mi_free_frames_live mi_free_bkpt_live mi_free_gvar_chg_live mi_free_wp_live
  mi_free_asm_insn_live mi_free_asm_insns_live mi_free_chg_reg_live mi_free_stop_live

end
