(* ===== verification/MI_Scan.thy ===== *)
theory MI_Scan
  imports MI_Structs
begin

text \<open>
  The loop all structure readers of \<open>src/parse.c\<close> share: walk the nodes of a result list, look at
  the name of each, and fill a field. A string is not copied but moved: the field takes the
  pointer and the node gets NULL, so that releasing the tree afterwards leaves the string alone.
  The contract of the loop body is the locale \<open>field_scanner\<close>; the lemmas on the loop are proved in
  it once, and each reader interprets it.
\<close>

section \<open>Access to a node\<close>

text \<open>\<open>strcmp(c->var, ...)\<close> reads the name; a node of a list of values has none.\<close>

definition c_var :: "mi_results \<Rightarrow> string run" where
  "c_var c = (case r_var c of None \<Rightarrow> Inl Null_deref | Some v \<Rightarrow> Inr v)"

text \<open>\<open>c->v.cstr\<close> as a pointer, the string it points at, and \<open>c->v.rs\<close>.\<close>

definition c_cstr :: "mi_results \<Rightarrow> string option run" where
  "c_cstr c = (case r_val c of VConst s \<Rightarrow> Inr s | _ \<Rightarrow> Inl Bad_union)"

definition c_str :: "mi_results \<Rightarrow> string run" where
  "c_str c = bnd (c_cstr c) (\<lambda>p. case p of None \<Rightarrow> Inl Null_deref | Some s \<Rightarrow> Inr s)"

definition c_rs :: "mi_results \<Rightarrow> mi_results list run" where
  "c_rs c = (case r_val c of VConst s \<Rightarrow> Inl Bad_union | VTuple l \<Rightarrow> Inr l | VList l \<Rightarrow> Inr l)"

text \<open>\<open>c->v.cstr = NULL\<close>, and a change of the list at \<open>c->v.rs\<close>.\<close>

definition take_cstr :: "mi_results \<Rightarrow> mi_results" where
  "take_cstr c = MiRes (r_var c) (VConst None)"

definition set_rs :: "mi_results \<Rightarrow> mi_results list \<Rightarrow> mi_results" where
  "set_rs c l = MiRes (r_var c) (case r_val c of VList _ \<Rightarrow> VList l | _ \<Rightarrow> VTuple l)"

lemma r_var_moved [simp]: "r_var (take_cstr c) = r_var c" "r_var (set_rs c l) = r_var c"
  by (simp_all add: take_cstr_def set_rs_def)

lemma blocks_take_cstr: "c_cstr c = Inr s \<Longrightarrow> blocks_r (take_cstr c) = blocks_r c - own s"
  by (cases c; cases "r_val c") (simp_all add: c_cstr_def take_cstr_def)

lemma blocks_set_rs: "c_rs c = Inr l \<Longrightarrow> blocks_r (set_rs c l') = blocks_r c - blocks_l l + blocks_l l'"
  by (cases c; cases "r_val c") (simp_all add: c_rs_def set_rs_def)

lemma c_var_Inr [simp]: "c_var c = Inr v \<longleftrightarrow> r_var c = Some v"
  by (simp add: c_var_def split: option.splits)

lemma c_str_Inr: "c_str c = Inr s \<longleftrightarrow> c_cstr c = Inr (Some s)"
  by (auto simp: c_str_def bnd_Inr_iff split: option.splits)

lemma node_MiRes [simp]:
  "c_var (MiRes (Some v) x) = Inr v"
  "c_cstr (MiRes u (VConst s)) = Inr s"
  "c_str (MiRes u (VConst (Some t))) = Inr t"
  "c_rs (MiRes u (VTuple l)) = Inr l"
  "c_rs (MiRes u (VList l)) = Inr l"
  "take_cstr (MiRes u x) = MiRes u (VConst None)"
  "set_rs (MiRes u (VTuple l)) m = MiRes u (VTuple m)"
  "set_rs (MiRes u (VList l)) m = MiRes u (VList m)"
  by (simp_all add: c_var_def c_cstr_def c_str_def c_rs_def take_cstr_def set_rs_def)

lemma val_type_cases:
  "val_type x = t_const \<longleftrightarrow> (\<exists>s. x = VConst s)"
  "val_type x = t_tuple \<longleftrightarrow> (\<exists>l. x = VTuple l)"
  "val_type x = t_list \<longleftrightarrow> (\<exists>l. x = VList l)"
  by (cases x; simp)+

section \<open>The loop\<close>

fun scan :: "('s \<Rightarrow> mi_results \<Rightarrow> world \<Rightarrow> ('s \<times> mi_results \<times> world) run)
    \<Rightarrow> 's \<Rightarrow> mi_results list \<Rightarrow> world \<Rightarrow> ('s \<times> mi_results list \<times> world) run" where
  "scan step s [] w = Inr (s, [], w)"
| "scan step s (c # cs) w =
     bnd (step s c w) (\<lambda>(s1, c1, w1).
       bnd (scan step s1 cs w1) (\<lambda>(s2, cs2, w2). Inr (s2, c1 # cs2, w2)))"

lemma scan_Cons_Inr:
  assumes "scan step s (c # cs) w = Inr (s2, l, w2)"
  obtains s1 c1 w1 cs2 where "step s c w = Inr (s1, c1, w1)" "scan step s1 cs w1 = Inr (s2, cs2, w2)"
    "l = c1 # cs2"
  using assms by (auto simp: bnd_Inr_iff)

text \<open>
  A reader of fields. \<open>held\<close> counts the blocks of the structure and \<open>slots\<close> names the fields that
  hold a pointer. A turn never makes the structure and the node own more blocks than the heap
  gained (no block has two owners, so nothing is freed twice); when the field it fills was empty
  it loses none either. A node that \<open>fits\<close> the reader gives no fault.
\<close>

definition turn_law :: "('s \<Rightarrow> int) \<Rightarrow> ('s \<Rightarrow> string option set) \<Rightarrow> (mi_results \<Rightarrow> bool) \<Rightarrow> 's
    \<Rightarrow> mi_results \<Rightarrow> world \<Rightarrow> 's \<times> mi_results \<times> world \<Rightarrow> bool" where
  "turn_law held slots fits s r w = (\<lambda>(s', r', w').
     held s' + blocks_r r' + live w \<le> held s + blocks_r r + live w' \<and>
     (fits r \<longrightarrow> r_var r \<notin> slots s \<longrightarrow>
        held s' + blocks_r r' + live w = held s + blocks_r r + live w') \<and>
     (fits r \<longrightarrow> slots s' \<subseteq> insert (r_var r) (slots s)))"

locale field_scanner =
  fixes step :: "'s \<Rightarrow> mi_results \<Rightarrow> world \<Rightarrow> ('s \<times> mi_results \<times> world) run"
    and held :: "'s \<Rightarrow> int"
    and slots :: "'s \<Rightarrow> string option set"
    and fits :: "mi_results \<Rightarrow> bool"
  assumes step_law: "wp (step s r w) (turn_law held slots fits s r w) (\<lambda>_. \<not> fits r)"
begin

lemma step_keeps:
  "step s r w = Inr (s', r', w') \<Longrightarrow> held s' + blocks_r r' + live w \<le> held s + blocks_r r + live w'"
  using step_law [of s r w] by (simp add: turn_law_def)

lemma step_exact:
  "step s r w = Inr (s', r', w') \<Longrightarrow> r_var r \<notin> slots s \<Longrightarrow> fits r \<Longrightarrow>
     held s' + blocks_r r' + live w = held s + blocks_r r + live w'"
  using step_law [of s r w] by (simp add: turn_law_def)

lemma step_slots:
  "step s r w = Inr (s', r', w') \<Longrightarrow> fits r \<Longrightarrow> slots s' \<subseteq> insert (r_var r) (slots s)"
  using step_law [of s r w] by (simp add: turn_law_def)

lemma step_safe: "fits r \<Longrightarrow> \<exists>x. step s r w = Inr x"
  using step_law [of s r w] by (cases "step s r w") auto

lemma scan_keeps:
  "scan step s rs w = Inr (s', rs', w') \<Longrightarrow>
     held s' + blocks_l rs' + live w \<le> held s + blocks_l rs + live w'"
proof (induction rs arbitrary: s w rs')
  case (Cons r rs)
  then obtain s1 r1 w1 rs2 where 1: "step s r w = Inr (s1, r1, w1)"
    "scan step s1 rs w1 = Inr (s', rs2, w')" and "rs' = r1 # rs2"
    by (elim scan_Cons_Inr)
  with Cons.IH [OF 1(2)] step_keeps [OF 1(1)] show ?case by simp
qed simp

lemma scan_exact:
  assumes "scan step s rs w = Inr (s', rs', w')"
    and "distinct (map r_var rs)" and "\<forall>r\<in>set rs. fits r \<and> r_var r \<notin> slots s"
  shows "held s' + blocks_l rs' + live w = held s + blocks_l rs + live w'"
  using assms
proof (induction rs arbitrary: s w rs')
  case (Cons r rs)
  from Cons.prems(1) obtain s1 r1 w1 rs2 where 1: "step s r w = Inr (s1, r1, w1)"
    "scan step s1 rs w1 = Inr (s', rs2, w')" and rs': "rs' = r1 # rs2"
    by (elim scan_Cons_Inr)
  have r: "fits r" "r_var r \<notin> slots s" using Cons.prems(3) by simp_all
  have "\<forall>x\<in>set rs. fits x \<and> r_var x \<notin> slots s1"
  proof
    fix x
    assume x: "x \<in> set rs"
    then have "r_var x \<noteq> r_var r" using Cons.prems(2) by (auto simp: image_iff)
    with x show "fits x \<and> r_var x \<notin> slots s1"
      using step_slots [OF 1(1) r(1)] Cons.prems(3) by auto
  qed
  with Cons.prems(2) have "held s' + blocks_l rs2 + live w1 = held s1 + blocks_l rs + live w'"
    by (intro Cons.IH [OF 1(2)]) simp_all
  with step_exact [OF 1(1) r(2,1)] rs' show ?case by simp
qed simp

text \<open>A reader that releases what it replaces has no slots, and loses nothing on any list.\<close>

lemma scan_exact_always:
  assumes "\<And>s. slots s = {}" and "scan step s rs w = Inr (s', rs', w')" and "\<forall>r\<in>set rs. fits r"
  shows "held s' + blocks_l rs' + live w = held s + blocks_l rs + live w'"
  using assms(2,3)
proof (induction rs arbitrary: s w rs')
  case (Cons r rs)
  from Cons.prems(1) obtain s1 r1 w1 rs2 where 1: "step s r w = Inr (s1, r1, w1)"
    "scan step s1 rs w1 = Inr (s', rs2, w')" and rs': "rs' = r1 # rs2"
    by (elim scan_Cons_Inr)
  with Cons.IH [OF 1(2)] Cons.prems(2) step_exact [OF 1(1)] assms(1) show ?case by simp
qed simp

lemma scan_safe: "\<forall>r\<in>set rs. fits r \<Longrightarrow> \<exists>x. scan step s rs w = Inr x"
proof (induction rs arbitrary: s w)
  case (Cons r rs)
  then obtain s1 r1 w1 where 1: "step s r w = Inr (s1, r1, w1)"
    using step_safe [of r s w] by auto
  then obtain x where "scan step s1 rs w1 = Inr x" using Cons by fastforce
  with 1 show ?case by (cases x) auto
qed simp

end

text \<open>
  A reader as a whole: it starts from a fresh structure of one block, or returns NULL with the
  tree untouched when there is no memory.
\<close>

definition fill :: "('s option \<times> world) \<Rightarrow> ('s \<Rightarrow> mi_results \<Rightarrow> world \<Rightarrow> ('s \<times> mi_results \<times> world) run)
    \<Rightarrow> mi_results list \<Rightarrow> ('s option \<times> mi_results list \<times> world) run" where
  "fill al step c = (case al of
       (None, w1) \<Rightarrow> Inr (None, c, w1)
     | (Some s, w1) \<Rightarrow> bnd (scan step s c w1) (\<lambda>(s1, c1, w2). Inr (Some s1, c1, w2)))"

text \<open>
  The contract of a reader towards the code that calls it on a list of nodes: \<open>worth\<close> counts the
  blocks of its result. It never creates a second owner; on a \<open>neat\<close> list it loses no block; on a
  list that \<open>suits\<close> it gives no fault.
\<close>

definition read_law :: "('a \<Rightarrow> int) \<Rightarrow> (mi_results list \<Rightarrow> bool) \<Rightarrow> mi_results list \<Rightarrow> world
    \<Rightarrow> 'a \<times> mi_results list \<times> world \<Rightarrow> bool" where
  "read_law worth neat l w = (\<lambda>(a, l', w').
     worth a + blocks_l l' + live w \<le> blocks_l l + live w' \<and>
     (neat l \<longrightarrow> worth a + blocks_l l' + live w = blocks_l l + live w'))"

locale list_reader =
  fixes parse :: "mi_results list \<Rightarrow> world \<Rightarrow> ('a \<times> mi_results list \<times> world) run"
    and worth :: "'a \<Rightarrow> int"
    and suits :: "mi_results list \<Rightarrow> bool"
    and neat :: "mi_results list \<Rightarrow> bool"
  assumes parse_law: "wp (parse l w) (read_law worth neat l w) (\<lambda>_. \<not> suits l)"
begin

lemma parse_keeps:
  "parse l w = Inr (a, l', w') \<Longrightarrow> worth a + blocks_l l' + live w \<le> blocks_l l + live w'"
  using parse_law [of l w] by (simp add: read_law_def)

lemma parse_exact:
  "parse l w = Inr (a, l', w') \<Longrightarrow> neat l \<Longrightarrow> worth a + blocks_l l' + live w = blocks_l l + live w'"
  using parse_law [of l w] by (simp add: read_law_def)

lemma parse_safe: "suits l \<Longrightarrow> \<exists>a l' w'. parse l w = Inr (a, l', w')"
  using parse_law [of l w] by (cases "parse l w") auto

end

definition worth_opt :: "('s \<Rightarrow> int) \<Rightarrow> 's option \<Rightarrow> int" where
  "worth_opt held p = (case p of None \<Rightarrow> 0 | Some s \<Rightarrow> held s)"

lemma worth_opt_simps [simp]: "worth_opt h None = 0" "worth_opt h (Some s) = h s"
  by (simp_all add: worth_opt_def)

text \<open>A reader of fields that starts from an empty structure keeps this contract.\<close>

locale struct_reader = field_scanner step held slots fits
  for step :: "'s \<Rightarrow> mi_results \<Rightarrow> world \<Rightarrow> ('s \<times> mi_results \<times> world) run" and held slots fits +
  fixes sz :: int and zero :: 's
  assumes held_zero: "held zero = 1" and slots_zero: "slots zero = {}"

sublocale struct_reader \<subseteq> list: list_reader "\<lambda>c w. fill (mi_alloc sz zero w) step c" "worth_opt held"
  "\<lambda>c. \<forall>r\<in>set c. fits r" "\<lambda>c. distinct (map r_var c) \<and> (\<forall>r\<in>set c. fits r)"
proof (unfold_locales, goal_cases)
  case (1 c w)
  obtain p w1 where al: "mi_alloc sz zero w = (p, w1)" by fastforce
  note live = mi_alloc_live [OF al]
  show ?case
  proof (cases p)
    case None
    with al live show ?thesis by (simp add: fill_def read_law_def)
  next
    case (Some s)
    with live have s: "s = zero" "live w1 = live w + 1" by auto
    show ?thesis
    proof (cases "scan step zero c w1")
      case (Inl f)
      with scan_safe [of c zero w1] al Some s show ?thesis by (auto simp: fill_def)
    next
      case (Inr x)
      obtain s1 c1 w2 where x: "x = (s1, c1, w2)" by (metis prod_cases3)
      with Inr scan_keeps [of zero c w1 s1 c1 w2] scan_exact [of zero c w1 s1 c1 w2] al Some s
      show ?thesis
        by (auto simp: fill_def read_law_def held_zero slots_zero)
    qed
  qed
qed

text \<open>A reader that collects a list in the nodes' order, and starts from the empty list.\<close>

locale list_scanner = field_scanner step held slots fits
  for step :: "'s \<Rightarrow> mi_results \<Rightarrow> world \<Rightarrow> ('s \<times> mi_results \<times> world) run" and held slots fits +
  fixes start :: 's
  assumes held_start: "held start = 0" and slots_start: "slots start = {}"

sublocale list_scanner \<subseteq> list: list_reader "scan step start" held
  "\<lambda>c. \<forall>r\<in>set c. fits r" "\<lambda>c. distinct (map r_var c) \<and> (\<forall>r\<in>set c. fits r)"
proof (unfold_locales, goal_cases)
  case (1 c w)
  show ?case
  proof (cases "scan step start c w")
    case (Inl f)
    with scan_safe [of c start w] show ?thesis by auto
  next
    case (Inr x)
    obtain s1 c1 w2 where x: "x = (s1, c1, w2)" by (metis prod_cases3)
    with Inr scan_keeps [of start c w s1 c1 w2] scan_exact [of start c w s1 c1 w2] show ?thesis
      by (auto simp: read_law_def held_start slots_start)
  qed
qed

text \<open>A node of a complete tree that has a name, which most readers need.\<close>

definition named_full :: "mi_results \<Rightarrow> bool" where
  "named_full r \<longleftrightarrow> r_var r \<noteq> None \<and> full_r r"

lemma named_full_cases:
  assumes "named_full r"
  obtains v s where "r = MiRes (Some v) (VConst (Some s))" | v l where "r = MiRes (Some v) (VTuple l)"
    | v l where "r = MiRes (Some v) (VList l)"
  using assms by (cases r; cases "r_val r") (auto simp: named_full_def split: option.splits)

definition filled :: "string \<Rightarrow> 'a option \<Rightarrow> string option set" where
  "filled name p = (if p = None then {} else {Some name})"

lemma filled_simps [simp]: "filled n None = {}" "filled n (Some x) = {Some n}"
  by (simp_all add: filled_def)

lemma filled_mem [simp]: "u \<in> filled n p \<longleftrightarrow> u = Some n \<and> p \<noteq> None"
  by (simp add: filled_def)

text \<open>
  The four laws of a reader follow from its behaviour on named constants, tuples and lists and on
  nodes without a name.
\<close>

lemma node_cases:
  obtains (const) v s where "r = MiRes (Some v) (VConst s)" | (tuple) v l where "r = MiRes (Some v) (VTuple l)"
    | (list) v l where "r = MiRes (Some v) (VList l)"
    | (anon) x where "r = MiRes None x"
  by (cases r; cases "r_var r"; cases "r_val r") auto

text \<open>The string of the last constant of that name, which is the one a field keeps.\<close>

fun last_str :: "mi_results list \<Rightarrow> string \<Rightarrow> string option" where
  "last_str [] n = None"
| "last_str (c # cs) n = (case last_str cs n of
       Some s \<Rightarrow> Some s
     | None \<Rightarrow> (if r_var c = Some n then (case r_val c of VConst s \<Rightarrow> s | _ \<Rightarrow> None) else None))"

definition or_else :: "'a option \<Rightarrow> 'b \<Rightarrow> ('a \<Rightarrow> 'b) \<Rightarrow> 'b" where
  "or_else p d g = (case p of None \<Rightarrow> d | Some s \<Rightarrow> g s)"

lemma or_else_simps [simp]: "or_else None d g = d" "or_else (Some s) d g = g s"
  by (simp_all add: or_else_def)

lemma or_else_Some: "or_else p None Some = p"
  by (cases p) simp_all

lemma or_else_step:
  "or_else (last_str (c # cs) n) d g = or_else (last_str cs n) (or_else (last_str [c] n) d g) g"
  by (cases "last_str cs n") simp_all

text \<open>The same for a field that takes the nodes of a list.\<close>

fun last_list :: "mi_results list \<Rightarrow> string \<Rightarrow> mi_results list option" where
  "last_list [] n = None"
| "last_list (c # cs) n = (case last_list cs n of
       Some l \<Rightarrow> Some l
     | None \<Rightarrow> (if r_var c = Some n then (case r_val c of VList l \<Rightarrow> Some l | _ \<Rightarrow> None) else None))"

lemma or_else_list_step:
  "or_else (last_list (c # cs) n) d g = or_else (last_list cs n) (or_else (last_list [c] n) d g) g"
  by (cases "last_list cs n") simp_all

end
