(* ===== verification/MI_Connect.thy ===== *)
theory MI_Connect
  imports MI_Scan
begin

text \<open>
  The connection with gdb, \<open>src/connect.c\<close> lines 63 to 341: the handle, the line reader, one
  response line, the blocking wait for a response, and \<open>mi_send\<close>.

  What the operating system and the application do is a script in the state: the results of
  \<open>read\<close> (one byte, or nothing), of \<open>waitpid\<close> (whether it reports the child), of \<open>select\<close> and of
  the time-out callback. What the library does to them is a log: the commands sent, the callbacks
  called, the descriptors closed. A callback is a number; the callbacks observe and do not call
  the library.
\<close>

section \<open>State\<close>

record mi_h =
  to_gdb0 :: int
  to_gdb1 :: int
  from_gdb0 :: int
  from_gdb1 :: int
  to_stream :: bool
  from_stream :: bool
  pid :: int
  died :: bool
  line :: "cptr option"
  llen :: nat
  lread :: nat
  po :: "mi_output list"
  has_last :: bool
  console :: "nat option"
  console_data :: nat
  target :: "nat option"
  target_data :: nat
  log_cb :: "nat option"
  log_data :: nat
  async :: "nat option"
  async_data :: nat
  to_gdb_echo :: "nat option"
  to_gdb_echo_data :: nat
  from_gdb_echo :: "nat option"
  from_gdb_echo_data :: nat
  time_out_cb :: "nat option"
  time_out_cb_data :: nat
  time_out :: int
  catch_console :: int
  catched_console :: "string option"
  version :: "32 word"

datatype event =
    Stream_call nat nat "string option"
  | Async_call nat nat mi_output
  | Time_out_call nat nat
  | Close int
  | Fclose int
  | Kill int bool
  | Interrupt int
  | Nonblock int
  | Spawn "string list"
  | Script string "string list"
  | Unlink string
  | At_exit

text \<open>The settings \<open>src/connect.c\<close> keeps in static variables, and whether its exit handler is set.\<close>

record globals =
  gdb_exe :: "string option"
  xterm_exe :: "string option"
  gdb_start :: "string option"
  gdb_conn :: "string option"
  main_func :: "string option"
  disable_psym_search_workaround :: bool
  registered :: bool

text \<open>
  The rest of the system: \<open>PATH\<close>, which files are regular and which may be executed, the contents
  of text files, the descriptor a device opens to (for writing only when the flag is set), the state
  of the virtual terminals, what the pseudo terminal calls return, and the results of \<open>pipe\<close> (a pair of
  descriptors), \<open>fork\<close> (the child), \<open>fdopen\<close>, \<open>mkstemp\<close> (a descriptor) and the later \<open>stat\<close> calls on a
  temporary file. A list is used up from its head; past its end the call fails.
\<close>

record osys =
  env_path :: "string option"
  is_reg :: "string \<Rightarrow> bool"
  is_exec :: "string \<Rightarrow> bool"
  text_file :: "string \<Rightarrow> string option"
  open_dev :: "string \<Rightarrow> bool \<Rightarrow> int"
  vt_state :: "16 word option"
  grant_ok :: bool
  unlock_ok :: bool
  pts_name :: "string option"
  pipes :: "(int \<times> int) list"
  forks :: "int list"
  fdopens :: "bool list"
  mkstemps :: "int list"
  stats :: "bool list"

text \<open>
  The state of a process with one connection. \<open>junk\<close> gives the bytes that \<open>realloc\<close> leaves
  unset; \<open>c_h\<close> is the handle, \<open>mi_error_from_gdb\<close> and \<open>c_g\<close> the globals, \<open>c_w\<close> the heap.
\<close>

record conn =
  c_h :: mi_h
  reads :: "char option list"
  waits :: "bool list"
  selects :: "int list"
  tm_rets :: "int list"
  sent :: "string list"
  events :: "event list"
  junk :: "nat \<Rightarrow> char"
  mi_error_from_gdb :: "string option"
  c_g :: globals
  c_os :: osys
  c_w :: world

type_synonym 'a com = "conn \<Rightarrow> ('a \<times> conn) run"

definition ret :: "'a \<Rightarrow> 'a com" where
  "ret x c = Inr (x, c)"

definition seq :: "'a com \<Rightarrow> ('a \<Rightarrow> 'b com) \<Rightarrow> 'b com" where
  "seq m f c = bnd (m c) (\<lambda>(x, c1). f x c1)"

lemma seq_assoc: "seq (seq m f) g = seq m (\<lambda>x. seq (f x) g)"
  by (rule ext) (auto simp: seq_def bnd_def split: sum.splits)

lemma seq_Inr: "seq m f c = Inr (y, c2) \<longleftrightarrow> (\<exists>x c1. m c = Inr (x, c1) \<and> f x c1 = Inr (y, c2))"
  by (auto simp: seq_def bnd_Inr_iff)

text \<open>An operation on the heap alone, one on the handle alone, and an entry of the log.\<close>

definition on_w :: "(world \<Rightarrow> ('a \<times> world) run) \<Rightarrow> 'a com" where
  "on_w f c = bnd (f (c_w c)) (\<lambda>(x, w1). Inr (x, c\<lparr>c_w := w1\<rparr>))"

definition heap :: "(world \<Rightarrow> world) \<Rightarrow> unit com" where
  "heap f c = Inr ((), c\<lparr>c_w := f (c_w c)\<rparr>)"

definition hand :: "(mi_h \<Rightarrow> mi_h) \<Rightarrow> unit com" where
  "hand f c = Inr ((), c\<lparr>c_h := f (c_h c)\<rparr>)"

definition emit :: "event \<Rightarrow> unit com" where
  "emit e c = Inr ((), c\<lparr>events := events c @ [e]\<rparr>)"

definition set_error :: "nat \<Rightarrow> unit com" where
  "set_error e = heap (\<lambda>w. w\<lparr>mi_error := e\<rparr>)"

definition ask :: "(conn \<Rightarrow> 'a) \<Rightarrow> 'a com" where
  "ask f c = Inr (f c, c)"

lemmas com_defs = ret_def seq_def on_w_def heap_def hand_def emit_def set_error_def ask_def

definition MI_DEFAULT_TIME_OUT :: int where "MI_DEFAULT_TIME_OUT = 10"

section \<open>The handle\<close>

text \<open>\<open>calloc\<close> of the handle: all zero but the descriptors and the pid, which are -1.\<close>

definition fresh_h :: mi_h where
  "fresh_h = \<lparr>to_gdb0 = - 1, to_gdb1 = - 1, from_gdb0 = - 1, from_gdb1 = - 1, to_stream = False,
     from_stream = False, pid = - 1, died = False, line = None, llen = 0, lread = 0, po = [],
     has_last = False, console = None, console_data = 0, target = None, target_data = 0,
     log_cb = None, log_data = 0, async = None, async_data = 0, to_gdb_echo = None,
     to_gdb_echo_data = 0, from_gdb_echo = None, from_gdb_echo_data = 0, time_out_cb = None,
     time_out_cb_data = 0, time_out = 0, catch_console = 0, catched_console = None, version = 0\<rparr>"

definition mi_alloc_h :: "mi_h option com" where
  "mi_alloc_h c = (let (ok, w1) = c_calloc 1 360 (c_w c) in
     if ok then Inr (Some fresh_h, c\<lparr>c_w := w1\<rparr>)
     else Inr (None, c\<lparr>c_w := w1\<lparr>mi_error := MI_OUT_OF_MEMORY\<rparr>\<rparr>))"

text \<open>\<open>waitpid(pid, WNOHANG)\<close>: the script says whether it reports the child; past its end it does not.\<close>

definition wait_nohang :: "bool com" where
  "wait_nohang c = (case waits c of [] \<Rightarrow> Inr (False, c) | b # bs \<Rightarrow> Inr (b, c\<lparr>waits := bs\<rparr>))"

definition mi_check_running_pid :: "int \<Rightarrow> bool com" where
  "mi_check_running_pid p =
     (if p \<le> 0 then ret False else seq wait_nohang (\<lambda>reported. ret (\<not> reported)))"

definition mi_check_running :: "bool com" where
  "mi_check_running c =
     (if died (c_h c) then Inr (False, c) else mi_check_running_pid (pid (c_h c)) c)"

text \<open>\<open>SIGTERM\<close>, then \<open>SIGKILL\<close> (the flag of \<open>Kill\<close>) and a wait if the child still runs.\<close>

definition mi_kill_child :: "int \<Rightarrow> unit com" where
  "mi_kill_child p = seq (emit (Kill p False)) (\<lambda>_.
     seq (mi_check_running_pid p) (\<lambda>running.
       if running then emit (Kill p True) else ret ()))"

definition mi_free_h :: "unit com" where
  "mi_free_h =
     seq (ask c_h) (\<lambda>h.
     seq (if 0 \<le> to_gdb0 h then emit (Close (to_gdb0 h)) else ret ()) (\<lambda>_.
     seq (if to_stream h then emit (Fclose (to_gdb1 h))
          else if 0 \<le> to_gdb1 h then emit (Close (to_gdb1 h)) else ret ()) (\<lambda>_.
     seq (if from_stream h then emit (Fclose (from_gdb0 h))
          else if 0 \<le> from_gdb0 h then emit (Close (from_gdb0 h)) else ret ()) (\<lambda>_.
     seq (if 0 \<le> from_gdb1 h then emit (Close (from_gdb1 h)) else ret ()) (\<lambda>_.
     seq mi_check_running (\<lambda>running.
     seq (if running then mi_kill_child (pid h) else ret ()) (\<lambda>_.
     seq (heap (c_free (line h))) (\<lambda>_.
     seq (heap (mi_free_output (po h))) (\<lambda>_.
     seq (heap (c_free (catched_console h))) (\<lambda>_.
     heap (c_free (Some ()))))))))))))"

text \<open>The blocks a handle owns.\<close>

definition blocks_h :: "mi_h \<Rightarrow> int" where
  "blocks_h h = 1 + own (line h) + blocks_os (po h) + own (catched_console h)"

section \<open>Reading a line\<close>

text \<open>\<open>realloc(line, n)\<close>: the bytes kept, then bytes that are not set.\<close>

definition c_realloc :: "cptr option \<Rightarrow> nat \<Rightarrow> (nat \<Rightarrow> char) \<Rightarrow> world \<Rightarrow> cptr option \<times> world" where
  "c_realloc p n fill_byte w = (let (ok, w1) = c_malloc w in
     if ok
     then (let old = (case p of None \<Rightarrow> [] | Some b \<Rightarrow> b) in
           (Some (take n old @ map fill_byte [length old..<n]), w1\<lparr>live := live w1 - own p\<rparr>))
     else (None, w1))"

definition write_line :: "nat \<Rightarrow> char \<Rightarrow> mi_h \<Rightarrow> mi_h run" where
  "write_line i ch h = (case line h of
       None \<Rightarrow> Inl Null_deref
     | Some b \<Rightarrow> if i < length b then Inr (h\<lparr>line := Some (b[i := ch])\<rparr>) else Inl Over_write)"

text \<open>The loop of \<open>mi_getline\<close>, over the results of \<open>read\<close>; it returns those it left.\<close>

fun getline_loop :: "char option list \<Rightarrow> (nat \<Rightarrow> char) \<Rightarrow> mi_h \<Rightarrow> world
    \<Rightarrow> (int \<times> char option list \<times> mi_h \<times> world) run" where
  "getline_loop [] jk h w = Inr (0, [], h, w)"
| "getline_loop (None # rs) jk h w = Inr (0, rs, h, w)"
| "getline_loop (Some ch # rs) jk h w =
     (let (p, n, w1) = (if llen h \<le> lread h
                        then (let (q, w') = c_realloc (line h) (lread h + 128) jk w in
                              (q, lread h + 128, w'))
                        else (line h, llen h, w));
          h1 = h\<lparr>line := p, llen := n\<rparr>
      in if llen h \<le> lread h \<and> p = None
         then Inr (- 1, rs, h1\<lparr>llen := 0, lread := 0\<rparr>, w1)
         else if ch = NEWLINE
         then bnd (write_line (lread h1) NUL h1) (\<lambda>h2.
                Inr (int (lread h1), rs, h2\<lparr>lread := 0\<rparr>, w1))
         else if ch \<noteq> CRET
         then bnd (write_line (lread h1) ch h1) (\<lambda>h2.
                getline_loop rs jk (h2\<lparr>lread := lread h2 + 1\<rparr>) w1)
         else getline_loop rs jk h1 w1)"

definition mi_getline :: "int com" where
  "mi_getline c = bnd (getline_loop (reads c) (junk c) (c_h c) (c_w c)) (\<lambda>(r, rs, h, w).
     Inr (r, c\<lparr>reads := rs, c_h := h, c_w := w\<rparr>))"

section \<open>One line of a response\<close>

text \<open>\<open>NULL\<close> when the record has no content or its first node is no constant.\<close>

definition get_cstr :: "mi_output \<Rightarrow> string option run" where
  "get_cstr o1 = (case o_c o1 of
       [] \<Rightarrow> Inr None
     | x # _ \<Rightarrow> if r_type x \<noteq> t_const then Inr None else c_cstr x)"

definition call_stream :: "nat option \<Rightarrow> nat \<Rightarrow> string option \<Rightarrow> unit com" where
  "call_stream cb data s = (case cb of None \<Rightarrow> ret () | Some f \<Rightarrow> emit (Stream_call f data s))"

text \<open>\<open>h->from_gdb_echo(h->line, ...)\<close> and \<open>strncmp(h->line, "(gdb)", 5)\<close>: the C string in the buffer.\<close>

definition line_str :: "cptr \<Rightarrow> string" where
  "line_str b = takeWhile (\<lambda>c. c \<noteq> NUL) b"

definition console_line :: "mi_output \<Rightarrow> unit com" where
  "console_line o1 = seq (on_w (\<lambda>w. bnd (get_cstr o1) (\<lambda>s. Inr (s, w)))) (\<lambda>aux.
     seq (ask c_h) (\<lambda>h.
     seq (call_stream (console h) (console_data h) aux) (\<lambda>_.
     case aux of
       None \<Rightarrow> ret ()
     | Some s \<Rightarrow>
         if catch_console h = 0 then ret ()
         else seq (hand (\<lambda>h. h\<lparr>catch_console := catch_console h - 1\<rparr>)) (\<lambda>_.
           if catch_console h - 1 \<noteq> 0 then ret ()
           else seq (heap (c_free (catched_console h))) (\<lambda>_.
             seq (on_w (\<lambda>w. Inr (c_strdup s w))) (\<lambda>d.
             hand (\<lambda>h. h\<lparr>catched_console := d\<rparr>)))))))"

definition stream_line :: "mi_output \<Rightarrow> unit com" where
  "stream_line o1 =
     (if o_sstype o1 = MI_SST_CONSOLE then console_line o1
      else if o_sstype o1 = MI_SST_TARGET then
        seq (ask c_h) (\<lambda>h. if target h = None then ret ()
          else seq (on_w (\<lambda>w. bnd (get_cstr o1) (\<lambda>s. Inr (s, w)))) (\<lambda>s.
            call_stream (target h) (target_data h) s))
      else if o_sstype o1 = MI_SST_LOG then
        seq (ask c_h) (\<lambda>h. if log_cb h = None then ret ()
          else seq (on_w (\<lambda>w. bnd (get_cstr o1) (\<lambda>s. Inr (s, w)))) (\<lambda>s.
            call_stream (log_cb h) (log_data h) s))
      else ret ())"

definition async_line :: "mi_output \<Rightarrow> unit com" where
  "async_line o1 = seq (ask c_h) (\<lambda>h. case async h of
       None \<Rightarrow> ret () | Some f \<Rightarrow> emit (Async_call f (async_data h) o1))"

definition set_msg :: "string option \<Rightarrow> unit com" where
  "set_msg m c = Inr ((), c\<lparr>mi_error_from_gdb := m\<rparr>)"

definition error_line :: "mi_output \<Rightarrow> unit com" where
  "error_line o1 = seq (set_error MI_FROM_GDB) (\<lambda>_.
     seq (ask mi_error_from_gdb) (\<lambda>m.
     seq (heap (c_free m)) (\<lambda>_.
     seq (set_msg None) (\<lambda>_.
     case o_c o1 of
       [] \<Rightarrow> ret ()
     | x # _ \<Rightarrow>
         seq (on_w (\<lambda>w. bnd (c_var x) (\<lambda>v. Inr (v, w)))) (\<lambda>v.
         if v = ''msg'' \<and> r_type x = t_const
         then seq (on_w (\<lambda>w. bnd (c_str x) (\<lambda>s. Inr (c_strdup s w)))) set_msg
         else ret ())))))"

definition add_record :: "mi_output \<Rightarrow> unit com" where
  "add_record o1 = hand (\<lambda>h. h\<lparr>po := (if has_last h then po h @ [o1] else [o1]), has_last := True\<rparr>)"

definition mi_record :: "mi_output \<Rightarrow> int com" where
  "mi_record o1 =
     (let stream = (o_type o1 = MI_T_OUT_OF_BAND \<and> o_stype o1 = MI_ST_STREAM);
          is_exit = (o_type o1 = MI_T_RESULT_RECORD \<and> o_tclass o1 = MI_CL_EXIT) in
      seq (if stream then stream_line o1
           else if o_type o1 = MI_T_OUT_OF_BAND \<and> o_stype o1 = MI_ST_ASYNC then async_line o1
           else if o_type o1 = MI_T_RESULT_RECORD \<and> o_tclass o1 = MI_CL_ERROR then error_line o1
           else ret ()) (\<lambda>_.
      seq (if \<not> stream then add_record o1 else heap (mi_free_output [o1])) (\<lambda>_.
      ret (if is_exit then 1 else 0))))"

definition mi_get_response :: "int com" where
  "mi_get_response = seq mi_getline (\<lambda>l.
     if l = 0 then ret 0
     else seq (ask c_h) (\<lambda>h.
       seq (case from_gdb_echo h of
              None \<Rightarrow> ret ()
            | Some f \<Rightarrow> emit (Stream_call f (from_gdb_echo_data h) (map_option line_str (line h)))) (\<lambda>_.
       case line h of
         None \<Rightarrow> (\<lambda>c. Inl Null_deref)
       | Some b \<Rightarrow>
           seq (on_w (\<lambda>w. bnd (strncmp_eq ''(gdb)'' b) (\<lambda>p. Inr (p, w)))) (\<lambda>prompt.
           if prompt then ret 1
           else seq (on_w (mi_parse_gdb_output b)) (\<lambda>o1.
             case o1 of None \<Rightarrow> ret 0 | Some r \<Rightarrow> mi_record r)))))"

definition mi_retire_response :: "mi_output list com" where
  "mi_retire_response = seq (ask (\<lambda>c. po (c_h c))) (\<lambda>r.
     seq (hand (\<lambda>h. h\<lparr>po := [], has_last := False\<rparr>)) (\<lambda>_. ret r))"

section \<open>Waiting for a response\<close>

text \<open>
  The wait takes its results of \<open>select\<close> from the script, 0 (a time out) past its end, and then the
  answers of the time-out callback, 0 (give up) past their end. So a wait always ends in the model:
  a script that never gives up is infinite.
\<close>

definition mi_select :: "int com" where
  "mi_select c = (case selects c of [] \<Rightarrow> Inr (0, c) | r # rs \<Rightarrow> Inr (r, c\<lparr>selects := rs\<rparr>))"

definition call_time_out :: "int com" where
  "call_time_out c = (case time_out_cb (c_h c) of
       None \<Rightarrow> Inr (0, c)
     | Some f \<Rightarrow> (let c1 = c\<lparr>events := events c @ [Time_out_call f (time_out_cb_data (c_h c))]\<rparr> in
         case tm_rets c of [] \<Rightarrow> Inr (0, c1) | r # rs \<Rightarrow> Inr (r, c1\<lparr>tm_rets := rs\<rparr>)))"

definition set_died :: "unit com" where
  "set_died = seq (hand (\<lambda>h. h\<lparr>died := True\<rparr>)) (\<lambda>_. set_error MI_GDB_DIED)"

text \<open>
  One turn of the loop, \<open>Some\<close> result to return or \<open>None\<close> to go on: \<open>blk_idle\<close> is what follows a
  \<open>select\<close> that timed out.
\<close>

definition blk_idle :: "mi_output list option com" where
  "blk_idle = seq mi_check_running (\<lambda>running.
     if \<not> running then seq set_died (\<lambda>_. ret (Some []))
     else seq call_time_out (\<lambda>t.
       if t = 0 then seq (set_error MI_GDB_TIME_OUT) (\<lambda>_. ret (Some [])) else ret None))"

definition blk_turn :: "mi_output list option com" where
  "blk_turn = seq mi_get_response (\<lambda>r.
     if r \<noteq> 0 then seq mi_retire_response (\<lambda>l. ret (Some l))
     else seq mi_select (\<lambda>s. if s \<noteq> 0 then ret None else blk_idle))"

text \<open>
  A relation between the states before and after that composes: once it holds for the basic steps
  it holds for what is built from them. Its first use: the parts of a turn that talk to gdb leave
  the two scripts of the waiting alone, so each turn that goes on has used up one of their answers.
\<close>

locale across =
  fixes R :: "conn \<Rightarrow> conn \<Rightarrow> bool"
  assumes R_refl: "R c c"
    and R_trans: "R c c1 \<Longrightarrow> R c1 c2 \<Longrightarrow> R c c2"
begin

definition holds :: "'a com \<Rightarrow> bool" where
  "holds m \<longleftrightarrow> (\<forall>c x c1. m c = Inr (x, c1) \<longrightarrow> R c c1)"

lemma holdsD: "holds m \<Longrightarrow> m c = Inr (x, c1) \<Longrightarrow> R c c1"
  by (simp add: holds_def)

lemma holds_same: "(\<And>c x c1. m c = Inr (x, c1) \<Longrightarrow> c1 = c) \<Longrightarrow> holds m"
  using R_refl by (auto simp: holds_def)

lemma holds_ret: "holds (ret x)" and holds_ask: "holds (ask g)" and holds_fault: "holds (\<lambda>c. Inl ft)"
  by (auto simp: holds_def ret_def ask_def R_refl)

lemma holds_seq_post:
  assumes "holds m" and "\<And>c x c1. m c = Inr (x, c1) \<Longrightarrow> P x" and "\<And>x. P x \<Longrightarrow> holds (f x)"
  shows "holds (seq m f)"
  using assms R_trans unfolding holds_def seq_Inr by blast

lemma holds_seq: "holds m \<Longrightarrow> (\<And>x. holds (f x)) \<Longrightarrow> holds (seq m f)"
  by (rule holds_seq_post [where P = "\<lambda>_. True"]) simp_all

lemma holds_if: "(b \<Longrightarrow> holds m) \<Longrightarrow> (\<not> b \<Longrightarrow> holds m') \<Longrightarrow> holds (if b then m else m')"
  by simp

lemma holds_option:
  "(p = None \<Longrightarrow> holds m) \<Longrightarrow> (\<And>x. p = Some x \<Longrightarrow> holds (f x)) \<Longrightarrow>
     holds (case p of None \<Rightarrow> m | Some x \<Rightarrow> f x)"
  by (simp split: option.splits)

lemma holds_list:
  "holds m \<Longrightarrow> (\<And>x xs. holds (f x xs)) \<Longrightarrow> holds (case l of [] \<Rightarrow> m | x # xs \<Rightarrow> f x xs)"
  by (simp split: list.splits)

lemmas holds_intros = holds_ret holds_ask holds_fault holds_seq holds_if holds_option holds_list

end

definition same_answers :: "conn \<Rightarrow> conn \<Rightarrow> bool" where
  "same_answers c c1 \<longleftrightarrow> selects c1 = selects c \<and> tm_rets c1 = tm_rets c"

interpretation quiet: across same_answers
  by unfold_locales (simp_all add: same_answers_def)

lemma quiet_basic:
  "quiet.holds (hand f)" "quiet.holds (heap k)" "quiet.holds (on_w l)"
  "quiet.holds (emit e)" "quiet.holds (set_error n)" "quiet.holds (set_msg m)"
  "quiet.holds wait_nohang" "quiet.holds mi_getline"
  by (auto simp: quiet.holds_def same_answers_def com_defs set_msg_def bnd_Inr_iff wait_nohang_def
      mi_getline_def split: list.splits)

lemma quiet_stream: "quiet.holds (call_stream cb d s)"
  by (simp add: call_stream_def quiet.holds_ret quiet_basic split: option.splits)

lemma quiet_record: "quiet.holds (mi_record r)"
  unfolding mi_record_def stream_line_def console_line_def async_line_def error_line_def
    add_record_def Let_def
  by (intro quiet.holds_intros quiet_basic quiet_stream)

lemma quiet_response: "quiet.holds mi_get_response"
  unfolding mi_get_response_def by (intro quiet.holds_intros quiet_basic quiet_record)

lemma quiet_running: "quiet.holds mi_check_running"
proof -
  have "quiet.holds (mi_check_running_pid p)" for p
    unfolding mi_check_running_pid_def by (intro quiet.holds_intros quiet_basic)
  then show ?thesis by (auto simp: quiet.holds_def mi_check_running_def same_answers_def)
qed

lemma quietD: "quiet.holds m \<Longrightarrow> m c = Inr (x, c1) \<Longrightarrow> selects c1 = selects c \<and> tm_rets c1 = tm_rets c"
  using quiet.holdsD by (fastforce simp: same_answers_def)

definition answers :: "conn \<Rightarrow> nat" where
  "answers c = length (selects c) + length (tm_rets c)"

lemma mi_select_answers:
  "mi_select c = Inr (s, c1) \<Longrightarrow>
     tm_rets c1 = tm_rets c \<and> (s = 0 \<and> selects c1 = selects c \<or> length (selects c1) < length (selects c))"
  by (auto simp: mi_select_def split: list.splits)

lemma call_time_out_answers:
  "call_time_out c = Inr (t, c1) \<Longrightarrow>
     selects c1 = selects c \<and> (t = 0 \<or> length (tm_rets c1) < length (tm_rets c)) \<and>
     length (tm_rets c1) \<le> length (tm_rets c)"
  by (auto simp: call_time_out_def Let_def split: option.splits list.splits)

lemma blk_idle_answers:
  assumes "blk_idle c = Inr (None, c1)"
  shows "selects c1 = selects c \<and> length (tm_rets c1) < length (tm_rets c)"
proof -
  from assms obtain c2 where r: "mi_check_running c = Inr (True, c2)"
    and t: "\<exists>t. call_time_out c2 = Inr (t, c1) \<and> t \<noteq> 0"
    by (auto simp: blk_idle_def seq_Inr ret_def split: if_splits)
  with quietD [OF quiet_running r] show ?thesis by (auto dest!: call_time_out_answers)
qed

lemma blk_turn_answers:
  assumes "blk_turn c = Inr (None, c1)"
  shows "answers c1 < answers c"
proof -
  from assms obtain c2 s c3 where r: "mi_get_response c = Inr (0, c2)"
    and s: "mi_select c2 = Inr (s, c3)" and i: "s \<noteq> 0 \<and> c1 = c3 \<or> s = 0 \<and> blk_idle c3 = Inr (None, c1)"
    by (auto simp: blk_turn_def seq_Inr ret_def split: if_splits)
  with quietD [OF quiet_response r] mi_select_answers [OF s] show ?thesis
    by (auto simp: answers_def dest!: blk_idle_answers)
qed

function blk_loop :: "mi_output list com" where
  "blk_loop c = (case blk_turn c of
       Inl f \<Rightarrow> Inl f
     | Inr (Some l, c1) \<Rightarrow> Inr (l, c1)
     | Inr (None, c1) \<Rightarrow> blk_loop c1)"
  by pat_completeness auto
termination
  by (relation "measure answers") (auto dest: blk_turn_answers)

declare blk_loop.simps [simp del]

definition mi_get_response_blk :: "mi_output list com" where
  "mi_get_response_blk = seq mi_check_running (\<lambda>running.
     if \<not> running then seq set_died (\<lambda>_. ret []) else blk_loop)"

section \<open>Sending\<close>

text \<open>
  \<open>mi_send\<close> of a formatted command: the text is what \<open>vasprintf\<close> built, its block is released again.
  When \<open>vasprintf\<close> has no memory, \<open>str\<close> is used unset.
\<close>

definition mi_send :: "string \<Rightarrow> int com" where
  "mi_send str = seq (ask c_h) (\<lambda>h.
     if died h then ret 0
     else seq (on_w (\<lambda>w. Inr (c_malloc w))) (\<lambda>ok.
       if \<not> ok then (\<lambda>c. Inl Null_deref)
       else seq (\<lambda>c. Inr ((), c\<lparr>sent := sent c @ [str]\<rparr>)) (\<lambda>_.
         seq (call_stream (to_gdb_echo h) (to_gdb_echo_data h) (Some str)) (\<lambda>_.
         seq (heap (c_free (Some str))) (\<lambda>_. ret (int (length str)))))))"

text \<open>
  A \<open>printf\<close> with a format and no arguments: \<open>%%\<close> is a percent sign, any other directive reads an
  argument that is not there.
\<close>

fun printf0 :: "string \<Rightarrow> string run" where
  "printf0 [] = Inr []"
| "printf0 (c # s) =
     (if c \<noteq> CHR ''%'' then bnd (printf0 s) (\<lambda>t. Inr (c # t))
      else case s of
        [] \<Rightarrow> Inl Bad_format
      | d # s' \<Rightarrow> if d = CHR ''%'' then bnd (printf0 s') (\<lambda>t. Inr (CHR ''%'' # t))
                 else Inl Bad_format)"

end
