(* ===== verification/MI_Query.thy ===== *)
theory MI_Query
  imports MI_Connect
begin

text \<open>
  Looking things up in a response, \<open>src/parse.c\<close> lines 498 to 643 and 1388 to 1464: the result
  record, a variable of it, the reason of a stop, the tables of names, and the waits that keep one
  variable of a response and release the rest. A pointer into a list is the index of what it
  points at.
\<close>

section \<open>Records and variables\<close>

definition pure_run :: "'a run \<Rightarrow> 'a com" where
  "pure_run m c = bnd m (\<lambda>x. Inr (x, c))"

fun mi_get_rrecord :: "mi_output list \<Rightarrow> nat option" where
  "mi_get_rrecord [] = None"
| "mi_get_rrecord (r # rs) =
     (if o_type r = MI_T_RESULT_RECORD then Some 0 else map_option Suc (mi_get_rrecord rs))"

fun mi_get_var_r :: "mi_results list \<Rightarrow> string \<Rightarrow> nat option run" where
  "mi_get_var_r [] var = Inr None"
| "mi_get_var_r (r # rs) var = bnd (c_var r) (\<lambda>v.
     if v = var then Inr (Some 0) else bnd (mi_get_var_r rs var) (\<lambda>i. Inr (map_option Suc i)))"

definition mi_get_var :: "mi_output option \<Rightarrow> string \<Rightarrow> nat option run" where
  "mi_get_var res var = (case res of None \<Rightarrow> Inr None | Some r \<Rightarrow> mi_get_var_r (o_c r) var)"

definition is_stop :: "mi_output \<Rightarrow> bool" where
  "is_stop r \<longleftrightarrow> o_type r = MI_T_OUT_OF_BAND \<and> o_stype r = MI_ST_ASYNC \<and>
     o_sstype r = MI_SST_EXEC \<and> o_tclass r = MI_CL_STOPPED"

fun mi_get_stop_record :: "mi_output list \<Rightarrow> nat option" where
  "mi_get_stop_record [] = None"
| "mi_get_stop_record (r # rs) =
     (if is_stop r then Some 0 else map_option Suc (mi_get_stop_record rs))"

text \<open>The string of the first node named \<open>reason\<close>, as a pointer into the tree.\<close>

fun find_reason :: "mi_results list \<Rightarrow> string option option run" where
  "find_reason [] = Inr None"
| "find_reason (p # ps) = bnd (c_var p) (\<lambda>v.
     if v = ''reason'' then bnd (c_cstr p) (\<lambda>s. Inr (Some s)) else find_reason ps)"

text \<open>
  \<open>mi_get_async_stop_reason\<close>: the return value and \<open>*reason\<close>. An error record with no content is
  dereferenced all the same. At the end \<open>*reason\<close> is still NULL.
\<close>

fun stop_reason_loop ::
    "bool \<Rightarrow> mi_output list \<Rightarrow> world \<Rightarrow> (int \<times> string option \<times> world) run" where
  "stop_reason_loop found [] w =
     (if found then (let (s, w1) = c_strdup ''unknown (temp bkpt?)'' w in Inr (1, s, w1))
      else Inr (0, None, w))"
| "stop_reason_loop found (r # rs) w =
     (if o_type r = MI_T_RESULT_RECORD \<and> o_tclass r = MI_CL_ERROR then
        (case o_c r of
           [] \<Rightarrow> Inl Null_deref
         | x # _ \<Rightarrow> if r_type x = t_const then bnd (c_cstr x) (\<lambda>s. Inr (0, s, w)) else Inr (0, None, w))
      else if is_stop r then
        bnd (find_reason (o_c r)) (\<lambda>p. case p of
            Some s \<Rightarrow> Inr (1, s, w)
          | None \<Rightarrow> stop_reason_loop True rs w)
      else stop_reason_loop found rs w)"

definition mi_get_async_stop_reason :: "mi_output list \<Rightarrow> world \<Rightarrow> (int \<times> string option \<times> world) run" where
  "mi_get_async_stop_reason r w = stop_reason_loop False r w"

section \<open>Waits\<close>

definition mi_res_simple :: "nat \<Rightarrow> bool com" where
  "mi_res_simple tclass = seq mi_get_response_blk (\<lambda>r.
     let ok = (case mi_get_rrecord r of None \<Rightarrow> False | Some i \<Rightarrow> o_tclass (r ! i) = tclass) in
     seq (heap (mi_free_output r)) (\<lambda>_. ret ok))"

definition mi_res_simple_done :: "bool com" where
  "mi_res_simple_done = mi_res_simple MI_CL_DONE"

definition mi_res_simple_exit :: "bool com" where
  "mi_res_simple_exit = mi_res_simple MI_CL_EXIT"

definition mi_res_simple_running :: "bool com" where
  "mi_res_simple_running = mi_res_simple MI_CL_RUNNING"

definition mi_res_simple_connected :: "bool com" where
  "mi_res_simple_connected = mi_res_simple MI_CL_CONNECTED"

text \<open>The variable asked for, taken out of the response; all the rest is released.\<close>

definition the_record :: "mi_output list \<Rightarrow> nat \<Rightarrow> mi_output option" where
  "the_record r tclass = (case mi_get_rrecord r of
       None \<Rightarrow> None
     | Some i \<Rightarrow> if o_tclass (r ! i) = tclass then Some (r ! i) else None)"

definition mi_res_var :: "string \<Rightarrow> nat \<Rightarrow> mi_results option com" where
  "mi_res_var var tclass = seq mi_get_response_blk (\<lambda>r.
     seq (pure_run (mi_get_var (the_record r tclass) var)) (\<lambda>j.
       case j of
         None \<Rightarrow> seq (heap (mi_free_output_but r None [])) (\<lambda>_. ret None)
       | Some k \<Rightarrow>
           let i = the (mi_get_rrecord r) in
           seq (heap (mi_free_output_but r None [i, k])) (\<lambda>_. ret (Some (o_c (r ! i) ! k)))))"

definition mi_res_done_var :: "string \<Rightarrow> mi_results option com" where
  "mi_res_done_var var = mi_res_var var MI_CL_DONE"

section \<open>Tables of names\<close>

definition mi_lang_str_to_enum :: "string \<Rightarrow> mi_gvar_lang" where
  "mi_lang_str_to_enum lang =
     (if lang = ''C'' then lg_c else if lang = ''C++'' then lg_cpp
      else if lang = ''Java'' then lg_java else lg_unknown)"

fun mi_lang_enum_to_str :: "mi_gvar_lang \<Rightarrow> string" where
  "mi_lang_enum_to_str lg_c = ''C''"
| "mi_lang_enum_to_str lg_cpp = ''C++''"
| "mi_lang_enum_to_str lg_java = ''Java''"
| "mi_lang_enum_to_str lg_unknown = ''unknown''"

definition mi_format_str_to_enum :: "string \<Rightarrow> mi_gvar_fmt" where
  "mi_format_str_to_enum format =
     (if format = ''binary'' then fm_binary else if format = ''decimal'' then fm_decimal
      else if format = ''hexadecimal'' then fm_hexadecimal
      else if format = ''octal'' then fm_octal else fm_natural)"

fun mi_format_enum_to_str :: "mi_gvar_fmt \<Rightarrow> string" where
  "mi_format_enum_to_str fm_natural = ''natural''"
| "mi_format_enum_to_str fm_binary = ''binary''"
| "mi_format_enum_to_str fm_decimal = ''decimal''"
| "mi_format_enum_to_str fm_hexadecimal = ''hexadecimal''"
| "mi_format_enum_to_str fm_octal = ''octal''"
| "mi_format_enum_to_str fm_raw = ''raw''"

fun mi_format_enum_to_char :: "mi_gvar_fmt \<Rightarrow> char" where
  "mi_format_enum_to_char fm_natural = CHR ''N''"
| "mi_format_enum_to_char fm_binary = CHR ''t''"
| "mi_format_enum_to_char fm_decimal = CHR ''d''"
| "mi_format_enum_to_char fm_hexadecimal = CHR ''x''"
| "mi_format_enum_to_char fm_octal = CHR ''o''"
| "mi_format_enum_to_char fm_raw = CHR ''r''"

definition reason_names :: "string list" where
  "reason_names = [''breakpoint-hit'', ''watchpoint-trigger'', ''read-watchpoint-trigger'',
     ''access-watchpoint-trigger'', ''watchpoint-scope'', ''function-finished'',
     ''location-reached'', ''end-stepping-range'', ''exited-signalled'', ''exited'',
     ''exited-normally'', ''signal-received'']"

definition reason_values :: "mi_stop_reason list" where
  "reason_values = [sr_bkpt_hit, sr_wp_trigger, sr_read_wp_trigger, sr_access_wp_trigger,
     sr_wp_scope, sr_function_finished, sr_location_reached, sr_end_stepping_range,
     sr_exited_signalled, sr_exited, sr_exited_normally, sr_signal_received]"

definition reason_expl :: "string list" where
  "reason_expl = [''Hit a breakpoint'', ''Write watchpoint'', ''Read watchpoint'',
     ''Access watchpoint'', ''Watchpoint out of scope'', ''Function finished'',
     ''Location reached'', ''End of stepping'', ''Exited signalled'', ''Exited with error'',
     ''Exited normally'', ''Signal received'']"

definition mi_reason_str_to_enum :: "string \<Rightarrow> mi_stop_reason" where
  "mi_reason_str_to_enum s = (case map_of (zip reason_names reason_values) s of
       Some v \<Rightarrow> v | None \<Rightarrow> sr_unknown)"

definition mi_reason_enum_to_str :: "mi_stop_reason \<Rightarrow> string option" where
  "mi_reason_enum_to_str r =
     (if r = sr_unknown then Some ''Unknown (temp bkp?)''
      else map_of (zip reason_values reason_expl) r)"

text \<open>
  A table of names: each value with a name reads back from it, and any other string reads as the
  default.
\<close>

locale name_table =
  fixes to_enum :: "string \<Rightarrow> 'e" and to_str :: "'e \<Rightarrow> string" and named :: "'e set" and dflt :: 'e
  assumes reads_back: "e \<in> named \<Longrightarrow> to_enum (to_str e) = e"
    and other: "s \<notin> to_str ` named \<Longrightarrow> to_enum s = dflt"
    and dflt_unnamed: "dflt \<notin> named"
begin

lemma inj_names: "inj_on to_str named"
  by (rule inj_onI) (metis reads_back)

lemma to_enum_iff: "e \<in> named \<Longrightarrow> to_enum s = e \<longleftrightarrow> s = to_str e"
  using reads_back other dflt_unnamed by (cases "s \<in> to_str ` named") auto

lemma range_to_enum: "to_enum s \<in> insert dflt named"
  using reads_back other by (cases "s \<in> to_str ` named") auto

end

interpretation lang: name_table mi_lang_str_to_enum mi_lang_enum_to_str "{lg_c, lg_cpp, lg_java}" lg_unknown
  by unfold_locales (auto simp: mi_lang_str_to_enum_def)

interpretation format: name_table mi_format_str_to_enum mi_format_enum_to_str
    "{fm_binary, fm_decimal, fm_hexadecimal, fm_octal}" fm_natural
  by unfold_locales (auto simp: mi_format_str_to_enum_def)

text \<open>The name gdb uses for a reason.\<close>

definition reason_name :: "mi_stop_reason \<Rightarrow> string" where
  "reason_name r = (case map_of (zip reason_values reason_names) r of Some s \<Rightarrow> s | None \<Rightarrow> [])"

lemmas reason_tables = reason_names_def reason_values_def reason_expl_def

interpretation reason: name_table mi_reason_str_to_enum reason_name "UNIV - {sr_unknown}" sr_unknown
proof (unfold_locales, goal_cases)
  case (1 e)
  then show ?case
    by (cases e) (simp_all add: reason_name_def mi_reason_str_to_enum_def reason_tables)
next
  case (2 s)
  have "reason_name ` set reason_values \<subseteq> reason_name ` (UNIV - {sr_unknown})"
    by (auto simp: reason_tables)
  with 2 have "s \<notin> reason_name ` set reason_values" by blast
  then have "s \<notin> set reason_names" by (simp add: reason_name_def reason_tables)
  then show ?case
    by (simp add: mi_reason_str_to_enum_def map_of_zip_is_None reason_tables split: option.splits)
qed simp

lemma reason_reads_default: "(mi_reason_str_to_enum s = sr_unknown) = (s \<notin> set reason_names)"
  by (auto simp: mi_reason_str_to_enum_def reason_tables)

text \<open>
  The three tables of names are right: each language, format and stop reason that has a name reads
  back from that name, no two share one, and any other string reads as the default. Every stop
  reason has an explanation, so \<open>mi_reason_enum_to_str\<close> never returns NULL for a reason of the enum;
  the format \<open>raw\<close> can be sent but is not recognised when gdb reports it.
\<close>

theorem name_tables:
  "(mi_reason_str_to_enum s = r) = (if r = sr_unknown then s \<notin> set reason_names
      else (r, s) \<in> set (zip reason_values reason_names)) \<and>
   mi_reason_enum_to_str r \<noteq> None \<and>
   mi_lang_str_to_enum (mi_lang_enum_to_str l) = l \<and>
   mi_format_str_to_enum (mi_format_enum_to_str f) = (if f = fm_raw then fm_natural else f)"
proof -
  have len: "length reason_names = length reason_values" by (simp add: reason_tables)
  have "(mi_reason_str_to_enum s = r) = (if r = sr_unknown then s \<notin> set reason_names
      else (r, s) \<in> set (zip reason_values reason_names))"
  proof (cases "r = sr_unknown")
    case True
    then show ?thesis
      using reason_reads_default by simp
  next
    case False
    then have "(mi_reason_str_to_enum s = r) = (s = reason_name r)"
      by (intro reason.to_enum_iff) simp
    with False show ?thesis by (cases r) (auto simp: reason_name_def reason_tables)
  qed
  moreover have "mi_reason_enum_to_str r \<noteq> None"
    by (cases r) (simp_all add: mi_reason_enum_to_str_def reason_tables)
  moreover have "mi_lang_str_to_enum (mi_lang_enum_to_str l) = l"
    using lang.reads_back [of l] by (cases l) (simp_all add: mi_lang_str_to_enum_def)
  moreover have "mi_format_str_to_enum (mi_format_enum_to_str f) = (if f = fm_raw then fm_natural else f)"
    by (cases f) (simp_all add: mi_format_str_to_enum_def)
  ultimately show ?thesis by blast
qed

end
