(* ===== verification/MI_Reader.thy ===== *)
theory MI_Reader
  imports MI_Parse_Safe
begin

text \<open>
  A printer of MI values, written from the grammar of gdb's manual, and what the readers of values in
  \<open>src/parse.c\<close> share whatever the platform: the loops over the elements of a list and over the results of a
  tuple read back what the printer writes. The two locales state the steps of these loops; \<open>MI_Roundtrip\<close>
  interprets them on the functions of the usual build, \<open>MI_Builds\<close> on those of the build for Mac OS X. gdb
  quotes a constant the way \<open>esc\<close> does for the characters that \<open>mi_get_cstring_r\<close> knows.
\<close>

section \<open>The printer\<close>

fun esc :: "char \<Rightarrow> string" where
  "esc c = (if c = QUOTE \<or> c = BSLASH then [BSLASH, c]
            else if c = NEWLINE then [BSLASH, CHR ''n'']
            else if c = TAB then [BSLASH, CHR ''t'']
            else [c])"

fun commas :: "string list \<Rightarrow> string" where
  "commas [] = []"
| "commas [x] = x"
| "commas (x # y # zs) = x @ '','' @ commas (y # zs)"

fun print_r :: "mi_results \<Rightarrow> string" and print_v :: "mi_val \<Rightarrow> string" where
  "print_r (MiRes v x) = (case v of None \<Rightarrow> print_v x | Some s \<Rightarrow> s @ ''='' @ print_v x)"
| "print_v (VConst s) = (case s of None \<Rightarrow> [] | Some t \<Rightarrow> QUOTE # concat (map esc t) @ [QUOTE])"
| "print_v (VTuple rs) = ''{'' @ commas (map print_r rs) @ ''}''"
| "print_v (VList rs) = ''['' @ commas (map print_r rs) @ '']''"

definition sep :: "cptr \<Rightarrow> bool" where
  "sep p \<longleftrightarrow> (case p of [] \<Rightarrow> False | c # _ \<Rightarrow> c \<in> {NUL, CHR '','', CHR '']'', CHR ''}''})"

lemma sep_simps [simp]:
  "\<not> sep []" "sep (c # p) \<longleftrightarrow> c \<in> {NUL, CHR '','', CHR '']'', CHR ''}''}"
  by (simp_all add: sep_def)

lemma sep_QUOTE: "sep p \<Longrightarrow> cstr_more (QUOTE # p) = Inr False"
  by (cases p) (auto simp: cstr_more_def end_of_str_def)

lemma cstr_more_plain: "c \<noteq> QUOTE \<Longrightarrow> c \<noteq> NUL \<Longrightarrow> cstr_more (c # p) = Inr True"
  by (simp add: cstr_more_def end_of_str_def)

section \<open>Constants and names\<close>

lemma measure_print:
  "NUL \<notin> set t \<Longrightarrow> sep p \<Longrightarrow>
     measure_cstr (concat (map esc t) @ QUOTE # p) k = Inr (Some (k + length t))"
  by (induction t arbitrary: k) (auto simp: sep_QUOTE cstr_more_plain)

lemma copy_print:
  "NUL \<notin> set t \<Longrightarrow> sep p \<Longrightarrow>
     copy_cstr (concat (map esc t) @ QUOTE # p) (Suc (length t)) = Inr (t, QUOTE # p)"
  by (induction t) (auto simp: sep_QUOTE cstr_more_plain unescape_def)

lemma takeWhile_no_NUL: "NUL \<notin> set t \<Longrightarrow> takeWhile (\<lambda>c. c \<noteq> NUL) t = t"
  by (auto simp: takeWhile_eq_all_conv)

lemma const_print:
  "NUL \<notin> set t \<Longrightarrow> sep p \<Longrightarrow> oom w = [] \<Longrightarrow>
     mi_get_cstring_r (QUOTE # concat (map esc t) @ QUOTE # p) w =
       Inr (Some p, VConst (Some t), add_live 1 w)"
  using measure_print [of t p 0]
  by (simp add: mi_get_cstring_r_def copy_print takeWhile_no_NUL)

lemma name_char_not [simp]:
  "\<not> mi_is_var_name_char CHR ''=''" "\<not> mi_is_var_name_char NUL"
  "\<not> mi_is_var_name_char QUOTE" "\<not> mi_is_var_name_char CHR ''{''"
  "\<not> mi_is_var_name_char CHR ''[''" "\<not> mi_is_var_name_char CHR '']''"
  "\<not> mi_is_var_name_char CHR ''}''" "\<not> mi_is_var_name_char CHR '',''"
  by (simp_all add: mi_is_var_name_char_def isalnum_def is_digit_def)

lemma span_print:
  "list_all mi_is_var_name_char v \<Longrightarrow> var_name_span (v @ CHR ''='' # p) = Inr (v, CHR ''='' # p)"
  by (induction v) auto

lemma name_print:
  "list_all mi_is_var_name_char v \<Longrightarrow> oom w = [] \<Longrightarrow>
     mi_get_var_name (v @ CHR ''='' # p) w = Inr (Some (v, p), add_live 1 w)"
  by (simp add: mi_get_var_name_def span_print)

section \<open>First characters\<close>

lemma hd_commas:
  assumes "rs \<noteq> []" and "print_r (hd rs) \<noteq> []"
  shows "\<exists>t. commas (map print_r rs) = hd (print_r (hd rs)) # t"
  using assms by (cases "map print_r rs" rule: commas.cases; cases rs; cases "print_r (hd rs)") auto

lemma hd_print_v: "x \<noteq> VConst None \<Longrightarrow> print_v x \<noteq> [] \<and> hd (print_v x) \<in> {QUOTE, CHR ''{'', CHR ''[''}"
  by (cases x) (auto split: option.splits)

lemma hd_print_named:
  assumes "good_name (r_var r)" and "r_var r \<noteq> None"
  shows "print_r r \<noteq> [] \<and> hd (print_r r) \<noteq> CHR ''}'' \<and>
    (r_var r \<noteq> Some [] \<longrightarrow> mi_is_var_name_char (hd (print_r r)))"
proof -
  obtain s x where r: "r = MiRes (Some s) x" using assms(2) by (cases r) auto
  with assms(1) show ?thesis by (cases s) (auto simp: good_name_def)
qed

text \<open>Elements that all have a name, or that all are bare values.\<close>

definition named_all :: "mi_results list \<Rightarrow> bool" where
  "named_all rs \<longleftrightarrow> (\<forall>r\<in>set rs. r_var r \<noteq> None \<and> r_var r \<noteq> Some [] \<and> good_name (r_var r))"

definition bare_all :: "mi_results list \<Rightarrow> bool" where
  "bare_all rs \<longleftrightarrow> (\<forall>r\<in>set rs. r_var r = None \<and> r_val r \<noteq> VConst None)"

lemma named_all_hd:
  assumes "named_all rs" and "rs \<noteq> []"
  shows "\<exists>c t. commas (map print_r rs) = c # t \<and> mi_is_var_name_char c"
proof -
  have "hd rs \<in> set rs" using assms(2) by simp
  with assms(1) have "r_var (hd rs) \<noteq> None" "r_var (hd rs) \<noteq> Some []" "good_name (r_var (hd rs))"
    by (auto simp: named_all_def)
  with hd_print_named [of "hd rs"] hd_commas [OF assms(2)] show ?thesis by auto
qed

lemma bare_all_hd:
  assumes "bare_all rs" and "rs \<noteq> []"
  shows "\<exists>c t. commas (map print_r rs) = c # t \<and> c \<in> {QUOTE, CHR ''{'', CHR ''[''}"
proof -
  have "hd rs \<in> set rs" using assms(2) by simp
  with assms(1) have "r_var (hd rs) = None" "r_val (hd rs) \<noteq> VConst None" by (auto simp: bare_all_def)
  moreover from this have "print_r (hd rs) = print_v (r_val (hd rs))" by (cases "hd rs") simp
  ultimately show ?thesis using hd_print_v [of "r_val (hd rs)"] hd_commas [OF assms(2)] by auto
qed

section \<open>A loop over bare values\<close>

text \<open>The loop of \<open>mi_get_list_val\<close>, and of \<open>mi_get_tuple_val\<close> where that is compiled.\<close>

locale value_loop =
  fixes get_value :: "nat \<Rightarrow> cptr \<Rightarrow> world \<Rightarrow> (cptr option \<times> mi_val \<times> world) run"
    and get_vals :: "nat \<Rightarrow> mi_results list \<Rightarrow> cptr \<Rightarrow> world \<Rightarrow> (cptr option \<times> mi_results list \<times> world) run"
    and closeC :: char
  assumes vals_step: "get_vals (Suc n) acc str w =
     (case mi_alloc_results w of
        (None, w1) \<Rightarrow> Inr (None, acc, w1)
      | (Some _, w1) \<Rightarrow>
          bnd (get_value n str w1) (\<lambda>(e, x, w2).
            case e of
              None \<Rightarrow> Inr (None, acc, mi_free_results [MiRes None x] w2)
            | Some str1 \<Rightarrow>
                let acc1 = acc @ [MiRes None x] in
                bnd (deref str1) (\<lambda>c.
                  if c = closeC then Inr (Some (tl str1), acc1, w2)
                  else if c \<noteq> CHR '','' then Inr (None, acc1, w2\<lparr>mi_error := MI_PARSER\<rparr>)
                  else get_vals n acc1 (tl str1) w2)))"
    and close_char: "closeC \<in> {CHR '']'', CHR ''}''}"
begin

definition value_back :: "mi_val \<Rightarrow> bool" where
  "value_back x \<longleftrightarrow> (\<forall>n p w. 3 * length (print_v x) + 1 \<le> n \<longrightarrow> sep p \<longrightarrow> oom w = [] \<longrightarrow>
     get_value n (print_v x @ p) w = Inr (Some p, x, add_live (blocks_v x) w))"

lemma vals_back:
  assumes "\<forall>r\<in>set rs. r_var r = None \<and> value_back (r_val r)" and "rs \<noteq> []"
    and "3 * length (commas (map print_r rs)) + 5 \<le> n" and "oom w = []"
  shows "get_vals n acc (commas (map print_r rs) @ closeC # p) w =
    Inr (Some p, acc @ rs, add_live (blocks_l rs) w)"
  using assms
proof (induction rs arbitrary: n acc w)
  case (Cons r rs)
  from Cons.prems(3) obtain m where n: "n = Suc m" by (cases n) auto
  obtain x where r: "r = MiRes None x" using Cons.prems(1) by (cases r) auto
  show ?case
  proof (cases rs)
    case Nil
    have "get_value m (print_v x @ closeC # p) (add_live 1 w) =
        Inr (Some (closeC # p), x, add_live (blocks_v x) (add_live 1 w))"
      using Cons.prems Nil n r close_char by (auto simp: value_back_def)
    with Nil r show ?thesis using Cons.prems(4) by (simp add: n add.assoc vals_step)
  next
    case (Cons r' rs')
    let ?q = "commas (map print_r rs) @ closeC # p"
    have "get_value m (print_v x @ CHR '','' # ?q) (add_live 1 w) =
        Inr (Some (CHR '','' # ?q), x, add_live (blocks_v x) (add_live 1 w))"
      using Cons.prems Cons n r by (auto simp: value_back_def)
    moreover have "get_vals m (acc @ [r]) ?q (add_live (blocks_v x) (add_live 1 w)) =
      Inr (Some p, (acc @ [r]) @ rs, add_live (blocks_l rs) (add_live (blocks_v x) (add_live 1 w)))"
      using Cons.prems Cons n by (subst Cons.IH) auto
    ultimately show ?thesis
      using Cons r Cons.prems(4) close_char by (auto simp: n algebra_simps vals_step)
  qed
qed simp

end

section \<open>The readers of values, lists and results\<close>

text \<open>The steps that are the same in every build: all but that of \<open>mi_get_tuple\<close>.\<close>

locale value_reader = value_loop get_value get_vals "CHR '']''"
  for get_value :: "nat \<Rightarrow> cptr \<Rightarrow> world \<Rightarrow> (cptr option \<times> mi_val \<times> world) run"
    and get_vals :: "nat \<Rightarrow> mi_results list \<Rightarrow> cptr \<Rightarrow> world \<Rightarrow> (cptr option \<times> mi_results list \<times> world) run" +
  fixes get_list_res :: "nat \<Rightarrow> mi_results list \<Rightarrow> bool \<Rightarrow> cptr \<Rightarrow> char \<Rightarrow> world
      \<Rightarrow> (cptr option \<times> mi_results list \<times> world) run"
    and get_tuple get_list :: "nat \<Rightarrow> cptr \<Rightarrow> world \<Rightarrow> (cptr option \<times> mi_val \<times> world) run"
    and get_result :: "nat \<Rightarrow> cptr \<Rightarrow> world \<Rightarrow> ((mi_results \<times> cptr) option \<times> world) run"
  assumes list_res_step: "get_list_res (Suc n) acc last_r str ch w =
     bnd (get_result n str w) (\<lambda>(rs, w1).
       let acc1 = (case rs of
                     Some (node, _) \<Rightarrow> if last_r then acc @ [node] else [node]
                   | None \<Rightarrow> if last_r then acc else []);
           str1 = (case rs of Some (_, e) \<Rightarrow> e | None \<Rightarrow> str)
       in bnd (deref str1) (\<lambda>c.
         if c = ch then Inr (Some (tl str1), acc1, w1)
         else if c \<noteq> CHR '','' then Inr (None, acc1, w1\<lparr>mi_error := MI_PARSER\<rparr>)
         else get_list_res n acc1 (rs \<noteq> None) (tl str1) ch w1))"
    and list_step: "get_list (Suc n) str w = bnd (deref str) (\<lambda>c.
     if c \<noteq> CHR ''['' then Inr (None, VConst None, w\<lparr>mi_error := MI_PARSER\<rparr>)
     else bnd (deref (tl str)) (\<lambda>d.
       if d = CHR '']'' then Inr (Some (tl (tl str)), VList [], w)
       else if mi_is_var_name_char d
       then bnd (get_list_res n [] False (tl str) CHR '']'' w) (\<lambda>(e, l, w1). Inr (e, VList l, w1))
       else bnd (get_vals n [] (tl str) w) (\<lambda>(e, l, w1). Inr (e, VList l, w1))))"
    and value_step: "get_value (Suc n) str w = bnd (deref str) (\<lambda>c.
     if c = QUOTE then mi_get_cstring_r str w
     else if c = CHR ''{'' then get_tuple n str w
     else if c = CHR ''['' then get_list n str w
     else Inr (None, VConst None, w\<lparr>mi_error := MI_PARSER\<rparr>))"
    and result_step: "get_result (Suc n) str w =
     bnd (mi_get_var_name str w) (\<lambda>(var, w1).
       case var of
         None \<Rightarrow> Inr (None, w1)
       | Some (v, s) \<Rightarrow>
           (case mi_alloc_results w1 of
              (None, w2) \<Rightarrow> Inr (None, c_free (Some v) w2)
            | (Some _, w2) \<Rightarrow>
                bnd (get_value n s w2) (\<lambda>(e, x, w3).
                  case e of
                    None \<Rightarrow> Inr (None, mi_free_results [MiRes (Some v) x] w3)
                  | Some q \<Rightarrow> Inr (Some (MiRes (Some v) x, q), w3))))"
begin

definition result_back :: "mi_results \<Rightarrow> bool" where
  "result_back r \<longleftrightarrow> (\<forall>n p w. 3 * length (print_r r) + 1 \<le> n \<longrightarrow> sep p \<longrightarrow> oom w = [] \<longrightarrow>
     get_result n (print_r r @ p) w = Inr (Some (r, p), add_live (blocks_r r) w))"

lemma list_res_back:
  assumes "\<forall>r\<in>set rs. result_back r" and "rs \<noteq> []" and "ch \<in> {CHR '']'', CHR ''}''}"
    and "3 * length (commas (map print_r rs)) + 5 \<le> n" and "oom w = []"
  shows "get_list_res n acc last_r (commas (map print_r rs) @ ch # p) ch w =
    Inr (Some p, (if last_r then acc else []) @ rs, add_live (blocks_l rs) w)"
  using assms
proof (induction rs arbitrary: n acc last_r w)
  case (Cons r rs)
  from Cons.prems(4) obtain m where n: "n = Suc m" by (cases n) auto
  show ?case
  proof (cases rs)
    case Nil
    have "get_result m (print_r r @ ch # p) w =
        Inr (Some (r, ch # p), add_live (blocks_r r) w)"
      using Cons.prems Nil n by (auto simp: result_back_def)
    with Nil show ?thesis by (simp add: n list_res_step)
  next
    case (Cons r' rs')
    let ?q = "commas (map print_r rs) @ ch # p"
    have "get_result m (print_r r @ CHR '','' # ?q) w =
        Inr (Some (r, CHR '','' # ?q), add_live (blocks_r r) w)"
      using Cons.prems Cons n by (auto simp: result_back_def)
    moreover have "get_list_res m ((if last_r then acc else []) @ [r]) True ?q ch
        (add_live (blocks_r r) w) =
      Inr (Some p, ((if last_r then acc else []) @ [r]) @ rs, add_live (blocks_l rs) (add_live (blocks_r r) w))"
      using Cons.prems Cons n by (subst Cons.IH) auto
    ultimately show ?thesis
      using Cons Cons.prems(3) by (auto simp: n algebra_simps list_res_step)
  qed
qed simp

lemma list_back:
  assumes "\<forall>r\<in>set rs. value_back (r_val r) \<and> (r_var r \<noteq> None \<longrightarrow> result_back r)"
    and "named_all rs \<or> bare_all rs"
  shows "value_back (VList rs)"
  unfolding value_back_def
proof (intro allI impI)
  fix n p and w :: world
  assume n: "3 * length (print_v (VList rs)) + 1 \<le> n" and "sep p" and w: "oom w = []"
  then obtain m where m: "n = Suc (Suc m)" by (cases n; cases "n - 1") auto
  note steps = value_step list_step
  show "get_value n (print_v (VList rs) @ p) w = Inr (Some p, VList rs, add_live (blocks_v (VList rs)) w)"
  proof (cases "rs = []")
    case False
    show ?thesis
    proof (cases "bare_all rs")
      case True
      have "get_vals m [] (commas (map print_r rs) @ CHR '']'' # p) w =
          Inr (Some p, [] @ rs, add_live (blocks_l rs) w)"
        using assms n m w False True by (intro vals_back) (auto simp: bare_all_def)
      with bare_all_hd [OF True False] show ?thesis using False by (auto simp: m steps)
    next
      case named: False
      have "get_list_res m [] False (commas (map print_r rs) @ CHR '']'' # p) CHR '']'' w =
          Inr (Some p, (if False then [] else []) @ rs, add_live (blocks_l rs) w)"
        using assms n m w False named by (intro list_res_back) (auto simp: named_all_def)
      with named_all_hd [of rs] assms(2) named False show ?thesis by (auto simp: m steps)
    qed
  qed (simp add: m steps)
qed

lemma const_back: "s \<noteq> None \<and> NUL \<notin> set (the s) \<Longrightarrow> value_back (VConst s)"
  unfolding value_back_def
proof (intro allI impI)
  fix n p and w :: world
  assume s: "s \<noteq> None \<and> NUL \<notin> set (the s)" and "3 * length (print_v (VConst s)) + 1 \<le> n" "sep p" "oom w = []"
  moreover then obtain m where "n = Suc m" by (cases n) auto
  ultimately show "get_value n (print_v (VConst s) @ p) w =
      Inr (Some p, VConst s, add_live (blocks_v (VConst s)) w)"
    by (auto simp: value_step const_print split: option.splits)
qed

lemma named_back:
  assumes "value_back x" and "good_name (Some v)"
  shows "result_back (MiRes (Some v) x)"
  unfolding result_back_def
proof (intro allI impI)
  fix n p and w :: world
  assume "3 * length (print_r (MiRes (Some v) x)) + 1 \<le> n" "sep p" "oom w = []"
  moreover then obtain m where "n = Suc m" by (cases n) auto
  ultimately show "get_result n (print_r (MiRes (Some v) x) @ p) w =
      Inr (Some (MiRes (Some v) x, p), add_live (blocks_r (MiRes (Some v) x)) w)"
    using assms by (simp add: result_step name_print good_name_def value_back_def)
qed

end

end
