(* ===== verification/MI_Roundtrip.thy ===== *)
theory MI_Roundtrip
  imports MI_Reader
begin

text \<open>
  The parser of \<open>src/parse.c\<close> reads back what the printer of MI records writes: same tree, all bytes used,
  exactly the blocks of the tree taken from the heap.
\<close>

text \<open>A tree the printer writes: complete, and the first name in a list of results is not empty.\<close>

fun solid_r :: "mi_results \<Rightarrow> bool" and solid_v :: "mi_val \<Rightarrow> bool" where
  "solid_r (MiRes v x) \<longleftrightarrow> good_name v \<and> solid_v x"
| "solid_v (VConst s) \<longleftrightarrow> (case s of None \<Rightarrow> False | Some t \<Rightarrow> NUL \<notin> set t)"
| "solid_v (VTuple rs) \<longleftrightarrow> (\<forall>r\<in>set rs. r_var r \<noteq> None \<and> solid_r r)"
| "solid_v (VList rs) \<longleftrightarrow>
     ((\<forall>r\<in>set rs. r_var r \<noteq> None \<and> r_var r \<noteq> Some []) \<or> (\<forall>r\<in>set rs. r_var r = None)) \<and>
     (\<forall>r\<in>set rs. solid_r r)"

section \<open>Values\<close>

lemma solid_facts:
  assumes "solid_r r"
  shows "good_name (r_var r)" and "r_val r \<noteq> VConst None"
  using assms by (cases r; auto)+

interpretation linux: value_reader mi_get_value mi_get_list_val mi_get_list_res mi_get_tuple mi_get_list mi_get_result
  by unfold_locales (rule mi_get_list_val.simps mi_get_list_res.simps mi_get_list.simps mi_get_value.simps
      mi_get_result.simps | simp)+

lemma tuple_back:
  assumes "\<forall>r\<in>set rs. linux.result_back r" and "\<forall>r\<in>set rs. r_var r \<noteq> None \<and> solid_r r"
  shows "linux.value_back (VTuple rs)"
  unfolding linux.value_back_def
proof (intro allI impI)
  fix n p and w :: world
  assume n: "3 * length (print_v (VTuple rs)) + 1 \<le> n" and "sep p" and w: "oom w = []"
  then obtain m where m: "n = Suc (Suc m)" by (cases n; cases "n - 1") auto
  show "mi_get_value n (print_v (VTuple rs) @ p) w =
      Inr (Some p, VTuple rs, add_live (blocks_v (VTuple rs)) w)"
  proof (cases rs)
    case (Cons r rs')
    then obtain t where t: "commas (map print_r rs) = hd (print_r r) # t"
      using hd_commas [of rs] hd_print_named [of r] solid_facts(1) [of r] assms(2) by auto
    have "mi_get_list_res m [] False (commas (map print_r rs) @ CHR ''}'' # p) CHR ''}'' w =
        Inr (Some p, (if False then [] else []) @ rs, add_live (blocks_l rs) w)"
      using assms n m w Cons by (intro linux.list_res_back) auto
    with t show ?thesis
      using hd_print_named [of r] solid_facts(1) [of r] assms(2) Cons by (simp add: m)
  qed (simp add: m)
qed

lemma print_back:
  "solid_r r \<Longrightarrow> linux.value_back (r_val r) \<and> (r_var r \<noteq> None \<longrightarrow> linux.result_back r)"
  "solid_v x \<Longrightarrow> linux.value_back x"
proof (induction r and x rule: print_r_print_v.induct)
  case (1 v x)
  then show ?case by (auto intro: linux.named_back)
next
  case (3 rs)
  then show ?case by (auto intro!: tuple_back)
next
  case (4 rs)
  then show ?case by (intro linux.list_back) (auto simp: named_all_def bare_all_def solid_facts)
qed (rule linux.const_back, auto split: option.splits)

section \<open>Records\<close>

definition class_text :: "(nat \<times> string) list" where
  "class_text = [(MI_CL_DONE, ''done''), (MI_CL_RUNNING, ''running''),
     (MI_CL_CONNECTED, ''connected''), (MI_CL_ERROR, ''error''), (MI_CL_EXIT, ''exit'')]"

definition asyn_text :: "(nat \<times> string) list" where
  "asyn_text = [(MI_CL_STOPPED, ''stopped''), (MI_CL_DOWNLOAD, ''download'')]"

definition text_of :: "(nat \<times> string) list \<Rightarrow> nat \<Rightarrow> string" where
  "text_of tab k = (case map_of tab k of None \<Rightarrow> [] | Some s \<Rightarrow> s)"

definition print_results :: "mi_results list \<Rightarrow> string" where
  "print_results rs = concat (map (\<lambda>r. CHR '','' # print_r r) rs)"

definition print_output :: "mi_output \<Rightarrow> string" where
  "print_output r =
     (if o_type r = MI_T_RESULT_RECORD
      then ''^'' @ text_of class_text (o_tclass r) @ print_results (o_c r)
      else if o_stype r = MI_ST_ASYNC
      then [''*+='' ! o_sstype r] @ text_of asyn_text (o_tclass r) @ print_results (o_c r)
      else [''~@&'' ! (o_sstype r - 3)] @ concat (map print_r (o_c r)))"

definition solid_output :: "mi_output \<Rightarrow> bool" where
  "solid_output r \<longleftrightarrow> record_ok r \<and> (\<forall>x\<in>set (o_c r). solid_r x)"

lemma print_results_Cons [simp]:
  "print_results [] = []"
  "print_results (r # rs) = CHR '','' # print_r r @ print_results rs"
  by (simp_all add: print_results_def)

lemma sep_print_results: "sep (print_results rs @ NUL # p)"
  by (cases rs) simp_all

lemma results_alone_back:
  assumes "\<forall>x\<in>set rs. r_var x \<noteq> None \<and> solid_r x" and "oom w = []"
    and "3 * length (print_results rs) + 1 \<le> n" and "\<not> last_r \<longrightarrow> o_c r = []"
  shows "mi_get_results_alone n r last_r (print_results rs @ NUL # junk) w =
    Inr (Some (r\<lparr>o_c := o_c r @ rs\<rparr>), add_live (blocks_l rs) w)"
  using assms
proof (induction rs arbitrary: n r last_r w)
  case Nil
  then obtain m where "n = Suc m" by (cases n) auto
  then show ?case by simp
next
  case (Cons x rs)
  then obtain m where n: "n = Suc m" by (cases n) auto
  have "mi_get_result m (print_r x @ print_results rs @ NUL # junk) w =
      Inr (Some (x, print_results rs @ NUL # junk), add_live (blocks_r x) w)"
    using Cons.prems n print_back(1) [of x] sep_print_results by (auto simp: linux.result_back_def)
  moreover have "(if last_r then o_c r @ [x] else [x]) = o_c r @ [x]"
    using Cons.prems(4) by simp
  ultimately show ?case
    using Cons.prems n by (simp add: Cons.IH algebra_simps)
qed

lemma results_alone_fresh:
  assumes "\<forall>x\<in>set rs. r_var x \<noteq> None \<and> solid_r x" and "oom w = []"
    and "3 * length (print_results rs) + 1 \<le> n"
  shows "mi_get_results_alone n \<lparr>o_type = a, o_stype = b, o_sstype = c, o_tclass = d, o_c = []\<rparr> False
      (print_results rs @ NUL # junk) w =
    Inr (Some \<lparr>o_type = a, o_stype = b, o_sstype = c, o_tclass = d, o_c = rs\<rparr>, add_live (blocks_l rs) w)"
  using assms by (subst results_alone_back) simp_all

lemma result_record_back:
  assumes "\<forall>x\<in>set rs. r_var x \<noteq> None \<and> solid_r x" and "oom w = []"
    and "k \<in> {MI_CL_DONE, MI_CL_RUNNING, MI_CL_CONNECTED, MI_CL_ERROR, MI_CL_EXIT}"
    and "3 * length (print_results rs) + 1 \<le> n"
  shows "mi_parse_result_record n fresh_output (text_of class_text k @ print_results rs @ NUL # junk) w =
    Inr (Some \<lparr>o_type = MI_T_RESULT_RECORD, o_stype = 0, o_sstype = 0, o_tclass = k, o_c = rs\<rparr>,
      add_live (blocks_l rs) w)"
  using assms results_alone_fresh [OF assms(1,2,4)]
  by (auto simp: mi_parse_result_record_def text_of_def class_text_def record_codes)

lemma asyn_back:
  assumes "\<forall>x\<in>set rs. r_var x \<noteq> None \<and> solid_r x" and "oom w = []"
    and "k \<in> {MI_CL_STOPPED, MI_CL_DOWNLOAD}"
    and "3 * length (print_results rs) + 1 \<le> n"
  shows "mi_parse_asyn n (fresh_output\<lparr>o_sstype := sst\<rparr>)
      (text_of asyn_text k @ print_results rs @ NUL # junk) w =
    Inr (Some \<lparr>o_type = MI_T_OUT_OF_BAND, o_stype = MI_ST_ASYNC, o_sstype = sst, o_tclass = k,
      o_c = rs\<rparr>, add_live (blocks_l rs) w)"
  using assms results_alone_fresh [OF assms(1,2,4)]
  by (auto simp: mi_parse_asyn_def text_of_def asyn_text_def record_codes)

lemma console_back:
  assumes "NUL \<notin> set s" and "oom w = []"
  shows "mi_console (fresh_output\<lparr>o_sstype := sst\<rparr>)
      (QUOTE # concat (map esc s) @ QUOTE # NUL # junk) w =
    Inr (Some \<lparr>o_type = MI_T_OUT_OF_BAND, o_stype = MI_ST_STREAM, o_sstype = sst, o_tclass = 0,
      o_c = [MiRes None (VConst (Some s))]\<rparr>, add_live 2 w)"
  using assms by (simp add: mi_console_def const_print)

lemma record_cases:
  assumes "record_ok r"
  obtains (result) k rs where "r = \<lparr>o_type = MI_T_RESULT_RECORD, o_stype = 0, o_sstype = 0, o_tclass = k, o_c = rs\<rparr>"
      "k \<in> {MI_CL_DONE, MI_CL_RUNNING, MI_CL_CONNECTED, MI_CL_ERROR, MI_CL_EXIT}"
      "\<forall>x\<in>set rs. r_var x \<noteq> None"
  | (asyn) sst k rs where "r = \<lparr>o_type = MI_T_OUT_OF_BAND, o_stype = MI_ST_ASYNC, o_sstype = sst, o_tclass = k, o_c = rs\<rparr>"
      "sst \<in> {MI_SST_EXEC, MI_SST_STATUS, MI_SST_NOTIFY}" "k \<in> {MI_CL_STOPPED, MI_CL_DOWNLOAD}"
      "\<forall>x\<in>set rs. r_var x \<noteq> None"
  | (stream) sst s where "r = \<lparr>o_type = MI_T_OUT_OF_BAND, o_stype = MI_ST_STREAM, o_sstype = sst, o_tclass = 0,
        o_c = [MiRes None (VConst (Some s))]\<rparr>"
      "sst \<in> {MI_SST_CONSOLE, MI_SST_TARGET, MI_SST_LOG}" "NUL \<notin> set s"
  using assms by (cases r) (auto simp: record_ok_def)

lemma parse_print_junk:
  assumes "solid_output r" and "oom w = []"
  shows "mi_parse_gdb_output (print_output r @ NUL # junk) w = Inr (Some r, add_live (blocks_o r) w)"
proof -
  have "record_ok r" and solid: "\<forall>x\<in>set (o_c r). solid_r x"
    using assms(1) by (simp_all add: solid_output_def)
  from this(1) show ?thesis
  proof (cases rule: record_cases)
    case (result k rs)
    then show ?thesis
      using result_record_back [of rs "add_live 1 w" k
          "parse_fuel (text_of class_text k @ print_results rs @ NUL # junk)"] assms solid
      by (simp add: print_output_def cbuf_def mi_parse_gdb_output_def parse_fuel_def blocks_o_def
          record_codes add.assoc)
  next
    case (asyn sst k rs)
    then show ?thesis
      using asyn_back [of rs "add_live 1 w" k
          "parse_fuel (text_of asyn_text k @ print_results rs @ NUL # junk)"] assms solid
      by (auto simp add: print_output_def cbuf_def mi_parse_gdb_output_def parse_fuel_def blocks_o_def
          record_codes add.assoc mi_parse_exec_asyn_def mi_parse_status_asyn_def
          mi_parse_notify_asyn_def)
  next
    case (stream sst s)
    then show ?thesis
      using console_back [of s "add_live 1 w"] assms
      by (auto simp add: print_output_def cbuf_def mi_parse_gdb_output_def blocks_o_def
          record_codes add.assoc mi_console_stream_def mi_target_stream_def mi_log_stream_def)
  qed
qed

text \<open>
  C1: Round trip. For every record of the MI grammar, parsing its printed form returns that
  record, and takes from the heap exactly the blocks the record owns.
\<close>

theorem parse_print_output:
  assumes "solid_output r" and "oom w = []"
  shows "mi_parse_gdb_output (cbuf (print_output r)) w = Inr (Some r, add_live (blocks_o r) w)"
  unfolding cbuf_def using assms by (rule parse_print_junk)

theorem parse_print_output_witness:
  "mi_parse_gdb_output (cbuf ''^done,frame={level=\"0\",args=[]},names=[\"a\",\"b\"]'')
      \<lparr>mi_error = 0, oom = [], live = 0\<rparr> =
    Inr (Some \<lparr>o_type = 1, o_stype = 0, o_sstype = 0, o_tclass = 2,
      o_c = [MiRes (Some ''frame'') (VTuple [MiRes (Some ''level'') (VConst (Some ''0'')),
               MiRes (Some ''args'') (VList [])]),
             MiRes (Some ''names'') (VList [MiRes None (VConst (Some ''a'')),
               MiRes None (VConst (Some ''b''))])]\<rparr>,
      \<lparr>mi_error = 0, oom = [], live = 14\<rparr>)"
  using parse_print_output [of "\<lparr>o_type = 1, o_stype = 0, o_sstype = 0, o_tclass = 2,
      o_c = [MiRes (Some ''frame'') (VTuple [MiRes (Some ''level'') (VConst (Some ''0'')),
               MiRes (Some ''args'') (VList [])]),
             MiRes (Some ''names'') (VList [MiRes None (VConst (Some ''a'')),
               MiRes None (VConst (Some ''b''))])]\<rparr>" "\<lparr>mi_error = 0, oom = [], live = 0\<rparr>"]
  by (simp add: solid_output_def record_ok_def record_codes good_name_def mi_is_var_name_char_def
      isalnum_def is_digit_def print_output_def text_of_def class_text_def print_results_def
      blocks_o_def)

end
