(* ===== verification/MI_Session.thy ===== *)
theory MI_Session
  imports MI_Connect MI_Roundtrip
begin

text \<open>
  What the connection of \<open>MI_Connect\<close> guarantees: the line reader stays inside its buffer whatever
  arrives and whatever allocation fails, a line may arrive in pieces, and a response written by gdb
  is delivered record by record, in order, with its streams handed to the callbacks.
\<close>

section \<open>The line buffer\<close>

definition buf_ok :: "mi_h \<Rightarrow> bool" where
  "buf_ok h \<longleftrightarrow> (case line h of None \<Rightarrow> llen h = 0 | Some b \<Rightarrow> length b = llen h) \<and> lread h \<le> llen h"

text \<open>The characters of the line being read.\<close>

definition partial_line :: "mi_h \<Rightarrow> string" where
  "partial_line h = (case line h of None \<Rightarrow> [] | Some b \<Rightarrow> take (lread h) b)"

text \<open>Space for one more character: what the head of the loop leaves.\<close>

definition room :: "(nat \<Rightarrow> char) \<Rightarrow> mi_h \<Rightarrow> mi_h" where
  "room jk h = (if llen h \<le> lread h
     then h\<lparr>line := Some (partial_line h @ map jk [lread h..<lread h + 128]), llen := lread h + 128\<rparr>
     else h)"

lemma room_ok:
  assumes "buf_ok h"
  shows "buf_ok (room jk h)" and "lread (room jk h) < llen (room jk h)" and "partial_line (room jk h) = partial_line h"
    and "line (room jk h) \<noteq> None"
  using assms by (auto simp: room_def buf_ok_def partial_line_def split: option.splits)

lemma c_realloc_ok:
  assumes "oom w = []" and "case p of None \<Rightarrow> k \<le> 0 | Some b \<Rightarrow> length b \<le> n \<and> k = length b"
  shows "c_realloc p n jk w =
    (Some ((case p of None \<Rightarrow> [] | Some b \<Rightarrow> b) @ map jk [k..<n]), add_live (1 - own p) w)"
  using assms by (cases p) (simp_all add: c_realloc_def Let_def)

lemma write_line_ok:
  assumes "line h = Some b" and "lread h < length b"
  shows "write_line (lread h) ch h = Inr (h\<lparr>line := Some (b[lread h := ch])\<rparr>)"
  using assms by (simp add: write_line_def)

lemma getline_step:
  assumes "buf_ok h" and "oom w = []"
  shows "getline_loop (Some ch # rs) jk h w =
    (let h1 = room jk h; w1 = (if llen h \<le> lread h then add_live (1 - own (line h)) w else w) in
     if ch = NEWLINE then bnd (write_line (lread h1) NUL h1) (\<lambda>h2. Inr (int (lread h1), rs, h2\<lparr>lread := 0\<rparr>, w1))
     else if ch \<noteq> CRET then bnd (write_line (lread h1) ch h1) (\<lambda>h2. getline_loop rs jk (h2\<lparr>lread := lread h2 + 1\<rparr>) w1)
     else getline_loop rs jk h1 w1)"
proof (cases "llen h \<le> lread h")
  case True
  then have "c_realloc (line h) (lread h + 128) jk w =
      (Some (partial_line h @ map jk [lread h..<lread h + 128]), add_live (1 - own (line h)) w)"
    using assms by (subst c_realloc_ok [where k = "lread h"]) (auto simp: buf_ok_def partial_line_def split: option.splits)
  with True show ?thesis by (simp add: room_def Let_def)
next
  case False
  then show ?thesis by (simp add: room_def Let_def)
qed

declare getline_loop.simps(3) [simp del]

lemma put_char:
  assumes "buf_ok h" and "oom w = []"
  obtains b where "line (room jk h) = Some b" "lread (room jk h) < length b"
    "write_line (lread (room jk h)) ch (room jk h) = Inr (room jk h\<lparr>line := Some (b[lread (room jk h) := ch])\<rparr>)"
    "take (lread (room jk h)) b = partial_line h"
proof -
  obtain b where b: "line (room jk h) = Some b" using room_ok(4) [OF assms(1)] by auto
  then have "lread (room jk h) < length b"
    using room_ok(1,2) [OF assms(1), of jk] by (simp add: buf_ok_def)
  with b room_ok(3) [OF assms(1), of jk] show thesis
    by (intro that [OF b]) (auto simp: write_line_ok partial_line_def)
qed

lemma room_own: "buf_ok h \<Longrightarrow> own (line (room jk h)) = 1"
  using room_ok(4) [of h jk] by (cases "line (room jk h)") auto

text \<open>What changes in the handle while a line is read.\<close>

definition line_upd :: "cptr \<Rightarrow> nat \<Rightarrow> mi_h \<Rightarrow> mi_h" where
  "line_upd b k h = h\<lparr>line := Some b, llen := length b, lread := k\<rparr>"

lemma getline_text:
  assumes "buf_ok h" and "oom w = []" and "NEWLINE \<notin> set s"
  shows "\<exists>tail. getline_loop (map Some s @ Some NEWLINE # rs) jk h w =
    Inr (int (length (partial_line h @ filter (\<lambda>c. c \<noteq> CRET) s)), rs,
      line_upd ((partial_line h @ filter (\<lambda>c. c \<noteq> CRET) s) @ NUL # tail) 0 h, add_live (1 - own (line h)) w)"
  using assms
proof (induction s arbitrary: h w)
  case Nil
  obtain b where b: "line (room jk h) = Some b" "lread (room jk h) < length b"
    "write_line (lread (room jk h)) NUL (room jk h) = Inr (room jk h\<lparr>line := Some (b[lread (room jk h) := NUL])\<rparr>)"
    "take (lread (room jk h)) b = partial_line h"
    using put_char [OF Nil.prems(1,2)] by metis
  have len: "length (partial_line h) = lread (room jk h)" using b(2,4) by (metis length_take min.strict_order_iff less_imp_le min.absorb2)
  have "b[lread (room jk h) := NUL] = partial_line h @ NUL # drop (Suc (lread (room jk h))) b"
    using b(2,4) by (simp add: upd_conv_take_nth_drop)
  moreover have "llen (room jk h) = length b" using room_ok(1) [OF Nil.prems(1), of jk] b(1) by (simp add: buf_ok_def)
  moreover have "own (line h) = 1" if "\<not> llen h \<le> lread h"
    using that Nil.prems(1) by (cases "line h") (auto simp: buf_ok_def)
  ultimately show ?case
    using b len Nil.prems
    by (intro exI [of _ "drop (Suc (lread (room jk h))) b"])
      (simp add: getline_step Let_def line_upd_def, simp add: room_def)
next
  case (Cons c s)
  obtain b where b: "line (room jk h) = Some b" "lread (room jk h) < length b"
    "write_line (lread (room jk h)) c (room jk h) = Inr (room jk h\<lparr>line := Some (b[lread (room jk h) := c])\<rparr>)"
    "take (lread (room jk h)) b = partial_line h"
    using put_char [OF Cons.prems(1,2)] by metis
  let ?w = "if llen h \<le> lread h then add_live (1 - own (line h)) w else w"
  let ?h = "room jk h\<lparr>line := Some (b[lread (room jk h) := c]), lread := lread (room jk h) + 1\<rparr>"
  have o1: "own (line h) = 1" if "\<not> llen h \<le> lread h"
    using that Cons.prems(1) by (cases "line h") (auto simp: buf_ok_def)
  have ok: "buf_ok (room jk h)" and cu: "partial_line (room jk h) = partial_line h"
    using room_ok [OF Cons.prems(1), of jk] by auto
  have upd: "line_upd x 0 (room jk h) = line_upd x 0 h" "line_upd x 0 ?h = line_upd x 0 h" for x
    by (auto simp: line_upd_def room_def)
  show ?case
  proof (cases "c = CRET")
    case True
    with Cons.IH [of "room jk h" ?w] Cons.prems ok cu upd o1 room_own [OF Cons.prems(1), of jk]
    show ?thesis by (auto simp: getline_step Let_def)
  next
    case False
    have ok': "buf_ok ?h" using ok b(1,2) by (auto simp: buf_ok_def)
    have cu': "partial_line ?h = partial_line h @ [c]" using b(2,4) by (simp add: partial_line_def take_Suc_conv_app_nth)
    have w: "oom ?w = []" using Cons.prems(2) by simp
    obtain tail where "getline_loop (map Some s @ Some NEWLINE # rs) jk ?h ?w =
        Inr (int (length (partial_line ?h @ filter (\<lambda>c. c \<noteq> CRET) s)), rs,
          line_upd ((partial_line ?h @ filter (\<lambda>c. c \<noteq> CRET) s) @ NUL # tail) 0 ?h,
          add_live (1 - own (line ?h)) ?w)"
      using Cons.IH [OF ok' w] Cons.prems(3) by auto
    with Cons.prems False b(3) cu' upd o1 show ?thesis
      by (intro exI [of _ tail]) (auto simp: getline_step Let_def)
  qed
qed


text \<open>Bytes with no newline and then nothing to read: the line is kept for the next call.\<close>

lemma getline_part:
  assumes "buf_ok h" and "oom w = []" and "NEWLINE \<notin> set s"
  shows "\<exists>h1 k. getline_loop (map Some s @ None # rs) jk h w = Inr (0, rs, h1, add_live k w) \<and>
    buf_ok h1 \<and> partial_line h1 = partial_line h @ filter (\<lambda>c. c \<noteq> CRET) s \<and>
    (\<forall>b. line_upd b 0 h1 = line_upd b 0 h) \<and> k = own (line h1) - own (line h)"
  using assms
proof (induction s arbitrary: h w)
  case Nil
  then show ?case by (auto intro!: exI [of _ h])
next
  case (Cons c s)
  obtain b where b: "line (room jk h) = Some b" "lread (room jk h) < length b"
    "write_line (lread (room jk h)) c (room jk h) = Inr (room jk h\<lparr>line := Some (b[lread (room jk h) := c])\<rparr>)"
    "take (lread (room jk h)) b = partial_line h"
    using put_char [OF Cons.prems(1,2)] by metis
  let ?w = "if llen h \<le> lread h then add_live (1 - own (line h)) w else w"
  let ?h = "if c = CRET then room jk h
    else room jk h\<lparr>line := Some (b[lread (room jk h) := c]), lread := lread (room jk h) + 1\<rparr>"
  have o1: "own (line h) = 1" if "\<not> llen h \<le> lread h"
    using that Cons.prems(1) by (cases "line h") (auto simp: buf_ok_def)
  have ok: "buf_ok (room jk h)" and cu: "partial_line (room jk h) = partial_line h"
    using room_ok [OF Cons.prems(1), of jk] by auto
  have upd: "line_upd x 0 ?h = line_upd x 0 h" for x
    by (auto simp: line_upd_def room_def)
  have ok': "buf_ok ?h" using ok b(1,2) by (auto simp: buf_ok_def)
  have cu': "partial_line ?h = partial_line h @ filter (\<lambda>c. c \<noteq> CRET) [c]"
    using b(1,2,4) cu by (auto simp add: partial_line_def take_Suc_conv_app_nth)
  have own': "own (line ?h) = 1" using b(1) by simp
  have w: "oom ?w = []" using Cons.prems(2) by simp
  obtain h1 k where ih: "getline_loop (map Some s @ None # rs) jk ?h ?w = Inr (0, rs, h1, add_live k ?w)"
    "buf_ok h1" "partial_line h1 = partial_line ?h @ filter (\<lambda>c. c \<noteq> CRET) s"
    "\<forall>b. line_upd b 0 h1 = line_upd b 0 ?h" "k = own (line h1) - own (line ?h)"
    using Cons.IH [OF ok' w] Cons.prems(3) by auto
  have "getline_loop (map Some (c # s) @ None # rs) jk h w = getline_loop (map Some s @ None # rs) jk ?h ?w"
    using Cons.prems b(3) by (auto simp: getline_step Let_def)
  with ih cu' upd own' o1 show ?case
    by (intro exI [of _ h1] exI [of _ "own (line h1) - own (line h)"]) auto
qed

text \<open>For any input and any allocation failures the reader stays inside its buffer.\<close>

definition getline_post :: "mi_h \<Rightarrow> world \<Rightarrow> int \<times> char option list \<times> mi_h \<times> world \<Rightarrow> bool" where
  "getline_post h w = (\<lambda>(r, rs, h1, w1). buf_ok h1 \<and>
     (0 < r \<longrightarrow> (\<exists>b. line h1 = Some b \<and> r < int (length b) \<and> b ! nat r = NUL)) \<and>
     (r < 0 \<longrightarrow> line h1 = None \<and> oom w \<noteq> []) \<and>
     live w + own (line h1) - own (line h) \<le> live w1)"

lemma getline_post_trans:
  "getline_post g w1 x \<Longrightarrow> oom w = [] \<longrightarrow> oom w1 = [] \<Longrightarrow>
     live w + own (line g) - own (line h) \<le> live w1 \<Longrightarrow> getline_post h w x"
  by (auto simp: getline_post_def)

lemma getline_safe: "buf_ok h \<Longrightarrow> wp (getline_loop rs jk h w) (getline_post h w) (\<lambda>_. False)"
proof (induction rs arbitrary: h w)
  case (Cons x rs)
  show ?case
  proof (cases x)
    case None
    with Cons.prems show ?thesis by (simp add: getline_post_def)
  next
    case (Some ch)
    obtain p n w1 where g: "(if llen h \<le> lread h
        then (let (q, w') = c_realloc (line h) (lread h + 128) jk w in (q, lread h + 128, w'))
        else (line h, llen h, w)) = (p, n, w1)"
      by (metis prod_cases3)
    show ?thesis
    proof (cases p)
      case None
      with g Cons.prems have "llen h \<le> lread h" "oom w \<noteq> []" "live w1 = live w"
        by (auto simp: c_realloc_def c_malloc_def Let_def buf_ok_def
            split: if_splits prod.splits list.splits)
      with None g Some show ?thesis
        by (simp add: getline_loop.simps(3) buf_ok_def getline_post_def)
    next
      case p: (Some b)
      let ?h1 = "h\<lparr>line := Some b, llen := n\<rparr>"
      let ?h2 = "h\<lparr>llen := n, line := Some (b[lread h := ch]), lread := lread h + 1\<rparr>"
      from p g Cons.prems have h1: "lread h < length b" "length b = n"
        and w1: "live w1 = live w + 1 - own (line h)" "oom w = [] \<longrightarrow> oom w1 = []"
        by (auto simp: c_realloc_def c_malloc_def Let_def buf_ok_def
            split: if_splits prod.splits list.splits option.splits)
      have "buf_ok ?h1" "buf_ok ?h2" using h1 by (simp_all add: buf_ok_def)
      then have "wp (getline_loop rs jk ?h1 w1) (getline_post h w) (\<lambda>_. False)"
        and "wp (getline_loop rs jk ?h2 w1) (getline_post h w) (\<lambda>_. False)"
        using w1 by (auto intro!: wp_mono [OF Cons.IH] elim!: getline_post_trans)
      moreover have "getline_post h w (int (lread h), rs, h\<lparr>llen := n, line := Some (b[lread h := NUL]), lread := 0\<rparr>, w1)"
        using h1 w1 by (simp add: getline_post_def buf_ok_def)
      ultimately show ?thesis
        using g Some p h1 by (simp add: getline_loop.simps(3) write_line_def)
    qed
  qed
qed (simp add: getline_post_def)

section \<open>One printed line\<close>

lemma esc_no_nl: "NEWLINE \<notin> set (esc c)"
  by simp

lemma name_no_nl: "list_all mi_is_var_name_char s \<Longrightarrow> NEWLINE \<notin> set s"
  by (auto simp: list_all_iff mi_is_var_name_char_def isalnum_def is_digit_def)

lemma set_commas: "set (commas xs) \<subseteq> insert CHR '','' (\<Union>x\<in>set xs. set x)"
  by (induction xs rule: commas.induct) auto

lemma print_no_nl:
  "solid_r r \<Longrightarrow> NEWLINE \<notin> set (print_r r)"
  "solid_v x \<Longrightarrow> NEWLINE \<notin> set (print_v x)"
proof (induction r and x rule: print_r_print_v.induct)
  case (1 v x)
  then show ?case by (auto simp: good_name_def dest: name_no_nl split: option.splits)
next
  case (2 s)
  then show ?case by (auto simp del: esc.simps simp: esc_no_nl split: option.splits)
next
  case (3 rs)
  then show ?case using set_commas [of "map print_r rs"] by auto
next
  case (4 rs)
  then show ?case using set_commas [of "map print_r rs"] by auto
qed

lemma print_results_no_nl: "\<forall>x\<in>set rs. solid_r x \<Longrightarrow> NEWLINE \<notin> set (print_results rs)"
  by (induction rs) (auto simp: print_no_nl)

lemma print_output_line:
  assumes "solid_output r"
  shows "NEWLINE \<notin> set (print_output r) \<and> print_output r \<noteq> [] \<and> hd (print_output r) \<noteq> CHR ''(''"
proof -
  have "record_ok r" and solid: "\<forall>x\<in>set (o_c r). solid_r x"
    using assms by (simp_all add: solid_output_def)
  from this(1) show ?thesis
  proof (cases rule: record_cases)
    case (result k rs)
    with solid print_results_no_nl [of rs] show ?thesis
      by (auto simp: print_output_def record_codes text_of_def class_text_def)
  next
    case (asyn sst k rs)
    with solid print_results_no_nl [of rs] show ?thesis
      by (auto simp: print_output_def record_codes text_of_def asyn_text_def)
  next
    case (stream sst s)
    with solid show ?thesis
      by (auto simp: print_output_def record_codes simp del: esc.simps simp: esc_no_nl)
  qed
qed

definition ready :: "conn \<Rightarrow> bool" where
  "ready c \<longleftrightarrow> buf_ok (c_h c) \<and> lread (c_h c) = 0 \<and> oom (c_w c) = [] \<and>
     (has_last (c_h c) \<longleftrightarrow> po (c_h c) \<noteq> [])"

definition echo :: "mi_h \<Rightarrow> string \<Rightarrow> event list" where
  "echo h s = (case from_gdb_echo h of None \<Rightarrow> [] | Some f \<Rightarrow> [Stream_call f (from_gdb_echo_data h) (Some s)])"

lemma print_no_NUL:
  "solid_r r \<Longrightarrow> NUL \<notin> set (print_r r)"
  "solid_v x \<Longrightarrow> NUL \<notin> set (print_v x)"
proof (induction r and x rule: print_r_print_v.induct)
  case (1 v x)
  then show ?case by (auto simp: good_name_def list_all_iff split: option.splits)
next
  case (2 s)
  then show ?case by (auto split: option.splits if_splits)
next
  case (3 rs)
  then show ?case using set_commas [of "map print_r rs"] by auto
next
  case (4 rs)
  then show ?case using set_commas [of "map print_r rs"] by auto
qed

lemma print_results_no_NUL: "\<forall>x\<in>set rs. solid_r x \<Longrightarrow> NUL \<notin> set (print_results rs)"
  by (induction rs) (auto simp: print_no_NUL)

lemma print_output_no_NUL:
  assumes "solid_output r"
  shows "NUL \<notin> set (print_output r)"
proof -
  have "record_ok r" and solid: "\<forall>x\<in>set (o_c r). solid_r x"
    using assms by (simp_all add: solid_output_def)
  from this(1) show ?thesis
  proof (cases rule: record_cases)
    case (result k rs)
    with solid print_results_no_NUL [of rs] show ?thesis
      by (auto simp: print_output_def record_codes text_of_def class_text_def)
  next
    case (asyn sst k rs)
    with solid print_results_no_NUL [of rs] show ?thesis
      by (auto simp: print_output_def record_codes text_of_def asyn_text_def)
  next
    case (stream sst s)
    with solid print_no_NUL(2) [of "VConst (Some s)"] show ?thesis
      by (auto simp: print_output_def record_codes simp del: esc.simps)
  qed
qed

lemma line_str_NUL: "NUL \<notin> set s \<Longrightarrow> line_str (s @ NUL # t) = s"
  by (induction s) (auto simp: line_str_def)

text \<open>The state after a line was read from gdb.\<close>

definition got_line :: "conn \<Rightarrow> char option list \<Rightarrow> string \<Rightarrow> cptr \<Rightarrow> conn" where
  "got_line c rs s tail = c\<lparr>reads := rs, c_h := line_upd (s @ NUL # tail) 0 (c_h c),
     c_w := add_live (1 - own (line (c_h c))) (c_w c)\<rparr>"

lemma mi_getline_line:
  assumes "ready c" and "reads c = map Some (s @ [NEWLINE]) @ rs"
    and "NEWLINE \<notin> set s" and "CRET \<notin> set s"
  obtains tail where "mi_getline c = Inr (int (length s), got_line c rs s tail)"
proof -
  have "filter (\<lambda>c. c \<noteq> CRET) s = s" using assms(4) by (induction s) auto
  moreover have "partial_line (c_h c) = []"
    using assms(1) by (auto simp: ready_def partial_line_def split: option.splits)
  ultimately obtain tail where "getline_loop (reads c) (junk c) (c_h c) (c_w c) =
      Inr (int (length s), rs, line_upd (s @ NUL # tail) 0 (c_h c), add_live (1 - own (line (c_h c))) (c_w c))"
    using getline_text [of "c_h c" "c_w c" s rs "junk c"] assms by (auto simp: ready_def)
  then show thesis by (intro that [of tail]) (simp add: mi_getline_def got_line_def)
qed

lemma line_upd_sel [simp]:
  "line (line_upd b k h) = Some b" "lread (line_upd b k h) = k" "llen (line_upd b k h) = length b"
  "po (line_upd b k h) = po h" "has_last (line_upd b k h) = has_last h"
  "from_gdb_echo (line_upd b k h) = from_gdb_echo h"
  "from_gdb_echo_data (line_upd b k h) = from_gdb_echo_data h"
  by (simp_all add: line_upd_def)

lemma response_of_line:
  assumes "ready c" and "solid_output r" and "CRET \<notin> set (print_output r)"
    and "reads c = map Some (print_output r @ [NEWLINE]) @ rs"
  obtains tail where "mi_get_response c = mi_record r
    (got_line c rs (print_output r) tail\<lparr>
       events := events c @ echo (c_h c) (print_output r),
       c_w := add_live (1 - own (line (c_h c)) + blocks_o r) (c_w c)\<rparr>)"
proof -
  note pl = print_output_line [OF assms(2)]
  obtain tail where gl: "mi_getline c = Inr (int (length (print_output r)), got_line c rs (print_output r) tail)"
    using mi_getline_line [OF assms(1,4)] pl assms(3) by blast
  obtain k t where pr: "print_output r = k # t" "k \<noteq> CHR ''(''" using pl by (cases "print_output r") auto
  have no: "strncmp_eq ''(gdb)'' (print_output r @ NUL # tail) = Inr False" using pr by simp
  have "mi_parse_gdb_output (print_output r @ NUL # tail) (add_live (1 - own (line (c_h c))) (c_w c)) =
      Inr (Some r, add_live (1 - own (line (c_h c)) + blocks_o r) (c_w c))"
    using parse_print_junk [OF assms(2), of "add_live (1 - own (line (c_h c))) (c_w c)" tail] assms(1)
    by (simp add: ready_def add.assoc)
  with gl no pl show thesis
    by (intro that [of tail])
      (simp add: mi_get_response_def com_defs got_line_def echo_def line_str_NUL
        print_output_no_NUL [OF assms(2)] split: option.splits)
qed

lemma response_of_prompt:
  assumes "ready c" and "reads c = map Some (''(gdb)'' @ [NEWLINE]) @ rs"
  obtains tail where "mi_get_response c =
    Inr (1, got_line c rs ''(gdb)'' tail\<lparr>events := events c @ echo (c_h c) ''(gdb)''\<rparr>)"
proof -
  obtain tail where "mi_getline c = Inr (int (length ''(gdb)''), got_line c rs ''(gdb)'' tail)"
    by (rule mi_getline_line [OF assms]) simp_all
  then show thesis
    by (intro that [of tail])
      (simp add: mi_get_response_def com_defs got_line_def echo_def line_str_def split: option.splits)
qed

section \<open>Delivery of a record\<close>

definition is_stream :: "mi_output \<Rightarrow> bool" where
  "is_stream r \<longleftrightarrow> o_type r = MI_T_OUT_OF_BAND \<and> o_stype r = MI_ST_STREAM"

text \<open>A record that does not end the response early and records no error of gdb.\<close>

definition plain :: "mi_output \<Rightarrow> bool" where
  "plain r \<longleftrightarrow> \<not> (o_type r = MI_T_RESULT_RECORD \<and> o_tclass r \<in> {MI_CL_ERROR, MI_CL_EXIT})"

definition text_of_stream :: "mi_output \<Rightarrow> string option" where
  "text_of_stream r = (case o_c r of MiRes v (VConst s) # _ \<Rightarrow> s | _ \<Rightarrow> None)"

definition record_events :: "mi_h \<Rightarrow> mi_output \<Rightarrow> event list" where
  "record_events h r =
     (if is_stream r then
        (case (if o_sstype r = MI_SST_CONSOLE then console h
               else if o_sstype r = MI_SST_TARGET then target h else log_cb h) of
           None \<Rightarrow> []
         | Some f \<Rightarrow> [Stream_call f (if o_sstype r = MI_SST_CONSOLE then console_data h
               else if o_sstype r = MI_SST_TARGET then target_data h else log_data h) (text_of_stream r)])
      else if o_type r = MI_T_OUT_OF_BAND
      then (case async h of None \<Rightarrow> [] | Some f \<Rightarrow> [Async_call f (async_data h) r])
      else [])"

definition push_record :: "mi_output \<Rightarrow> mi_h \<Rightarrow> mi_h" where
  "push_record r h = h\<lparr>po := po h @ [r], has_last := True\<rparr>"

lemma stream_of_record:
  fixes s :: string
  assumes "sst \<in> {MI_SST_CONSOLE, MI_SST_TARGET, MI_SST_LOG}" and "catch_console (c_h c) = 0"
  defines "r \<equiv> \<lparr>o_type = MI_T_OUT_OF_BAND, o_stype = MI_ST_STREAM, o_sstype = sst, o_tclass = 0,
    o_c = [MiRes None (VConst (Some s))]\<rparr>"
  shows "stream_line r c = Inr ((), c\<lparr>events := events c @ record_events (c_h c) r\<rparr>)"
proof -
  have get: "get_cstr r = Inr (Some s)" and tos: "text_of_stream r = Some s"
    and st: "is_stream r" and sst: "o_sstype r = sst"
    by (simp_all add: r_def get_cstr_def text_of_stream_def is_stream_def)
  consider "sst = MI_SST_CONSOLE" | "sst = MI_SST_TARGET" | "sst = MI_SST_LOG" using assms(1) by blast
  then show ?thesis
  proof cases
    case 1
    then show ?thesis using assms(2)
      by (cases "console (c_h c)") (simp_all add: stream_line_def console_line_def sst get tos st
          record_events_def com_defs call_stream_def)
  next
    case 2
    then show ?thesis
      by (cases "target (c_h c)") (simp_all add: stream_line_def sst get tos st
          record_events_def com_defs call_stream_def MI_SST_CONSOLE_def MI_SST_TARGET_def)
  next
    case 3
    then show ?thesis
      by (cases "log_cb (c_h c)") (simp_all add: stream_line_def sst get tos st
          record_events_def com_defs call_stream_def MI_SST_CONSOLE_def MI_SST_TARGET_def MI_SST_LOG_def)
  qed
qed

lemma record_of_plain:
  assumes "record_ok r" and "plain r" and "catch_console (c_h c) = 0"
    and "has_last (c_h c) \<longleftrightarrow> po (c_h c) \<noteq> []"
  shows "mi_record r c = Inr (0, c\<lparr>
     c_h := (if is_stream r then c_h c else push_record r (c_h c)),
     events := events c @ record_events (c_h c) r,
     c_w := (if is_stream r then add_live (- blocks_o r) (c_w c) else c_w c)\<rparr>)"
proof -
  have add: "add_record r c' = Inr ((), c'\<lparr>c_h := push_record r (c_h c')\<rparr>)"
    if "has_last (c_h c') \<longleftrightarrow> po (c_h c') \<noteq> []" for c'
    using that by (simp add: add_record_def hand_def push_record_def)
  show ?thesis
    using assms(1)
  proof (cases rule: record_cases)
    case (result k rs)
    with assms(2) have t: "o_type r = MI_T_RESULT_RECORD" "o_tclass r \<noteq> MI_CL_ERROR" "o_tclass r \<noteq> MI_CL_EXIT"
      and k: "MI_T_RESULT_RECORD \<noteq> MI_T_OUT_OF_BAND"
      by (auto simp: plain_def MI_T_RESULT_RECORD_def MI_T_OUT_OF_BAND_def)
    with assms(4) show ?thesis
      by (simp add: mi_record_def seq_def ret_def is_stream_def record_events_def add)
  next
    case (asyn sst k rs)
    then have t: "o_type r = MI_T_OUT_OF_BAND" "o_stype r = MI_ST_ASYNC"
      and k: "MI_T_OUT_OF_BAND \<noteq> MI_T_RESULT_RECORD" "MI_ST_ASYNC \<noteq> MI_ST_STREAM"
      by (simp_all add: MI_T_RESULT_RECORD_def MI_T_OUT_OF_BAND_def MI_ST_ASYNC_def MI_ST_STREAM_def)
    with assms(4) show ?thesis
      by (cases "async (c_h c)")
        (simp_all add: mi_record_def async_line_def com_defs is_stream_def record_events_def add)
  next
    case (stream sst s)
    then have st: "is_stream r" "o_type r \<noteq> MI_T_RESULT_RECORD"
      by (simp_all add: is_stream_def MI_T_RESULT_RECORD_def MI_T_OUT_OF_BAND_def)
    with stream stream_of_record [OF stream(2) assms(3), of s] show ?thesis
      by (simp add: mi_record_def is_stream_def seq_def heap_def ret_def free_live)
  qed
qed

text \<open>The lines of a response as gdb sends them, and what the callbacks see of them.\<close>

definition wire :: "mi_output list \<Rightarrow> char option list" where
  "wire rs = concat (map (\<lambda>r. map Some (print_output r @ [NEWLINE])) rs) @
     map Some (''(gdb)'' @ [NEWLINE])"

definition wire_events :: "mi_h \<Rightarrow> mi_output list \<Rightarrow> event list" where
  "wire_events h rs = concat (map (\<lambda>r. echo h (print_output r) @ record_events h r) rs) @
     echo h ''(gdb)''"

definition sendable :: "mi_output \<Rightarrow> bool" where
  "sendable r \<longleftrightarrow> solid_output r \<and> plain r \<and> CRET \<notin> set (print_output r)"

text \<open>The callbacks of a handle and the child it talks to, which reading does not change.\<close>

definition callbacks where
  "callbacks h = (console h, console_data h, target h, target_data h, log_cb h, log_data h,
     async h, async_data h, from_gdb_echo h, from_gdb_echo_data h, catch_console h, died h, pid h, time_out_cb h,
     catched_console h, to_gdb0 h, to_gdb1 h, from_gdb0 h, from_gdb1 h, to_stream h, from_stream h)"

lemma callbacks_same [simp]:
  "callbacks (line_upd b k h) = callbacks h" "callbacks (push_record r h) = callbacks h"
  "callbacks (h\<lparr>po := p, has_last := q\<rparr>) = callbacks h"
  by (simp_all add: callbacks_def line_upd_def push_record_def)

lemma events_of_callbacks:
  assumes "callbacks h = callbacks h'"
  shows "echo h = echo h'" and "record_events h = record_events h'"
    and "wire_events h = wire_events h'" and "catch_console h = catch_console h'"
proof -
  show 1: "echo h = echo h'"
    using assms by (simp add: callbacks_def echo_def fun_eq_iff cong: option.case_cong)
  show 2: "record_events h = record_events h'"
    using assms by (simp add: callbacks_def record_events_def fun_eq_iff cong: option.case_cong if_cong)
  show "wire_events h = wire_events h'"
    by (simp add: wire_events_def 1 2 fun_eq_iff)
  show "catch_console h = catch_console h'"
    using assms by (simp add: callbacks_def)
qed

lemma ready_line_upd: "buf_ok (line_upd b 0 h)"
  by (simp add: buf_ok_def)

lemma response_of_record:
  assumes "ready c" and "sendable r" and "catch_console (c_h c) = 0"
    and "reads c = map Some (print_output r @ [NEWLINE]) @ rs"
  obtains c1 where "mi_get_response c = Inr (0, c1)" "ready c1" "reads c1 = rs"
    "po (c_h c1) = po (c_h c) @ (if is_stream r then [] else [r])"
    "callbacks (c_h c1) = callbacks (c_h c)"
    "events c1 = events c @ echo (c_h c) (print_output r) @ record_events (c_h c) r"
    "selects c1 = selects c" "waits c1 = waits c" "own (line (c_h c1)) = 1"
    "mi_error (c_w c1) = mi_error (c_w c)" "mi_error_from_gdb c1 = mi_error_from_gdb c"
    "live (c_w c1) = live (c_w c) + (1 - own (line (c_h c))) + (if is_stream r then 0 else blocks_o r)"
proof -
  have r: "solid_output r" "record_ok r" "plain r" "CRET \<notin> set (print_output r)"
    using assms(2) by (simp_all add: sendable_def solid_output_def)
  obtain tail where 1: "mi_get_response c = mi_record r
    (got_line c rs (print_output r) tail\<lparr>
       events := events c @ echo (c_h c) (print_output r),
       c_w := add_live (1 - own (line (c_h c)) + blocks_o r) (c_w c)\<rparr>)" (is "_ = mi_record r ?c")
    using response_of_line [OF assms(1) r(1,4) assms(4)] by blast
  have cc: "catch_console (c_h ?c) = 0" and hl: "has_last (c_h ?c) \<longleftrightarrow> po (c_h ?c) \<noteq> []"
    using assms(1,3) by (simp_all add: got_line_def ready_def line_upd_def)
  have ev: "record_events (c_h ?c) r = record_events (c_h c) r"
    using events_of_callbacks(2) [of "c_h ?c" "c_h c"] by (simp add: got_line_def)
  note 2 = record_of_plain [OF r(2,3) cc hl, unfolded ev]
  show thesis
    by (rule that [OF trans [OF 1 2]])
      (use assms(1) in \<open>auto simp: ready_def got_line_def push_record_def ready_line_upd callbacks_same
        buf_ok_def line_upd_def callbacks_def\<close>)
qed

lemma response_of_end:
  assumes "ready c" and "reads c = map Some (''(gdb)'' @ [NEWLINE]) @ rs"
  obtains c1 where "blk_turn c = Inr (Some (po (c_h c)), c1)" "ready c1" "reads c1 = rs"
    "po (c_h c1) = []" "callbacks (c_h c1) = callbacks (c_h c)"
    "events c1 = events c @ echo (c_h c) ''(gdb)''" "selects c1 = selects c" "waits c1 = waits c"
    "own (line (c_h c1)) = 1" "mi_error (c_w c1) = mi_error (c_w c)"
    "mi_error_from_gdb c1 = mi_error_from_gdb c"
    "live (c_w c1) = live (c_w c) + (1 - own (line (c_h c)))"
proof -
  obtain tail where 1: "mi_get_response c =
      Inr (1, got_line c rs ''(gdb)'' tail\<lparr>events := events c @ echo (c_h c) ''(gdb)''\<rparr>)"
    using response_of_prompt [OF assms] by blast
  show thesis
    by (rule that [of "got_line c rs ''(gdb)'' tail\<lparr>events := events c @ echo (c_h c) ''(gdb)'',
          c_h := (line_upd (''(gdb)'' @ NUL # tail) 0 (c_h c))\<lparr>po := [], has_last := False\<rparr>\<rparr>"])
      (use assms(1) in \<open>auto simp: blk_turn_def 1 seq_def mi_retire_response_def ret_def ask_def
        hand_def got_line_def ready_def buf_ok_def\<close>)
qed

lemma blk_loop_wire:
  assumes "ready c" and "\<forall>r\<in>set rs. sendable r" and "catch_console (c_h c) = 0"
    and "reads c = wire rs @ rest" and "selects c = replicate (length rs) 1 @ sel"
  shows "\<exists>c1. blk_loop c = Inr (po (c_h c) @ filter (\<lambda>r. \<not> is_stream r) rs, c1) \<and>
    reads c1 = rest \<and> selects c1 = sel \<and> waits c1 = waits c \<and> po (c_h c1) = [] \<and>
    events c1 = events c @ wire_events (c_h c) rs \<and> mi_error (c_w c1) = mi_error (c_w c) \<and>
    ready c1 \<and> callbacks (c_h c1) = callbacks (c_h c) \<and> own (line (c_h c1)) = 1 \<and>
    mi_error_from_gdb c1 = mi_error_from_gdb c \<and>
    live (c_w c1) = live (c_w c) + (1 - own (line (c_h c))) + blocks_os (filter (\<lambda>r. \<not> is_stream r) rs)"
  using assms
proof (induction rs arbitrary: c)
  case Nil
  obtain c1 where "blk_turn c = Inr (Some (po (c_h c)), c1)" "ready c1" "reads c1 = rest"
    "po (c_h c1) = []" "callbacks (c_h c1) = callbacks (c_h c)"
    "events c1 = events c @ echo (c_h c) ''(gdb)''" "selects c1 = selects c" "waits c1 = waits c"
    "own (line (c_h c1)) = 1" "mi_error (c_w c1) = mi_error (c_w c)"
    "mi_error_from_gdb c1 = mi_error_from_gdb c"
    "live (c_w c1) = live (c_w c) + (1 - own (line (c_h c)))"
    using response_of_end [OF Nil.prems(1), of rest] Nil.prems(4) by (auto simp: wire_def)
  with Nil.prems(5) show ?case by (simp add: blk_loop.simps wire_events_def)
next
  case (Cons r rs)
  obtain c1 where c1: "mi_get_response c = Inr (0, c1)" "ready c1" "reads c1 = wire rs @ rest"
    "po (c_h c1) = po (c_h c) @ (if is_stream r then [] else [r])"
    "callbacks (c_h c1) = callbacks (c_h c)"
    "events c1 = events c @ echo (c_h c) (print_output r) @ record_events (c_h c) r"
    "selects c1 = selects c" "waits c1 = waits c" "own (line (c_h c1)) = 1"
    "mi_error (c_w c1) = mi_error (c_w c)" "mi_error_from_gdb c1 = mi_error_from_gdb c"
    "live (c_w c1) = live (c_w c) + (1 - own (line (c_h c))) + (if is_stream r then 0 else blocks_o r)"
    using response_of_record [OF Cons.prems(1) _ Cons.prems(3), of r "wire rs @ rest"] Cons.prems(2,4)
    by (auto simp: wire_def)
  let ?c = "c1\<lparr>selects := replicate (length rs) 1 @ sel\<rparr>"
  have turn: "blk_turn c = Inr (None, ?c)"
    using c1 Cons.prems(5) by (simp add: blk_turn_def seq_def mi_select_def ret_def)
  note cb = events_of_callbacks [OF c1(5)]
  have "ready ?c" using c1(2) by (simp add: ready_def)
  then obtain c2 where "blk_loop ?c = Inr (po (c_h ?c) @ filter (\<lambda>r. \<not> is_stream r) rs, c2)"
    "reads c2 = rest" "selects c2 = sel" "waits c2 = waits ?c" "po (c_h c2) = []"
    "events c2 = events ?c @ wire_events (c_h ?c) rs" "mi_error (c_w c2) = mi_error (c_w ?c)"
    "mi_error_from_gdb c2 = mi_error_from_gdb ?c"
    "ready c2" "callbacks (c_h c2) = callbacks (c_h ?c)" "own (line (c_h c2)) = 1"
    "live (c_w c2) = live (c_w ?c) + (1 - own (line (c_h ?c))) + blocks_os (filter (\<lambda>r. \<not> is_stream r) rs)"
    using Cons.IH [of ?c] Cons.prems(2,3) c1(3) cb by auto
  with c1 cb turn show ?case
    by (subst blk_loop.simps) (simp add: wire_events_def)
qed

section \<open>What a client of the connection can rely on\<close>

text \<open>A connection to a running gdb with nothing read yet, for the examples below.\<close>

definition no_settings :: globals where
  "no_settings = \<lparr>gdb_exe = None, xterm_exe = None, gdb_start = None, gdb_conn = None,
     main_func = None, disable_psym_search_workaround = False, registered = False\<rparr>"

definition bare_os :: osys where
  "bare_os = \<lparr>env_path = None, is_reg = (\<lambda>_. False), is_exec = (\<lambda>_. False),
     text_file = (\<lambda>_. None), open_dev = (\<lambda>_ _. - 1), vt_state = None,
     grant_ok = False, unlock_ok = False, pts_name = None, pipes = [], forks = [], fdopens = [],
     mkstemps = [], stats = []\<rparr>"

definition started :: "mi_h \<Rightarrow> char option list \<Rightarrow> int list \<Rightarrow> conn" where
  "started h rs sel = \<lparr>c_h = h\<lparr>pid := 7\<rparr>, reads = rs, waits = [], selects = sel, tm_rets = [],
     sent = [], events = [], junk = (\<lambda>_. CHR ''?''), mi_error_from_gdb = None,
     c_g = no_settings, c_os = bare_os, c_w = \<lparr>mi_error = 0, oom = [], live = 0\<rparr>\<rparr>"

text \<open>
  C20: Whatever bytes arrive and whatever allocations fail, \<open>mi_getline\<close> never writes outside the
  line buffer and leaves the buffer consistent with \<open>llen\<close> and \<open>lread\<close>; a positive result is the
  index of a NUL inside the buffer, a negative one means that \<open>realloc\<close> failed.
\<close>

theorem getline_bounds:
  assumes "buf_ok (c_h c)"
  shows "\<exists>r c1. mi_getline c = Inr (r, c1) \<and> buf_ok (c_h c1) \<and>
    (if 0 < r then \<exists>b. line (c_h c1) = Some b \<and> r < int (length b) \<and> b ! nat r = NUL
     else if r < 0 then line (c_h c1) = None \<and> length (oom (c_w c)) > 0 else True)"
proof (cases "getline_loop (reads c) (junk c) (c_h c) (c_w c)")
  case (Inl f)
  then show ?thesis using getline_safe [OF assms, of "reads c" "junk c" "c_w c"] by simp
next
  case (Inr x)
  obtain r rs h w where "x = (r, rs, h, w)" by (metis prod_cases4)
  with Inr getline_safe [OF assms, of "reads c" "junk c" "c_w c"] show ?thesis
    by (auto simp: mi_getline_def getline_post_def)
qed

theorem getline_bounds_witness:
  "\<exists>r c1. mi_getline (started fresh_h (map Some ''^done'') []) = Inr (r, c1) \<and> buf_ok (c_h c1)"
  using getline_bounds [of "started fresh_h (map Some ''^done'') []"]
  by (auto simp: started_def fresh_h_def buf_ok_def)

text \<open>
  C21: A line that arrives in two pieces is read as if it had arrived in one: the first call returns
  0 and keeps its piece, the second returns the length of the whole line, which the buffer then
  holds, NUL-terminated and without carriage returns.
\<close>

theorem getline_pieces:
  assumes "ready c" and "NEWLINE \<notin> set s" and "NEWLINE \<notin> set t"
    and "reads c = map Some s @ None # map Some (t @ [NEWLINE]) @ rest"
  shows "\<exists>c1 tail. seq mi_getline (\<lambda>i. seq mi_getline (\<lambda>j. ret (i, j))) c =
      Inr ((0, int (length (filter (\<lambda>c. c \<noteq> CRET) (s @ t)))), c1) \<and>
    line (c_h c1) = Some (filter (\<lambda>c. c \<noteq> CRET) (s @ t) @ NUL # tail) \<and>
    lread (c_h c1) = 0 \<and> reads c1 = rest"
proof -
  have c: "buf_ok (c_h c)" "oom (c_w c) = []" "partial_line (c_h c) = []"
    using assms(1) by (auto simp: ready_def partial_line_def split: option.splits)
  obtain h1 k where 1: "getline_loop (reads c) (junk c) (c_h c) (c_w c) =
      Inr (0, map Some (t @ [NEWLINE]) @ rest, h1, add_live k (c_w c))"
    "buf_ok h1" "partial_line h1 = filter (\<lambda>c. c \<noteq> CRET) s"
    using getline_part [OF c(1,2) assms(2), of "map Some (t @ [NEWLINE]) @ rest" "junk c"] c(3) assms(4)
    by auto
  obtain tail where 2: "getline_loop (map Some t @ Some NEWLINE # rest) (junk c) h1 (add_live k (c_w c)) =
      Inr (int (length (partial_line h1 @ filter (\<lambda>c. c \<noteq> CRET) t)), rest,
        line_upd ((partial_line h1 @ filter (\<lambda>c. c \<noteq> CRET) t) @ NUL # tail) 0 h1,
        add_live (1 - own (line h1)) (add_live k (c_w c)))"
    using getline_text [OF 1(2), of "add_live k (c_w c)" t rest "junk c"] assms(3) c(2) by auto
  show ?thesis
    using 1 2 by (auto simp: seq_def ret_def mi_getline_def)
qed

theorem getline_pieces_witness:
  "\<exists>c1 tail. seq mi_getline (\<lambda>i. seq mi_getline (\<lambda>j. ret (i, j)))
      (started fresh_h (map Some ''^do'' @ None # map Some (''ne'' @ [NEWLINE])) []) = Inr ((0, 5), c1) \<and>
    line (c_h c1) = Some (''^done'' @ NUL # tail)"
  using getline_pieces [of "started fresh_h (map Some ''^do'' @ None # map Some (''ne'' @ [NEWLINE])) []"
      "''^do''" "''ne''" "[]"]
  by (auto simp: started_def fresh_h_def buf_ok_def ready_def)

lemma response_wire:
  assumes "ready c" and "\<forall>r\<in>set rs. sendable r" and "catch_console (c_h c) = 0"
    and "\<not> died (c_h c)" and "0 < pid (c_h c)" and "waits c = []"
    and "reads c = wire rs @ rest" and "selects c = replicate (length rs) 1 @ sel"
  shows "\<exists>c1. mi_get_response_blk c = Inr (po (c_h c) @ filter (\<lambda>r. \<not> is_stream r) rs, c1) \<and>
    events c1 = events c @ wire_events (c_h c) rs \<and> reads c1 = rest \<and> selects c1 = sel \<and>
    waits c1 = [] \<and> ready c1 \<and> callbacks (c_h c1) = callbacks (c_h c) \<and> own (line (c_h c1)) = 1 \<and>
    po (c_h c1) = [] \<and> mi_error (c_w c1) = mi_error (c_w c) \<and> mi_error_from_gdb c1 = mi_error_from_gdb c \<and>
    live (c_w c1) = live (c_w c) + (1 - own (line (c_h c))) + blocks_os (filter (\<lambda>r. \<not> is_stream r) rs)"
proof -
  have "mi_check_running c = Inr (True, c)"
    using assms(4-6) by (simp add: mi_check_running_def mi_check_running_pid_def wait_nohang_def com_defs)
  then have "mi_get_response_blk c = blk_loop c"
    by (simp add: mi_get_response_blk_def seq_def)
  with blk_loop_wire [OF assms(1-3,7,8)] assms(6) show ?thesis by auto
qed


definition demo_records :: "mi_output list" where
  "demo_records =
     [\<lparr>o_type = 0, o_stype = 1, o_sstype = 3, o_tclass = 0, o_c = [MiRes None (VConst (Some ''hi''))]\<rparr>,
      \<lparr>o_type = 1, o_stype = 0, o_sstype = 0, o_tclass = 2, o_c = []\<rparr>]"


text \<open>A handle that already holds the records \<open>r\<close>, and gdb about to write its prompt.\<close>

definition holding :: "mi_output list \<Rightarrow> conn" where
  "holding r = started (fresh_h\<lparr>po := r, has_last := True\<rparr>) (map Some (''(gdb)'' @ [NEWLINE])) []"

lemma holding_response:
  assumes "r \<noteq> []"
  obtains c1 where "mi_get_response_blk (holding r) = Inr (r, c1)" "live (c_w c1) = 1"
    "mi_error (c_w c1) = 0" "oom (c_w c1) = []"
proof -
  let ?c = "holding r"
  have ok: "ready ?c" "catch_console (c_h ?c) = 0" "reads ?c = wire [] @ []" "selects ?c = replicate (length []) 1 @ []"
    "po (c_h ?c) = r" "line (c_h ?c) = None" "live (c_w ?c) = 0" "mi_error (c_w ?c) = 0"
    using assms by (auto simp: holding_def started_def fresh_h_def ready_def buf_ok_def wire_def)
  have "mi_check_running ?c = Inr (True, ?c)"
    by (simp add: holding_def started_def fresh_h_def mi_check_running_def mi_check_running_pid_def
        wait_nohang_def com_defs)
  then have "mi_get_response_blk ?c = blk_loop ?c"
    by (simp add: mi_get_response_blk_def seq_def)
  with blk_loop_wire [OF ok(1) _ ok(2,3,4)] ok(5-8) that show thesis
    by (auto simp: ready_def)
qed

text \<open>
  An error record of gdb is recorded: \<open>mi_error\<close> becomes \<open>MI_FROM_GDB\<close>, the previous message is
  released, and the global message is a copy of the new one.
\<close>

theorem error_recorded:
  assumes "oom (c_w c) = []"
    and "r = \<lparr>o_type = MI_T_RESULT_RECORD, o_stype = 0, o_sstype = 0, o_tclass = MI_CL_ERROR,
      o_c = MiRes (Some ''msg'') (VConst (Some m)) # others\<rparr>"
  shows "\<exists>c1. mi_record r c = Inr (0, c1) \<and> mi_error (c_w c1) = MI_FROM_GDB \<and>
    mi_error_from_gdb c1 = Some m \<and>
    live (c_w c1) = live (c_w c) + 1 - own (mi_error_from_gdb c)"
proof -
  have codes: "MI_T_RESULT_RECORD \<noteq> MI_T_OUT_OF_BAND" "MI_CL_ERROR \<noteq> MI_CL_EXIT"
    by (simp_all add: record_codes)
  show ?thesis
    using assms codes
    by (simp add: mi_record_def error_line_def com_defs set_msg_def free_live c_strdup_def
        add_record_def)
qed

theorem error_recorded_witness:
  "\<exists>c1. mi_record \<lparr>o_type = MI_T_RESULT_RECORD, o_stype = 0, o_sstype = 0, o_tclass = MI_CL_ERROR,
      o_c = [MiRes (Some ''msg'') (VConst (Some ''No symbol''))]\<rparr> (started fresh_h [] []) = Inr (0, c1) \<and>
    mi_error_from_gdb c1 = Some ''No symbol''"
  using error_recorded [of "started fresh_h [] []" _ "''No symbol''" "[]", OF _ refl]
  by (auto simp: started_def)

text \<open>
  A wait that times out gives up with \<open>MI_GDB_TIME_OUT\<close> and returns NULL, but loses nothing:
  the records that had arrived stay in the handle, so that the next wait delivers them.
\<close>

theorem time_out_keeps:
  assumes "\<not> died (c_h c)" and "0 < pid (c_h c)" and "waits c = []" and "reads c = []"
    and "selects c = []" and "time_out_cb (c_h c) = None"
  shows "\<exists>c1. mi_get_response_blk c = Inr ([], c1) \<and> mi_error (c_w c1) = MI_GDB_TIME_OUT \<and>
    po (c_h c1) = po (c_h c) \<and> has_last (c_h c1) = has_last (c_h c) \<and>
    live (c_w c1) = live (c_w c)"
  using assms
  by (simp add: mi_get_response_blk_def mi_check_running_def mi_check_running_pid_def
      wait_nohang_def com_defs blk_loop.simps blk_turn_def mi_get_response_def mi_getline_def
      mi_select_def blk_idle_def call_time_out_def)

theorem time_out_keeps_witness:
  "\<exists>c1. mi_get_response_blk (started (fresh_h\<lparr>po := demo_records, has_last := True\<rparr>) [] []) = Inr ([], c1) \<and>
    mi_error (c_w c1) = MI_GDB_TIME_OUT \<and> po (c_h c1) = demo_records"
  using time_out_keeps [of "started (fresh_h\<lparr>po := demo_records, has_last := True\<rparr>) [] []"]
  by (auto simp: started_def fresh_h_def)

end
