(* ===== verification/MI_Response.thy ===== *)
theory MI_Response
  imports MI_Query MI_Session
begin

text \<open>
  What the waits of \<open>MI_Query\<close> guarantee: every record of a response has the shape the parser
  promises, so that looking for a variable gives no fault, finds the first one of that name, and
  leaves on the heap exactly the node it returns.
\<close>

section \<open>The records of a response\<close>

definition po_ok :: "conn \<Rightarrow> bool" where
  "po_ok c \<longleftrightarrow> (\<forall>x\<in>set (po (c_h c)). record_ok x)"

definition keeps_po :: "conn \<Rightarrow> conn \<Rightarrow> bool" where
  "keeps_po c c1 \<longleftrightarrow> (po_ok c \<longrightarrow> po_ok c1)"

interpretation recs: across keeps_po
  by unfold_locales (simp_all add: keeps_po_def)

lemma write_line_po: "write_line i ch h = Inr h' \<Longrightarrow> po h' = po h"
  by (auto simp: write_line_def split: option.splits if_splits)

lemma getline_loop_po: "getline_loop rs jk h w = Inr (r, rs', h', w') \<Longrightarrow> po h' = po h"
proof (induction rs arbitrary: h w)
  case (Cons x rs)
  show ?case
  proof (cases x)
    case None
    with Cons.prems show ?thesis by simp
  next
    case (Some ch)
    obtain p n w1 where g: "(if llen h \<le> lread h
        then (let (q, w') = c_realloc (line h) (lread h + 128) jk w in (q, lread h + 128, w'))
        else (line h, llen h, w)) = (p, n, w1)"
      by (metis prod_cases3)
    from Cons.prems show ?thesis
      unfolding Some getline_loop.simps(3) g
      unfolding Let_def prod.case
      by (auto simp: bnd_Inr_iff split: if_splits dest!: Cons.IH write_line_po)
  qed
qed simp

lemma recs_basic:
  "recs.holds (heap k)" "recs.holds (on_w l)" "recs.holds (emit e)" "recs.holds (set_error n)"
  "recs.holds (set_msg m)" "recs.holds wait_nohang" "recs.holds mi_getline"
  "recs.holds mi_select" "recs.holds call_time_out"
  by (auto simp: recs.holds_def keeps_po_def po_ok_def com_defs set_msg_def bnd_Inr_iff
      wait_nohang_def mi_getline_def mi_select_def call_time_out_def Let_def
      dest: getline_loop_po split: list.splits option.splits)

lemma recs_hand: "(\<And>h. po (f h) = po h) \<Longrightarrow> recs.holds (hand f)"
  by (simp add: recs.holds_def keeps_po_def po_ok_def hand_def)

lemma recs_stream: "recs.holds (call_stream cb d s)"
  by (simp add: call_stream_def recs.holds_ret recs_basic split: option.splits)

lemma recs_add: "record_ok r \<Longrightarrow> recs.holds (add_record r)"
  by (auto simp: recs.holds_def keeps_po_def po_ok_def add_record_def hand_def)

lemma recs_record: "record_ok r \<Longrightarrow> recs.holds (mi_record r)"
  unfolding mi_record_def stream_line_def console_line_def async_line_def error_line_def Let_def
  by (intro recs.holds_intros recs_basic recs_stream recs_add recs_hand) simp_all

lemma recs_parse:
  "recs.holds (seq (on_w (mi_parse_gdb_output b)) (\<lambda>o1. case o1 of None \<Rightarrow> ret 0 | Some r \<Rightarrow> mi_record r))"
proof (rule recs.holds_seq_post [where P = "\<lambda>p. case p of None \<Rightarrow> True | Some r \<Rightarrow> record_ok r"])
  show "recs.holds (on_w (mi_parse_gdb_output b))" by (rule recs_basic)
next
  fix c p c1
  assume "on_w (mi_parse_gdb_output b) c = Inr (p, c1)"
  then obtain w1 where "mi_parse_gdb_output b (c_w c) = Inr (p, w1)"
    by (auto simp: on_w_def bnd_Inr_iff)
  with mi_parse_gdb_output_contract [of b "c_w c"]
  show "case p of None \<Rightarrow> True | Some r \<Rightarrow> record_ok r"
    by (auto simp: output_post_def split: option.splits)
next
  fix p :: "mi_output option"
  assume "case p of None \<Rightarrow> True | Some r \<Rightarrow> record_ok r"
  then show "recs.holds (case p of None \<Rightarrow> ret 0 | Some r \<Rightarrow> mi_record r)"
    by (cases p) (simp_all add: recs.holds_ret recs_record)
qed

lemma recs_response: "recs.holds mi_get_response"
  unfolding mi_get_response_def
  by (rule recs_parse recs_basic recs.holds_intros)+

lemma recs_running: "recs.holds mi_check_running"
proof -
  have "recs.holds (mi_check_running_pid p)" for p
    unfolding mi_check_running_pid_def by (intro recs.holds_intros recs_basic)
  then show ?thesis by (auto simp: recs.holds_def mi_check_running_def keeps_po_def)
qed

lemma recs_died: "recs.holds set_died"
  unfolding set_died_def by (intro recs.holds_intros recs_basic recs_hand) simp

lemma blk_turn_records:
  assumes "po_ok c" and "blk_turn c = Inr (l, c1)"
  shows "po_ok c1 \<and> (case l of None \<Rightarrow> True | Some rs \<Rightarrow> \<forall>x\<in>set rs. record_ok x)"
proof -
  obtain r c2 where r: "mi_get_response c = Inr (r, c2)"
    and t: "(if r \<noteq> 0 then seq mi_retire_response (\<lambda>l. ret (Some l))
      else seq mi_select (\<lambda>s. if s \<noteq> 0 then ret None else blk_idle)) c2 = Inr (l, c1)"
    using assms(2) unfolding blk_turn_def seq_Inr by blast
  have c2: "po_ok c2"
    using recs.holdsD [OF recs_response r] assms(1) by (simp add: keeps_po_def)
  show ?thesis
  proof (cases "r = 0")
    case False
    with t c2 show ?thesis
      by (auto simp: seq_Inr mi_retire_response_def com_defs po_ok_def)
  next
    case True
    have idle: "recs.holds blk_idle"
      unfolding blk_idle_def by (intro recs.holds_intros recs_basic recs_running recs_died)
    have "recs.holds (seq mi_select (\<lambda>s. if s \<noteq> 0 then ret None else blk_idle))"
      by (intro recs.holds_intros recs_basic idle)
    with True t c2 have "po_ok c1" by (auto simp: keeps_po_def dest!: recs.holdsD)
    moreover have "l = None \<or> l = Some []"
      using True t by (auto simp: seq_Inr ret_def blk_idle_def split: if_splits)
    ultimately show ?thesis by auto
  qed
qed

lemma blk_loop_records:
  "po_ok c \<Longrightarrow> blk_loop c = Inr (l, c1) \<Longrightarrow> po_ok c1 \<and> (\<forall>x\<in>set l. record_ok x)"
proof (induction c rule: blk_loop.induct)
  case (1 c)
  from "1.prems"(2) obtain p c2 where t: "blk_turn c = Inr (p, c2)"
    by (simp add: blk_loop.simps [of c] split: sum.splits prod.splits)
  note ok = blk_turn_records [OF "1.prems"(1) t]
  show ?case
  proof (cases p)
    case None
    with t "1.prems"(2) have "blk_loop c2 = Inr (l, c1)" by (simp add: blk_loop.simps [of c])
    with None t ok show ?thesis by (intro "1.IH") auto
  next
    case (Some rs)
    with t "1.prems"(2) ok show ?thesis by (simp add: blk_loop.simps [of c])
  qed
qed

text \<open>
  C24: Every record a wait returns has the shape the parser promises, and so have the records that
  stay in the handle, whatever gdb sends.
\<close>

theorem response_records_ok:
  assumes "po_ok c" and "mi_get_response_blk c = Inr (rs, c1)"
  shows "po_ok c1 \<and> list_all record_ok rs"
proof -
  obtain running c2 where c2: "mi_check_running c = Inr (running, c2)"
    and b: "(if \<not> running then seq set_died (\<lambda>_. ret []) else blk_loop) c2 = Inr (rs, c1)"
    using assms(2) unfolding mi_get_response_blk_def seq_Inr by blast
  have ok: "po_ok c2"
    using recs.holdsD [OF recs_running c2] assms(1) by (simp add: keeps_po_def)
  show ?thesis
  proof (cases running)
    case True
    with b ok blk_loop_records show ?thesis by (auto simp: list_all_iff)
  next
    case False
    with b ok show ?thesis
      by (auto simp: seq_Inr ret_def keeps_po_def dest!: recs.holdsD [OF recs_died])
  qed
qed

theorem response_records_ok_witness:
  "\<exists>c1. mi_get_response_blk (holding demo_records) = Inr (demo_records, c1) \<and>
    po_ok c1 \<and> list_all record_ok demo_records"
proof -
  have "\<forall>x\<in>set demo_records. record_ok x"
    by (simp add: demo_records_def record_ok_def record_codes)
  then have ok: "po_ok (holding demo_records)" by (simp add: po_ok_def holding_def started_def)
  obtain c1 where 1: "mi_get_response_blk (holding demo_records) = Inr (demo_records, c1)"
    by (rule holding_response [of demo_records]) (simp_all add: demo_records_def)
  with response_records_ok [OF ok 1] show ?thesis by blast
qed

section \<open>Variables\<close>

definition named :: "mi_results list \<Rightarrow> bool" where
  "named rs \<longleftrightarrow> (\<forall>r\<in>set rs. r_var r \<noteq> None)"

lemma mi_get_var_r_find:
  "named rs \<Longrightarrow> \<exists>k. mi_get_var_r rs var = Inr k \<and>
     (case k of None \<Rightarrow> find (\<lambda>x. r_var x = Some var) rs = None
      | Some i \<Rightarrow> i < length rs \<and> find (\<lambda>x. r_var x = Some var) rs = Some (rs ! i))"
proof (induction rs)
  case (Cons r rs)
  then obtain k where k: "mi_get_var_r rs var = Inr k"
    "case k of None \<Rightarrow> find (\<lambda>x. r_var x = Some var) rs = None
      | Some i \<Rightarrow> i < length rs \<and> find (\<lambda>x. r_var x = Some var) rs = Some (rs ! i)"
    by (auto simp: named_def)
  obtain v where "r_var r = Some v" using Cons.prems by (auto simp: named_def)
  with k show ?case by (cases k) (auto simp: c_var_def)
qed simp

lemma mi_get_rrecord_Some:
  "mi_get_rrecord r = Some i \<Longrightarrow> i < length r \<and> o_type (r ! i) = MI_T_RESULT_RECORD"
  by (induction r arbitrary: i) (auto split: if_splits)

text \<open>The node a lookup is specified to find.\<close>

definition lookup :: "mi_output list \<Rightarrow> nat \<Rightarrow> string \<Rightarrow> mi_results option" where
  "lookup r tclass var = (case the_record r tclass of
       None \<Rightarrow> None | Some x \<Rightarrow> find (\<lambda>n. r_var n = Some var) (o_c x))"

lemma record_named:
  "record_ok x \<Longrightarrow> o_type x = MI_T_RESULT_RECORD \<Longrightarrow> named (o_c x) \<and> (\<forall>n\<in>set (o_c x). named_full n)"
  by (auto simp: record_ok_def named_def named_full_def MI_T_RESULT_RECORD_def MI_T_OUT_OF_BAND_def)

lemma lookup_named_full:
  assumes "lookup r tclass var = Some n" and "list_all record_ok r"
  shows "named_full n \<and> r_var n = Some var"
proof -
  obtain i where i: "mi_get_rrecord r = Some i" and f: "find (\<lambda>n. r_var n = Some var) (o_c (r ! i)) = Some n"
    using assms(1) by (auto simp: lookup_def the_record_def split: option.splits if_splits)
  from mi_get_rrecord_Some [OF i] assms(2) have "named (o_c (r ! i)) \<and> (\<forall>n\<in>set (o_c (r ! i)). named_full n)"
    by (intro record_named) (auto simp: list_all_length)
  with f show ?thesis by (auto simp: find_Some_iff)
qed

definition blocks_opt :: "mi_results option \<Rightarrow> int" where
  "blocks_opt p = (case p of None \<Rightarrow> 0 | Some n \<Rightarrow> blocks_r n)"

lemma res_var_find:
  assumes "mi_get_response_blk c = Inr (r, c1)" and "list_all record_ok r"
  shows "mi_res_var var tclass c = Inr (lookup r tclass var,
    c1\<lparr>c_w := add_live (blocks_opt (lookup r tclass var) - blocks_os r) (c_w c1)\<rparr>)"
proof -
  have none: "mi_res_var var tclass c = Inr (None, c1\<lparr>c_w := add_live (- blocks_os r) (c_w c1)\<rparr>)"
    if "mi_get_var (the_record r tclass) var = Inr None"
    using that assms(1)
    by (simp add: mi_res_var_def com_defs pure_run_def mi_free_output_but_live)
  show ?thesis
  proof (cases "the_record r tclass")
    case None
    with none show ?thesis by (simp add: mi_get_var_def lookup_def blocks_opt_def)
  next
    case (Some x)
    then obtain i where i: "mi_get_rrecord r = Some i" "x = r ! i"
      by (auto simp: the_record_def split: option.splits if_splits)
    note ri = mi_get_rrecord_Some [OF i(1)]
    then have "named (o_c x)"
      using record_named [of x] assms(2) i(2) by (auto simp: list_all_length)
    then obtain k where k: "mi_get_var_r (o_c x) var = Inr k"
      "case k of None \<Rightarrow> find (\<lambda>n. r_var n = Some var) (o_c x) = None
        | Some j \<Rightarrow> j < length (o_c x) \<and> find (\<lambda>n. r_var n = Some var) (o_c x) = Some (o_c x ! j)"
      using mi_get_var_r_find [of "o_c x" var] by auto
    show ?thesis
    proof (cases k)
      case None
      with k Some none show ?thesis by (simp add: mi_get_var_def lookup_def blocks_opt_def)
    next
      case (Some j)
      have at: "node_at rs [j] = Some (rs ! j)" if "j < length rs" for rs
        using that by (induction rs arbitrary: j) (auto simp: nth_Cons' gr0_conv_Suc)
      have "kept_blocks (o_c x) [j] = blocks_r (o_c x ! j)"
        using at [of "o_c x"] k(2) Some by (simp add: kept_blocks_def)
      then show ?thesis
        using Some k i ri \<open>the_record r tclass = Some x\<close> assms(1)
        by (simp add: mi_res_var_def com_defs pure_run_def mi_get_var_def lookup_def blocks_opt_def
            mi_free_output_but_live)
    qed
  qed
qed

text \<open>
  C14: Waiting for a variable refines a plain lookup: on the records of a response it gives no fault
  and returns the first variable of that name in the result record when the record has the class
  asked for, NULL otherwise. All blocks of the response are released except those of the returned
  node.
\<close>

theorem res_var_lookup:
  assumes "mi_get_response_blk c = Inr (r, c1)" and "list_all record_ok r"
  shows "mi_res_var var tclass c = Inr (lookup r tclass var,
    c1\<lparr>c_w := add_live (blocks_opt (lookup r tclass var) - blocks_os r) (c_w c1)\<rparr>)"
  using assms by (rule res_var_find)

theorem res_var_lookup_witness:
  "let r = [\<lparr>o_type = 1, o_stype = 0, o_sstype = 0, o_tclass = 2,
             o_c = [MiRes (Some ''value'') (VConst (Some ''42''))]\<rparr>]
   in \<exists>c2. mi_res_var ''value'' MI_CL_DONE (holding r) =
      Inr (Some (MiRes (Some ''value'') (VConst (Some ''42''))), c2)"
proof -
  let ?r = "[\<lparr>o_type = 1, o_stype = 0, o_sstype = 0, o_tclass = 2,
             o_c = [MiRes (Some ''value'') (VConst (Some ''42''))]\<rparr>]"
  obtain c1 where 1: "mi_get_response_blk (holding ?r) = Inr (?r, c1)"
    by (rule holding_response [of ?r]) simp_all
  have "list_all record_ok ?r"
    by (simp add: record_ok_def record_codes good_name_def mi_is_var_name_char_def isalnum_def is_digit_def)
  from res_var_lookup [OF 1 this] show ?thesis
    by (auto simp: lookup_def the_record_def record_codes)
qed

text \<open>The response as it is after the results of its result record have changed.\<close>

definition set_results :: "mi_output list \<Rightarrow> mi_results list \<Rightarrow> mi_output list" where
  "set_results r l = (case mi_get_rrecord r of None \<Rightarrow> r | Some i \<Rightarrow> r[i := (r ! i)\<lparr>o_c := l\<rparr>])"

section \<open>Reading one variable of a response\<close>

text \<open>
  What most readers of \<open>src/parse.c\<close> do with the node \<open>mi_res_done_var\<close> returned (or NULL): if it has
  the type they expect, parse its list; release it; return what they parsed.
\<close>

definition read_value ::
    "(mi_results \<Rightarrow> bool) \<Rightarrow> 'a \<Rightarrow> (mi_results list \<Rightarrow> world \<Rightarrow> ('a \<times> mi_results list \<times> world) run)
      \<Rightarrow> mi_results option \<Rightarrow> 'a com" where
  "read_value ok none parse p = (case p of
       None \<Rightarrow> ret none
     | Some x \<Rightarrow>
         if ok x
         then seq (pure_run (c_rs x)) (\<lambda>l.
           seq (on_w (\<lambda>w. bnd (parse l w) (\<lambda>(a, l', w'). Inr ((a, l'), w')))) (\<lambda>(a, l').
           seq (heap (mi_free_results [set_rs x l'])) (\<lambda>_. ret a)))
         else seq (heap (mi_free_results [x])) (\<lambda>_. ret none))"

definition inner :: "mi_results \<Rightarrow> mi_results list" where
  "inner x = (case r_val x of VConst s \<Rightarrow> [] | VTuple l \<Rightarrow> l | VList l \<Rightarrow> l)"

lemma inner_MiRes [simp]:
  "inner (MiRes v (VTuple l)) = l" "inner (MiRes v (VList l)) = l" "inner (MiRes v (VConst s)) = []"
  by (simp_all add: inner_def)

lemma c_rs_inner: "r_type x \<noteq> t_const \<Longrightarrow> c_rs x = Inr (inner x)"
  by (cases x; cases "r_val x") (simp_all add: inner_def)

text \<open>\<open>answer_of r var ok\<close>: the node a wait for \<open>var\<close> hands to a reader that takes nodes with \<open>ok\<close>.\<close>

definition answer_of :: "mi_output list \<Rightarrow> string \<Rightarrow> (mi_results \<Rightarrow> bool) \<Rightarrow> mi_results option" where
  "answer_of r var ok = (case lookup r MI_CL_DONE var of
       None \<Rightarrow> None | Some x \<Rightarrow> if ok x then Some x else None)"

context list_reader
begin

lemma read_answer:
  assumes "mi_get_response_blk c = Inr (r, c1)" and "list_all record_ok r"
    and "answer_of r var ok = Some x" and "r_type x \<noteq> t_const" and "suits (inner x)"
  obtains a l' w' c2 where
    "seq (mi_res_done_var var) (read_value ok none parse) c = Inr (a, c2)"
    "parse (inner x) (add_live (blocks_r x - blocks_os r) (c_w c1)) = Inr (a, l', w')"
    "live (c_w c1) - blocks_os r + worth a \<le> live (c_w c2)"
    "neat (inner x) \<Longrightarrow> live (c_w c2) = live (c_w c1) - blocks_os r + worth a"
proof -
  have x: "lookup r MI_CL_DONE var = Some x" "ok x"
    using assms(3) by (auto simp: answer_of_def split: option.splits if_splits)
  let ?w = "add_live (blocks_r x - blocks_os r) (c_w c1)"
  obtain a l' w' where p: "parse (inner x) ?w = Inr (a, l', w')"
    using parse_safe [OF assms(5)] by blast
  have rs: "c_rs x = Inr (inner x)" using assms(4) by (rule c_rs_inner)
  have run: "seq (mi_res_done_var var) (read_value ok none parse) c =
      Inr (a, c1\<lparr>c_w := mi_free_results [set_rs x l'] w'\<rparr>)"
    using res_var_find [OF assms(1,2), of var MI_CL_DONE] x rs p
    by (simp add: mi_res_done_var_def seq_def read_value_def pure_run_def on_w_def heap_def ret_def
        blocks_opt_def)
  have live: "live (mi_free_results [set_rs x l'] w') = live w' - blocks_r x + blocks_l (inner x) - blocks_l l'"
    using blocks_set_rs [OF rs, of l'] by (simp add: free_live)
  show thesis
  proof (rule that [OF run p])
    show "live (c_w c1) - blocks_os r + worth a
        \<le> live (c_w (c1\<lparr>c_w := mi_free_results [set_rs x l'] w'\<rparr>))"
      using parse_keeps [OF p] live by simp
  next
    assume "neat (inner x)"
    with parse_exact [OF p] live
    show "live (c_w (c1\<lparr>c_w := mi_free_results [set_rs x l'] w'\<rparr>)) =
        live (c_w c1) - blocks_os r + worth a"
      by simp
  qed
qed

end

text \<open>No such variable, or one of another type: everything is released and nothing is returned.\<close>

lemma read_no_answer:
  assumes "mi_get_response_blk c = Inr (r, c1)" and "list_all record_ok r"
    and "answer_of r var ok = None"
  shows "seq (mi_res_done_var var) (read_value ok none parse) c =
    Inr (none, c1\<lparr>c_w := add_live (- blocks_os r) (c_w c1)\<rparr>)"
  using res_var_find [OF assms(1,2), of var MI_CL_DONE] assms(3)
  by (auto simp: mi_res_done_var_def seq_def read_value_def heap_def ret_def free_live
      blocks_opt_def answer_of_def split: option.splits if_splits)

definition demo_response :: "string \<Rightarrow> mi_val \<Rightarrow> mi_output list" where
  "demo_response v x = [\<lparr>o_type = 1, o_stype = 0, o_sstype = 0, o_tclass = 2, o_c = [MiRes (Some v) x]\<rparr>]"

lemma demo_response_ok:
  "list_all mi_is_var_name_char v \<Longrightarrow> full_v x \<Longrightarrow> list_all record_ok (demo_response v x)"
  by (simp add: demo_response_def record_ok_def record_codes good_name_def)

lemma demo_answer:
  "answer_of (demo_response v x) v ok = (if ok (MiRes (Some v) x) then Some (MiRes (Some v) x) else None)"
  by (simp add: demo_response_def answer_of_def lookup_def the_record_def record_codes)

end
