(* ===== verification/MI_Frames.thy ===== *)
theory MI_Frames
  imports MI_Response
begin

text \<open>
  Stack frames and threads, \<open>src/parse.c\<close> lines 567 to 586 and 645 to 815: \<open>mi_parse_frame\<close>, the waits
  for one frame or several, and the list of thread numbers.
\<close>

definition frame_node :: "mi_frame \<Rightarrow> mi_results \<Rightarrow> world \<Rightarrow> (mi_frame \<times> mi_results \<times> world) run" where
  "frame_node f c w =
     (if r_type c = t_const then
        bnd (c_var c) (\<lambda>v.
          if v = ''level'' then bnd (c_str c) (\<lambda>s. Inr (f\<lparr>fr_level := atoi s\<rparr>, c, w))
          else if v = ''addr'' then bnd (c_str c) (\<lambda>s. Inr (f\<lparr>fr_addr := strtoul0 s\<rparr>, c, w))
          else if v = ''func'' then bnd (c_cstr c) (\<lambda>p. Inr (f\<lparr>fr_func := p\<rparr>, take_cstr c, w))
          else if v = ''file'' then bnd (c_cstr c) (\<lambda>p. Inr (f\<lparr>fr_file := p\<rparr>, take_cstr c, w))
          else if v = ''from'' then bnd (c_cstr c) (\<lambda>p. Inr (f\<lparr>fr_from := p\<rparr>, take_cstr c, w))
          else if v = ''line'' then bnd (c_str c) (\<lambda>s. Inr (f\<lparr>fr_line := atoi s\<rparr>, c, w))
          else Inr (f, c, w))
      else if r_type c = t_list then
        bnd (c_var c) (\<lambda>v.
          if v = ''args'' then bnd (c_rs c) (\<lambda>l. Inr (f\<lparr>fr_args := l\<rparr>, set_rs c [], w))
          else Inr (f, c, w))
      else Inr (f, c, w))"

definition mi_parse_frame ::
    "mi_results list \<Rightarrow> world \<Rightarrow> (mi_frame option \<times> mi_results list \<times> world) run" where
  "mi_parse_frame c w = fill (mi_alloc_frames w) frame_node c"

definition frame_slots :: "mi_frame \<Rightarrow> string option set" where
  "frame_slots f = filled ''func'' (fr_func f) \<union> filled ''file'' (fr_file f) \<union>
     filled ''from'' (fr_from f) \<union> (if fr_args f = [] then {} else {Some ''args''})"

interpretation frame: struct_reader frame_node blocks_frame frame_slots named_full 72 zero_frame
proof (unfold_locales, goal_cases)
  case (1 s r w)
  show ?case
  proof (cases r rule: node_cases)
    case (const v p)
    then show ?thesis
      by (cases p) (auto simp: frame_node_def turn_law_def blocks_frame_def frame_slots_def
          named_full_def c_str_def)
  next
    case (tuple v l)
    then show ?thesis by (simp add: frame_node_def turn_law_def subset_insertI)
  next
    case (list v l)
    then show ?thesis
      by (auto simp: frame_node_def turn_law_def blocks_frame_def frame_slots_def blocks_l_nonneg)
  next
    case (anon x)
    then show ?thesis by (cases x) (auto simp: frame_node_def turn_law_def named_full_def c_var_def)
  qed
next
  case 2
  show ?case by (simp add: blocks_frame_def zero_frame_def)
next
  case 3
  show ?case by (simp add: frame_slots_def zero_frame_def)
qed

section \<open>Several frames\<close>

definition frames_node ::
    "mi_frame list \<Rightarrow> mi_results \<Rightarrow> world \<Rightarrow> (mi_frame list \<times> mi_results \<times> world) run" where
  "frames_node fs c w = bnd (c_var c) (\<lambda>v.
     if v = ''frame'' \<and> r_type c = t_tuple then
       bnd (c_rs c) (\<lambda>l. bnd (mi_parse_frame l w) (\<lambda>(p, l1, w1).
         Inr (case p of None \<Rightarrow> fs | Some f \<Rightarrow> fs @ [f], set_rs c l1, w1)))
     else Inr (fs, c, w))"

text \<open>A node whose inner names do not repeat.\<close>

definition neat_node :: "mi_results \<Rightarrow> bool" where
  "neat_node c \<longleftrightarrow> named_full c \<and> distinct (map r_var (inner c))"

lemma parse_frame_law:
  "wp (mi_parse_frame l w) (read_law (worth_opt blocks_frame) (\<lambda>c. distinct (map r_var c) \<and> (\<forall>r\<in>set c. named_full r)) l w)
     (\<lambda>_. \<not> (\<forall>r\<in>set l. named_full r))"
  unfolding mi_parse_frame_def mi_alloc_frames_def by (rule frame.list.parse_law)

lemma full_tuple_named: "full_v (VTuple l) \<Longrightarrow> \<forall>r\<in>set l. named_full r"
  by (simp add: named_full_def)

interpretation frames: list_scanner frames_node "\<lambda>fs. \<Sum>f\<leftarrow>fs. blocks_frame f" "\<lambda>_. {}" neat_node "[]"
proof (unfold_locales, goal_cases)
  case (1 s r w)
  show ?case
  proof (cases r rule: node_cases)
    case (tuple v l)
    have "wp (mi_parse_frame l w) (\<lambda>(p, l1, w1). turn_law (\<lambda>fs. \<Sum>f\<leftarrow>fs. blocks_frame f) (\<lambda>_. {}) neat_node s r w
        (case p of None \<Rightarrow> s | Some f \<Rightarrow> s @ [f], set_rs r l1, w1)) (\<lambda>_. \<not> neat_node r)"
      by (rule wp_mono [OF parse_frame_law])
        (auto simp: read_law_def turn_law_def neat_node_def tuple named_full_def split: option.splits)
    then show ?thesis
      by (auto simp: frames_node_def tuple turn_law_def elim: wp_mono)
  next
    case (const v p)
    then show ?thesis by (simp add: frames_node_def turn_law_def)
  next
    case (list v l)
    then show ?thesis by (simp add: frames_node_def turn_law_def)
  next
    case (anon x)
    then show ?thesis by (simp add: frames_node_def c_var_def neat_node_def named_full_def)
  qed
qed simp_all

section \<open>Waits\<close>

definition mi_res_frame :: "mi_frame option com" where
  "mi_res_frame = seq (mi_res_done_var ''frame'')
     (read_value (\<lambda>r. r_type r = t_tuple) None mi_parse_frame)"

definition mi_res_frames_array :: "string \<Rightarrow> mi_frame list com" where
  "mi_res_frames_array var = seq (mi_res_done_var var)
     (read_value (\<lambda>r. r_type r = t_list) [] (scan frames_node []))"

definition mi_res_frames_list :: "mi_frame list com" where
  "mi_res_frames_list = seq mi_get_response_blk (\<lambda>r.
     case the_record r MI_CL_DONE of
       None \<Rightarrow> seq (heap (mi_free_output r)) (\<lambda>_. ret [])
     | Some x \<Rightarrow>
         seq (on_w (\<lambda>w. bnd (scan frames_node [] (o_c x) w) (\<lambda>(fs, l, w1). Inr ((fs, l), w1))))
           (\<lambda>(fs, l). seq (heap (mi_free_output (set_results r l))) (\<lambda>_. ret fs)))"

text \<open>The frame of the first stop record that has one, with the response as it is after that.\<close>

fun find_frame :: "mi_results list \<Rightarrow> world \<Rightarrow> ((mi_frame option) option \<times> mi_results list \<times> world) run" where
  "find_frame [] w = Inr (None, [], w)"
| "find_frame (p # ps) w = bnd (c_var p) (\<lambda>v.
     if v = ''frame'' then
       bnd (c_rs p) (\<lambda>l. bnd (mi_parse_frame l w) (\<lambda>(f, l1, w1). Inr (Some f, set_rs p l1 # ps, w1)))
     else bnd (find_frame ps w) (\<lambda>(f, ps1, w1). Inr (f, p # ps1, w1)))"

fun mi_get_async_frame :: "mi_output list \<Rightarrow> world \<Rightarrow> (mi_frame option \<times> mi_output list \<times> world) run" where
  "mi_get_async_frame [] w = Inr (None, [], w)"
| "mi_get_async_frame (r # rs) w =
     (if is_stop r then
        bnd (find_frame (o_c r) w) (\<lambda>(f, l, w1).
          case f of
            Some x \<Rightarrow> Inr (x, r\<lparr>o_c := l\<rparr> # rs, w1)
          | None \<Rightarrow> bnd (mi_get_async_frame rs w1) (\<lambda>(x, rs1, w2). Inr (x, r\<lparr>o_c := l\<rparr> # rs1, w2)))
      else bnd (mi_get_async_frame rs w) (\<lambda>(x, rs1, w1). Inr (x, r # rs1, w1)))"

section \<open>Thread numbers\<close>

text \<open>The array has as many places as gdb said there are threads; the loop does not look at that.\<close>

fun thread_fill :: "mi_results list \<Rightarrow> int list \<Rightarrow> nat \<Rightarrow> int list run" where
  "thread_fill [] lst i = Inr lst"
| "thread_fill (l # ls) lst i = bnd (c_var l) (\<lambda>v.
     if v = ''thread-id'' \<and> r_type l = t_const then
       bnd (c_str l) (\<lambda>s.
         if i < length lst then thread_fill ls (lst[i := atoi s]) (Suc i) else Inl Over_write)
     else thread_fill ls lst i)"

definition mi_get_thread_ids :: "mi_output option \<Rightarrow> world \<Rightarrow> (int \<times> int list option \<times> world) run" where
  "mi_get_thread_ids res w =
     bnd (mi_get_var res ''number-of-threads'') (\<lambda>vi.
     bnd (mi_get_var res ''thread-ids'') (\<lambda>li.
       case (res, vi, li) of
         (Some r, Some vk, Some lk) \<Rightarrow>
           (let vids = o_c r ! vk; lids = o_c r ! lk in
            if r_type vids = t_const \<and> r_type lids = t_tuple then
              bnd (c_str vids) (\<lambda>s.
                let ids = atoi s in
                if ids \<noteq> 0 then
                  (let (ok, w1) = mi_calloc ids 4 w in
                   if ok then
                     bnd (c_rs lids) (\<lambda>l. bnd (thread_fill l (replicate (nat ids) 0) 0) (\<lambda>lst.
                       Inr (ids, Some lst, w1)))
                   else Inr (- 1, None, w1))
                else Inr (0, None, w))
            else Inr (- 1, None, w))
       | _ \<Rightarrow> Inr (- 1, None, w)))"

definition mi_res_thread_ids :: "(int \<times> int list option) com" where
  "mi_res_thread_ids = seq mi_get_response_blk (\<lambda>r.
     seq (case the_record r MI_CL_DONE of
            None \<Rightarrow> ret (- 1, None)
          | Some x \<Rightarrow> on_w (\<lambda>w. bnd (mi_get_thread_ids (Some x) w) (\<lambda>(i, l, w1). Inr ((i, l), w1))))
       (\<lambda>p. seq (heap (mi_free_output r)) (\<lambda>_. ret p)))"

section \<open>What the readers of frames guarantee\<close>

definition frame_is :: "mi_frame \<Rightarrow> mi_results list \<Rightarrow> mi_frame \<Rightarrow> bool" where
  "frame_is f0 l f \<longleftrightarrow>
     fr_level f = or_else (last_str l ''level'') (fr_level f0) atoi \<and>
     fr_addr f = or_else (last_str l ''addr'') (fr_addr f0) strtoul0 \<and>
     fr_func f = or_else (last_str l ''func'') (fr_func f0) Some \<and>
     fr_file f = or_else (last_str l ''file'') (fr_file f0) Some \<and>
     fr_from f = or_else (last_str l ''from'') (fr_from f0) Some \<and>
     fr_line f = or_else (last_str l ''line'') (fr_line f0) atoi \<and>
     fr_args f = or_else (last_list l ''args'') (fr_args f0) id"

lemma frame_node_is:
  assumes "named_full c"
  shows "wp (frame_node f c w) (\<lambda>(f1, c1, w1). w1 = w \<and> frame_is f [c] f1) (\<lambda>_. False)"
  using assms
  by (cases rule: named_full_cases) (simp_all add: frame_node_def frame_is_def)

lemma scan_frame_is:
  "\<forall>c\<in>set l. named_full c \<Longrightarrow> \<exists>f1 l1. scan frame_node f l w = Inr (f1, l1, w) \<and> frame_is f l f1"
proof (induction l arbitrary: f)
  case (Cons c l)
  obtain f1 c1 where 1: "frame_node f c w = Inr (f1, c1, w)" "frame_is f [c] f1"
    using frame_node_is [of c f w] Cons.prems by (cases "frame_node f c w") auto
  obtain f2 l2 where 2: "scan frame_node f1 l w = Inr (f2, l2, w)" "frame_is f1 l f2"
    using Cons by fastforce
  have "frame_is f (c # l) f2"
    using 1(2) 2(2) unfolding frame_is_def or_else_step [of c l] or_else_list_step [of c l] by simp
  with 1(1) 2(1) show ?case by simp
qed (simp add: frame_is_def)

text \<open>
  \<open>mi_parse_frame\<close> reads any list of named values, in any order and with values it does not know:
  level and line are the numbers of their constants, the address is their 64-bit value, function,
  file and object are the strings, the arguments are the nodes of their list, and what is absent
  keeps its zero.
\<close>

theorem parse_frame_fields:
  assumes "list_all named_full l" and "oom w = []"
  shows "\<exists>f l1. mi_parse_frame l w = Inr (Some f, l1, add_live 1 w) \<and> frame_is zero_frame l f"
  using scan_frame_is [of l zero_frame "add_live 1 w"] assms
  by (auto simp: mi_parse_frame_def fill_def mi_alloc_frames_def list_all_iff)

definition demo_frame :: "mi_results list" where
  "demo_frame = [MiRes (Some ''addr'') (VConst (Some ''0x10'')), MiRes (Some ''level'') (VConst (Some ''2'')),
     MiRes (Some ''func'') (VConst (Some ''main'')), MiRes (Some ''args'') (VList [])]"

lemma demo_frame_full: "list_all named_full demo_frame"
  by (simp add: demo_frame_def named_full_def good_name_def mi_is_var_name_char_def isalnum_def is_digit_def)

theorem parse_frame_fields_witness:
  "\<exists>f l1. mi_parse_frame demo_frame \<lparr>mi_error = 0, oom = [], live = 5\<rparr> =
      Inr (Some f, l1, \<lparr>mi_error = 0, oom = [], live = 6\<rparr>) \<and>
    fr_level f = 2 \<and> fr_addr f = 16 \<and> fr_func f = Some ''main'' \<and> fr_line f = 0"
proof -
  have at: "atoi ''2'' = 2" by (code_simp)
  have st: "strtoul0 ''0x10'' = 16" by (code_simp)
  show ?thesis
    using parse_frame_fields [OF demo_frame_full, of "\<lparr>mi_error = 0, oom = [], live = 5\<rparr>"]
    by (auto simp: frame_is_def demo_frame_def zero_frame_def at st)
qed

text \<open>
  \<open>mi_res_frame\<close> on a response whose \<open>frame\<close> is a tuple returns its frame and releases all the
  rest: the heap holds at least the blocks of the frame more than without the response, and exactly
  these when no name is repeated; releasing the frame then gives back the state without it.
\<close>

theorem res_frame_balance:
  assumes "mi_get_response_blk c = Inr (r, c1)" and "list_all record_ok r"
    and "answer_of r ''frame'' (\<lambda>x. r_type x = t_tuple) = Some x"
  shows "\<exists>f c2. mi_res_frame c = Inr (f, c2) \<and>
    live (c_w c1) - blocks_os r + worth_opt blocks_frame f \<le> live (c_w c2) \<and>
    (if distinct (map r_var (inner x))
     then live (mi_free_frames (case f of None \<Rightarrow> [] | Some y \<Rightarrow> [y]) (c_w c2)) = live (c_w c1) - blocks_os r
     else True)"
proof -
  have x: "r_type x = t_tuple" "lookup r MI_CL_DONE ''frame'' = Some x"
    using assms(3) by (auto simp: answer_of_def split: option.splits if_splits)
  then obtain v l where "x = MiRes v (VTuple l)" by (cases x; cases "r_val x") auto
  with lookup_named_full [OF x(2) assms(2)] have l: "\<forall>n\<in>set (inner x). named_full n"
    by (simp add: named_full_def)
  have "r_type x \<noteq> t_const" using x(1) by simp
  from frame.list.read_answer [OF assms this l, of None]
  obtain f l' w' c2 where run: "mi_res_frame c = Inr (f, c2)"
    and le: "live (c_w c1) - blocks_os r + worth_opt blocks_frame f \<le> live (c_w c2)"
    and eq: "distinct (map r_var (inner x)) \<and> (\<forall>n\<in>set (inner x). named_full n) \<Longrightarrow>
      live (c_w c2) = live (c_w c1) - blocks_os r + worth_opt blocks_frame f"
    unfolding mi_res_frame_def mi_parse_frame_def mi_alloc_frames_def by metis
  have "live (mi_free_frames (case f of None \<Rightarrow> [] | Some y \<Rightarrow> [y]) (c_w c2)) =
      live (c_w c2) - worth_opt blocks_frame f"
    by (cases f) (simp_all add: release_live)
  with run le eq l show ?thesis by auto
qed

theorem res_frame_balance_witness:
  "\<exists>c1 f c2. mi_get_response_blk (holding (demo_response ''frame'' (VTuple demo_frame))) =
      Inr (demo_response ''frame'' (VTuple demo_frame), c1) \<and>
    mi_res_frame (holding (demo_response ''frame'' (VTuple demo_frame))) = Inr (f, c2) \<and>
    live (mi_free_frames (case f of None \<Rightarrow> [] | Some y \<Rightarrow> [y]) (c_w c2)) =
      live (c_w c1) - blocks_os (demo_response ''frame'' (VTuple demo_frame))"
proof -
  let ?r = "demo_response ''frame'' (VTuple demo_frame)"
  obtain c1 where 1: "mi_get_response_blk (holding ?r) = Inr (?r, c1)"
    by (rule holding_response [of ?r]) (simp_all add: demo_response_def)
  have ok: "list_all record_ok ?r"
    using demo_frame_full
    by (intro demo_response_ok) (simp_all add: mi_is_var_name_char_def isalnum_def is_digit_def
        list_all_iff named_full_def)
  have ans: "answer_of ?r ''frame'' (\<lambda>x. r_type x = t_tuple) = Some (MiRes (Some ''frame'') (VTuple demo_frame))"
    by (simp add: demo_answer)
  have "distinct (map r_var (inner (MiRes (Some ''frame'') (VTuple demo_frame))))"
    by (simp add: demo_frame_def)
  with res_frame_balance [OF 1 ok ans] 1 show ?thesis by auto
qed

text \<open>The answer of gdb to \<open>-thread-list-ids\<close>: the tuple of the numbers, and how many they are.\<close>

definition thread_answer :: "string list \<Rightarrow> string \<Rightarrow> mi_output" where
  "thread_answer ts k = \<lparr>o_type = MI_T_RESULT_RECORD, o_stype = 0, o_sstype = 0, o_tclass = MI_CL_DONE,
     o_c = [MiRes (Some ''thread-ids'')
              (VTuple (map (\<lambda>s. MiRes (Some ''thread-id'') (VConst (Some s))) ts)),
            MiRes (Some ''number-of-threads'') (VConst (Some k))]\<rparr>"

lemma thread_fill_all:
  "i + length ts \<le> length lst \<Longrightarrow>
     thread_fill (map (\<lambda>s. MiRes (Some ''thread-id'') (VConst (Some s))) ts) lst i =
       Inr (take i lst @ map atoi ts @ drop (i + length ts) lst)"
proof (induction ts arbitrary: lst i)
  case (Cons s ts)
  then show ?case
    using Cons.IH [of "Suc i" "lst[i := atoi s]"] by (simp add: take_Suc_conv_app_nth)
qed simp

lemma thread_fill_over:
  "i \<le> length lst \<Longrightarrow> length lst < i + length ts \<Longrightarrow>
     thread_fill (map (\<lambda>s. MiRes (Some ''thread-id'') (VConst (Some s))) ts) lst i = Inl Over_write"
proof (induction ts arbitrary: lst i)
  case (Cons s ts)
  then show ?case by (cases "i < length lst") simp_all
qed simp

text \<open>
  The thread list is right when gdb's count covers the entries: as many numbers as the count
  says, the entries first and zeros after them, in one block. When gdb lists more threads than it
  counts, the loop writes past the end of the array.
\<close>

theorem thread_ids_list:
  assumes "oom w = []" and "0 < atoi k"
  shows "mi_get_thread_ids (Some (thread_answer ts k)) w =
    (if int (length ts) \<le> atoi k
     then Inr (atoi k, Some (map atoi ts @ replicate (nat (atoi k) - length ts) 0), add_live 1 w)
     else Inl Over_write)"
proof -
  have "mi_calloc (atoi k) 4 w = (True, add_live 1 w)"
    using assms atoi_bounds [of k] by (simp add: mi_calloc_def c_calloc_def)
  moreover have "thread_fill (map (\<lambda>s. MiRes (Some ''thread-id'') (VConst (Some s))) ts)
      (replicate (nat (atoi k)) 0) 0 =
    (if int (length ts) \<le> atoi k then Inr (map atoi ts @ replicate (nat (atoi k) - length ts) 0)
     else Inl Over_write)"
    using assms(2) thread_fill_all [of 0 ts "replicate (nat (atoi k)) 0"]
      thread_fill_over [of 0 "replicate (nat (atoi k)) 0" ts]
    by (auto simp: nat_less_iff not_le)
  ultimately show ?thesis
    using assms(2)
    by (simp add: mi_get_thread_ids_def mi_get_var_def thread_answer_def Let_def)
qed

theorem thread_ids_list_witness:
  "mi_get_thread_ids (Some (thread_answer [''3'', ''1''] ''2'')) \<lparr>mi_error = 0, oom = [], live = 0\<rparr> =
      Inr (2, Some [3, 1], \<lparr>mi_error = 0, oom = [], live = 1\<rparr>) \<and>
   mi_get_thread_ids (Some (thread_answer [''3'', ''1''] ''1'')) \<lparr>mi_error = 0, oom = [], live = 0\<rparr> =
      Inl Over_write"
proof -
  have at: "atoi ''1'' = 1" "atoi ''2'' = 2" "atoi ''3'' = 3" by code_simp+
  show ?thesis
    using thread_ids_list [of "\<lparr>mi_error = 0, oom = [], live = 0\<rparr>" "''2''" "[''3'', ''1'']"]
      thread_ids_list [of "\<lparr>mi_error = 0, oom = [], live = 0\<rparr>" "''1''" "[''3'', ''1'']"]
    by (simp add: at)
qed

end
