(* ===== verification/MI_Breaks.thy ===== *)
theory MI_Breaks
  imports MI_Response
begin

text \<open>
  Breakpoints and watchpoints, \<open>src/parse.c\<close> lines 1231 to 1372: the readers and the waits.
\<close>

section \<open>Breakpoints\<close>

definition bkpt_type :: "string \<Rightarrow> mi_bkp_type" where
  "bkpt_type s = (if s = ''breakpoint'' then t_breakpoint else t_unknown)"

definition bkpt_disp :: "string \<Rightarrow> mi_bkp_disp" where
  "bkpt_disp s = (if s = ''keep'' then d_keep else if s = ''del'' then d_del else d_unknown)"

definition starts_y :: "string \<Rightarrow> bool" where
  "starts_y s \<longleftrightarrow> (case s of c # _ \<Rightarrow> c = CHR ''y'' | [] \<Rightarrow> False)"

text \<open>The body of the loop: nodes without a name are passed over here.\<close>

definition bkpt_node :: "mi_bkpt \<Rightarrow> mi_results \<Rightarrow> world \<Rightarrow> (mi_bkpt \<times> mi_results \<times> world) run" where
  "bkpt_node b p w =
     (case r_var p of
        None \<Rightarrow> Inr (b, p, w)
      | Some v \<Rightarrow>
          if r_type p \<noteq> t_const then Inr (b, p, w)
          else if v = ''number'' then bnd (c_str p) (\<lambda>s. Inr (b\<lparr>bk_number := atoi s\<rparr>, p, w))
          else if v = ''type'' then bnd (c_str p) (\<lambda>s. Inr (b\<lparr>bk_type := bkpt_type s\<rparr>, p, w))
          else if v = ''disp'' then bnd (c_str p) (\<lambda>s. Inr (b\<lparr>bk_disp := bkpt_disp s\<rparr>, p, w))
          else if v = ''enabled'' then bnd (c_str p) (\<lambda>s. Inr (b\<lparr>bk_enabled := starts_y s\<rparr>, p, w))
          else if v = ''addr'' then bnd (c_str p) (\<lambda>s. Inr (b\<lparr>bk_addr := strtoul0 s\<rparr>, p, w))
          else if v = ''func'' then bnd (c_cstr p) (\<lambda>q. Inr (b\<lparr>bk_func := q\<rparr>, take_cstr p, w))
          else if v = ''file'' then bnd (c_cstr p) (\<lambda>q. Inr (b\<lparr>bk_file := q\<rparr>, take_cstr p, w))
          else if v = ''line'' then bnd (c_str p) (\<lambda>s. Inr (b\<lparr>bk_line := atoi s\<rparr>, p, w))
          else if v = ''times'' then bnd (c_str p) (\<lambda>s. Inr (b\<lparr>bk_times := atoi s\<rparr>, p, w))
          else if v = ''ignore'' then bnd (c_str p) (\<lambda>s. Inr (b\<lparr>bk_ignore := atoi s\<rparr>, p, w))
          else if v = ''cond'' then bnd (c_cstr p) (\<lambda>q. Inr (b\<lparr>bk_cond := q\<rparr>, take_cstr p, w))
          else Inr (b, p, w))"

definition mi_get_bkpt :: "mi_results list \<Rightarrow> world \<Rightarrow> (mi_bkpt option \<times> mi_results list \<times> world) run" where
  "mi_get_bkpt p w = fill (mi_alloc_bkpt w) bkpt_node p"

text \<open>A fresh breakpoint is for any thread and with no ignore count.\<close>

definition new_bkpt :: mi_bkpt where
  "new_bkpt = zero_bkpt\<lparr>bk_thread := - 1, bk_ignore := - 1\<rparr>"

lemma mi_alloc_bkpt_new: "mi_alloc_bkpt w = mi_alloc 88 new_bkpt w"
  by (simp add: mi_alloc_bkpt_def mi_alloc_def new_bkpt_def split: prod.splits)

definition bkpt_slots :: "mi_bkpt \<Rightarrow> string option set" where
  "bkpt_slots b = filled ''func'' (bk_func b) \<union> filled ''file'' (bk_file b) \<union> filled ''cond'' (bk_cond b)"

interpretation bkpt: struct_reader bkpt_node blocks_bkpt bkpt_slots full_r 88 new_bkpt
proof (unfold_locales, goal_cases)
  case (1 b p w)
  show ?case
  proof (cases p rule: node_cases)
    case (const v s)
    show ?thesis
      unfolding bkpt_node_def const mi_results.sel option.case val_type.simps
      by (cases s; intro wp_if_cases)
        (auto simp: turn_law_def blocks_bkpt_def bkpt_slots_def c_str_def)
  next
    case (tuple v l)
    then show ?thesis by (simp add: bkpt_node_def turn_law_def subset_insertI)
  next
    case (list v l)
    then show ?thesis by (simp add: bkpt_node_def turn_law_def subset_insertI)
  next
    case (anon x)
    then show ?thesis by (simp add: bkpt_node_def turn_law_def subset_insertI)
  qed
next
  case 2
  show ?case by (simp add: blocks_bkpt_def new_bkpt_def zero_bkpt_def)
next
  case 3
  show ?case by (simp add: bkpt_slots_def new_bkpt_def zero_bkpt_def)
qed

definition mi_res_bkpt :: "mi_bkpt option com" where
  "mi_res_bkpt = seq (mi_res_done_var ''bkpt'')
     (read_value (\<lambda>r. r_type r = t_tuple) None mi_get_bkpt)"

section \<open>Watchpoints\<close>

definition wp_node :: "mi_wp \<Rightarrow> mi_results \<Rightarrow> world \<Rightarrow> (mi_wp \<times> mi_results \<times> world) run" where
  "wp_node x p w =
     (case r_var p of
        None \<Rightarrow> Inr (x, p, w)
      | Some v \<Rightarrow>
          if r_type p \<noteq> t_const then Inr (x, p, w)
          else if v = ''number''
          then bnd (c_str p) (\<lambda>s. Inr (x\<lparr>wp_number := atoi s, wp_enabled := True\<rparr>, p, w))
          else if v = ''exp'' then bnd (c_cstr p) (\<lambda>q. Inr (x\<lparr>wp_exp := q\<rparr>, take_cstr p, w))
          else Inr (x, p, w))"

definition mi_get_wp ::
    "mi_wp_mode \<Rightarrow> mi_results list \<Rightarrow> world \<Rightarrow> (mi_wp option \<times> mi_results list \<times> world) run" where
  "mi_get_wp m p w =
     fill (case mi_alloc_wp w of (None, w1) \<Rightarrow> (None, w1) | (Some x, w1) \<Rightarrow> (Some (x\<lparr>wp_mode := m\<rparr>), w1))
       wp_node p"

lemma mi_get_wp_mode:
  "mi_get_wp m p w = fill (mi_alloc 40 (zero_wp\<lparr>wp_mode := m\<rparr>) w) wp_node p"
  by (simp add: mi_get_wp_def mi_alloc_wp_def mi_alloc_def split: prod.splits)

interpretation wpt: struct_reader wp_node blocks_wp "\<lambda>x. filled ''exp'' (wp_exp x)" full_r 40 "zero_wp\<lparr>wp_mode := m\<rparr>"
  for m
proof (unfold_locales, goal_cases)
  case (1 x p w)
  show ?case
  proof (cases p rule: node_cases)
    case (const v s)
    then show ?thesis
      by (cases s) (auto simp: wp_node_def turn_law_def blocks_wp_def c_str_def)
  next
    case (tuple v l)
    then show ?thesis by (simp add: wp_node_def turn_law_def subset_insertI)
  next
    case (list v l)
    then show ?thesis by (simp add: wp_node_def turn_law_def subset_insertI)
  next
    case (anon y)
    then show ?thesis by (simp add: wp_node_def turn_law_def subset_insertI)
  qed
qed (simp_all add: blocks_wp_def zero_wp_def)

definition wp_name_mode :: "string \<Rightarrow> mi_wp_mode" where
  "wp_name_mode v = (if v = ''wpt'' then wm_write else if v = ''hw-rwpt'' then wm_read
     else if v = ''hw-awpt'' then wm_rw else wm_unknown)"

text \<open>The first node of a watchpoint result: where it is, and its mode.\<close>

fun find_wp :: "mi_results list \<Rightarrow> (nat \<times> mi_wp_mode) option" where
  "find_wp [] = None"
| "find_wp (p # ps) =
     (let m = (case r_var p of None \<Rightarrow> wm_unknown | Some v \<Rightarrow> wp_name_mode v) in
      if m \<noteq> wm_unknown then Some (0, m) else map_option (apfst Suc) (find_wp ps))"

definition mi_parse_wp_res ::
    "mi_results list \<Rightarrow> world \<Rightarrow> (mi_wp option \<times> mi_results list \<times> world) run" where
  "mi_parse_wp_res rs w = (case find_wp rs of
       None \<Rightarrow> Inr (None, rs, w)
     | Some (i, m) \<Rightarrow>
         if r_type (rs ! i) \<noteq> t_tuple then Inr (None, rs, w)
         else bnd (c_rs (rs ! i)) (\<lambda>l. bnd (mi_get_wp m l w) (\<lambda>(x, l1, w1).
           Inr (x, rs[i := set_rs (rs ! i) l1], w1))))"

text \<open>The class of the record is not looked at: an error record has no watchpoint in it.\<close>

definition mi_res_wp :: "mi_wp option com" where
  "mi_res_wp = seq mi_get_response_blk (\<lambda>r.
     case mi_get_rrecord r of
       None \<Rightarrow> seq (heap (mi_free_output r)) (\<lambda>_. ret None)
     | Some i \<Rightarrow>
         seq (on_w (\<lambda>w. bnd (mi_parse_wp_res (o_c (r ! i)) w) (\<lambda>(x, l, w1). Inr ((x, l), w1))))
           (\<lambda>(x, l). seq (heap (mi_free_output (set_results r l))) (\<lambda>_. ret x)))"

section \<open>What the readers guarantee\<close>

definition bkpt_is :: "mi_bkpt \<Rightarrow> mi_results list \<Rightarrow> mi_bkpt \<Rightarrow> bool" where
  "bkpt_is b0 l b \<longleftrightarrow>
     bk_number b = or_else (last_str l ''number'') (bk_number b0) atoi \<and>
     bk_type b = or_else (last_str l ''type'') (bk_type b0) bkpt_type \<and>
     bk_disp b = or_else (last_str l ''disp'') (bk_disp b0) bkpt_disp \<and>
     bk_enabled b = or_else (last_str l ''enabled'') (bk_enabled b0) starts_y \<and>
     bk_addr b = or_else (last_str l ''addr'') (bk_addr b0) strtoul0 \<and>
     bk_func b = or_else (last_str l ''func'') (bk_func b0) Some \<and>
     bk_file b = or_else (last_str l ''file'') (bk_file b0) Some \<and>
     bk_line b = or_else (last_str l ''line'') (bk_line b0) atoi \<and>
     bk_times b = or_else (last_str l ''times'') (bk_times b0) atoi \<and>
     bk_ignore b = or_else (last_str l ''ignore'') (bk_ignore b0) atoi \<and>
     bk_cond b = or_else (last_str l ''cond'') (bk_cond b0) Some \<and>
     bk_thread b = bk_thread b0"

lemma bkpt_node_is:
  assumes "full_r c"
  shows "wp (bkpt_node b c w) (\<lambda>(b1, c1, w1). w1 = w \<and> bkpt_is b [c] b1) (\<lambda>_. False)"
proof (cases c rule: node_cases)
  case (const v s)
  with assms obtain t where "s = Some t" by (cases s) auto
  with const show ?thesis by (simp add: bkpt_node_def bkpt_is_def)
qed (simp_all add: bkpt_node_def bkpt_is_def)

lemma scan_bkpt_is:
  "\<forall>c\<in>set l. full_r c \<Longrightarrow> \<exists>b1 l1. scan bkpt_node b l w = Inr (b1, l1, w) \<and> bkpt_is b l b1"
proof (induction l arbitrary: b)
  case (Cons c l)
  obtain b1 c1 where 1: "bkpt_node b c w = Inr (b1, c1, w)" "bkpt_is b [c] b1"
    using bkpt_node_is [of c b w] Cons.prems by (cases "bkpt_node b c w") auto
  obtain b2 l2 where 2: "scan bkpt_node b1 l w = Inr (b2, l2, w)" "bkpt_is b1 l b2"
    using Cons by fastforce
  have "bkpt_is b (c # l) b2"
    using 1(2) 2(2) unfolding bkpt_is_def or_else_step [of c l] by simp
  with 1(1) 2(1) show ?case by simp
qed (simp add: bkpt_is_def)

text \<open>
  C36: \<open>mi_res_bkpt\<close> on a response whose \<open>bkpt\<close> is a tuple returns a breakpoint whose fields are those
  of the tuple (numbers, flags and strings, each with its default when absent); the heap then holds
  its blocks and nothing else of the response when no name is repeated, and releasing it gives back
  the state without it.
\<close>

theorem res_bkpt_fields:
  assumes "mi_get_response_blk c = Inr (r, c1)" and "list_all record_ok r" and "oom (c_w c1) = []"
    and "answer_of r ''bkpt'' (\<lambda>x. r_type x = t_tuple) = Some x" and "distinct (map r_var (inner x))"
  shows "\<exists>b c2. mi_res_bkpt c = Inr (Some b, c2) \<and> bkpt_is new_bkpt (inner x) b \<and>
    live (c_w c2) = live (c_w c1) - blocks_os r + blocks_bkpt b \<and>
    live (mi_free_bkpt [b] (c_w c2)) = live (c_w c1) - blocks_os r"
proof -
  have x: "r_type x = t_tuple" "lookup r MI_CL_DONE ''bkpt'' = Some x"
    using assms(4) by (auto simp: answer_of_def split: option.splits if_splits)
  then obtain v l where xl: "x = MiRes v (VTuple l)" by (cases x; cases "r_val x") auto
  with lookup_named_full [OF x(2) assms(2)] have l: "\<forall>n\<in>set (inner x). full_r n"
    by (simp add: named_full_def inner_def)
  have "r_type x \<noteq> t_const" using x(1) by simp
  from bkpt.list.read_answer [OF assms(1,2,4) this l, of None]
  obtain p l' w' c2 where run: "mi_res_bkpt c = Inr (p, c2)"
    and parse: "mi_get_bkpt (inner x) (add_live (blocks_r x - blocks_os r) (c_w c1)) = Inr (p, l', w')"
    and eq: "distinct (map r_var (inner x)) \<and> (\<forall>n\<in>set (inner x). full_r n) \<Longrightarrow>
      live (c_w c2) = live (c_w c1) - blocks_os r + worth_opt blocks_bkpt p"
    unfolding mi_res_bkpt_def mi_get_bkpt_def mi_alloc_bkpt_new by metis
  obtain b where "p = Some b" "bkpt_is new_bkpt (inner x) b"
    using parse scan_bkpt_is [OF l, of new_bkpt "add_live 1 (add_live (blocks_r x - blocks_os r) (c_w c1))"] assms(3)
    by (auto simp: mi_get_bkpt_def mi_alloc_bkpt_new fill_def)
  with run eq l assms(5) show ?thesis by (auto simp: release_live)
qed

theorem res_bkpt_fields_witness:
  "let r = demo_response ''bkpt'' (VTuple [MiRes (Some ''number'') (VConst (Some ''3'')),
       MiRes (Some ''enabled'') (VConst (Some ''y'')), MiRes (Some ''file'') (VConst (Some ''a.c''))])
   in \<exists>b c2. mi_res_bkpt (holding r) = Inr (Some b, c2) \<and> bk_number b = 3 \<and> bk_enabled b \<and>
     bk_file b = Some ''a.c'' \<and> bk_func b = None \<and> bk_ignore b = - 1"
proof -
  let ?t = "VTuple [MiRes (Some ''number'') (VConst (Some ''3'')),
       MiRes (Some ''enabled'') (VConst (Some ''y'')), MiRes (Some ''file'') (VConst (Some ''a.c''))]"
  let ?r = "demo_response ''bkpt'' ?t"
  have at: "atoi ''3'' = 3" by code_simp
  obtain c1 where 1: "mi_get_response_blk (holding ?r) = Inr (?r, c1)" "oom (c_w c1) = []"
    by (rule holding_response [of ?r]) (simp_all add: demo_response_def)
  have ok: "list_all record_ok ?r"
    by (intro demo_response_ok) (simp_all add: good_name_def mi_is_var_name_char_def isalnum_def is_digit_def)
  have ans: "answer_of ?r ''bkpt'' (\<lambda>x. r_type x = t_tuple) = Some (MiRes (Some ''bkpt'') ?t)"
    by (simp add: demo_answer)
  from res_bkpt_fields [OF 1(1) ok 1(2) ans] show ?thesis
    by (auto simp: inner_def bkpt_is_def new_bkpt_def zero_bkpt_def starts_y_def at)
qed

text \<open>
  A watchpoint answer gives its number, expression and the mode its name stands for, from the
  first node that names a watchpoint; the rest of the results is left as it was.
\<close>

theorem parse_wp_result:
  assumes "oom w = []" and "wp_name_mode v = m" and "m \<noteq> wm_unknown"
    and "\<forall>p\<in>set before. case r_var p of None \<Rightarrow> True | Some u \<Rightarrow> wp_name_mode u = wm_unknown"
  shows "mi_parse_wp_res (before @ MiRes (Some v) (VTuple [MiRes (Some ''number'') (VConst (Some k)),
        MiRes (Some ''exp'') (VConst (Some e))]) # others) w =
    Inr (Some \<lparr>wp_number = atoi k, wp_exp = Some e, wp_mode = m, wp_enabled = True\<rparr>,
      before @ MiRes (Some v) (VTuple [MiRes (Some ''number'') (VConst (Some k)),
        MiRes (Some ''exp'') (VConst None)]) # others, add_live 1 w)"
proof -
  have "find_wp (before @ MiRes (Some v) x # others) = Some (length before, m)" for x
    using assms(2-4) by (induction before) (auto split: option.splits)
  with assms(1) show ?thesis
    by (simp add: mi_parse_wp_res_def mi_get_wp_mode fill_def wp_node_def zero_wp_def)
qed

theorem parse_wp_result_witness:
  "mi_parse_wp_res [MiRes (Some ''hw-rwpt'') (VTuple [MiRes (Some ''number'') (VConst (Some ''4'')),
        MiRes (Some ''exp'') (VConst (Some ''x''))])] \<lparr>mi_error = 0, oom = [], live = 0\<rparr> =
    Inr (Some \<lparr>wp_number = 4, wp_exp = Some ''x'', wp_mode = wm_read, wp_enabled = True\<rparr>,
      [MiRes (Some ''hw-rwpt'') (VTuple [MiRes (Some ''number'') (VConst (Some ''4'')),
        MiRes (Some ''exp'') (VConst None)])], \<lparr>mi_error = 0, oom = [], live = 1\<rparr>)"
proof -
  have at: "atoi ''4'' = 4" by code_simp
  show ?thesis
    using parse_wp_result [of "\<lparr>mi_error = 0, oom = [], live = 0\<rparr>" "''hw-rwpt''" wm_read "[]" "''4''" "''x''" "[]"]
    by (simp add: wp_name_mode_def at)
qed

end
