(* ===== verification/MI_Vars.thy ===== *)
theory MI_Vars
  imports MI_Response
begin

text \<open>
  Variable objects, \<open>src/parse.c\<close> lines 930 to 1229: one variable, the list of changed variables of
  both MI versions, and the children of a variable.
\<close>

section \<open>One variable\<close>

definition ends_star :: "string \<Rightarrow> bool" where
  "ends_star s \<longleftrightarrow> s \<noteq> [] \<and> last s = CHR ''*''"

definition set_type :: "string \<Rightarrow> gvar_fields \<Rightarrow> gvar_fields" where
  "set_type s g = g\<lparr>gv_type := Some s, gv_ispointer := (if ends_star s then True else gv_ispointer g)\<rparr>"

definition attr_of :: "string \<Rightarrow> int" where
  "attr_of s = (if s = ''editable'' then MI_ATTR_EDITABLE else MI_ATTR_NONEDITABLE)"

text \<open>The strings of the variable are released before they are replaced.\<close>

definition gvar_node :: "gvar_fields \<Rightarrow> mi_results \<Rightarrow> world \<Rightarrow> (gvar_fields \<times> mi_results \<times> world) run" where
  "gvar_node g r w =
     (if r_type r \<noteq> t_const then Inr (g, r, w)
      else bnd (c_var r) (\<lambda>v.
        if v = ''name'' then bnd (c_cstr r) (\<lambda>p.
          Inr (g\<lparr>gv_name := p\<rparr>, take_cstr r, c_free (gv_name g) w))
        else if v = ''numchild'' then bnd (c_str r) (\<lambda>s. Inr (g\<lparr>gv_numchild := atoi s\<rparr>, r, w))
        else if v = ''type'' then bnd (c_str r) (\<lambda>s.
          Inr (set_type s g, take_cstr r, c_free (gv_type g) w))
        else if v = ''lang'' then bnd (c_str r) (\<lambda>s. Inr (g\<lparr>gv_lang := mi_lang_str_to_enum s\<rparr>, r, w))
        else if v = ''exp'' then bnd (c_cstr r) (\<lambda>p.
          Inr (g\<lparr>gv_exp := p\<rparr>, take_cstr r, c_free (gv_exp g) w))
        else if v = ''format'' then bnd (c_str r) (\<lambda>s.
          Inr (g\<lparr>gv_format := mi_format_str_to_enum s\<rparr>, r, w))
        else if v = ''attr'' then bnd (c_str r) (\<lambda>s. Inr (g\<lparr>gv_attr := attr_of s\<rparr>, r, w))
        else Inr (g, r, w)))"

interpretation gvar: field_scanner gvar_node blocks_gvf "\<lambda>_. {}" named_full
proof (unfold_locales, goal_cases)
  case (1 g r w)
  show ?case
  proof (cases r rule: node_cases)
    case (const v s)
    show ?thesis
      unfolding gvar_node_def const
      by (cases s; simp only: val_type.simps mi_results.sel node_MiRes bnd_simps c_str_def if_False
          simp_thms; intro wp_if_cases)
        (auto simp: turn_law_def blocks_gvf_def set_type_def c_free_live c_str_def named_full_def)
  next
    case (tuple v l)
    then show ?thesis by (simp add: gvar_node_def turn_law_def)
  next
    case (list v l)
    then show ?thesis by (simp add: gvar_node_def turn_law_def)
  next
    case (anon x)
    then show ?thesis
      by (cases x) (simp_all add: gvar_node_def turn_law_def named_full_def c_var_def)
  qed
qed

text \<open>
  \<open>mi_get_gvar\<close>: the results of the record, the variable to fill or NULL for a new one, and the
  expression or NULL. The expression is copied over whatever \<open>exp\<close> pointed at.
\<close>

definition mi_get_gvar :: "mi_results list \<Rightarrow> mi_gvar option \<Rightarrow> string option \<Rightarrow> world
    \<Rightarrow> (mi_gvar option \<times> mi_results list \<times> world) run" where
  "mi_get_gvar c cur expression w =
     (case (case cur of Some v \<Rightarrow> (Some v, w) | None \<Rightarrow> mi_alloc_gvar w) of
        (None, w1) \<Rightarrow> Inr (None, c, w1)
      | (Some (GVar g kids), w1) \<Rightarrow>
          let (g1, w2) = (case expression of
                None \<Rightarrow> (g, w1)
              | Some e \<Rightarrow> (let (d, w') = c_strdup e w1 in (g\<lparr>gv_exp := d\<rparr>, w')))
          in bnd (scan gvar_node g1 c w2) (\<lambda>(g2, c1, w3). Inr (Some (GVar g2 kids), c1, w3)))"

text \<open>On success a variable that was passed in is updated; else it is as it was.\<close>

definition mi_res_gvar :: "mi_gvar option \<Rightarrow> string option \<Rightarrow> mi_gvar option com" where
  "mi_res_gvar cur expression = seq mi_get_response_blk (\<lambda>r.
     case the_record r MI_CL_DONE of
       None \<Rightarrow> seq (heap (mi_free_output r)) (\<lambda>_. ret None)
     | Some x \<Rightarrow>
         seq (on_w (\<lambda>w. bnd (mi_get_gvar (o_c x) cur expression w) (\<lambda>(g, l, w1). Inr ((g, l), w1))))
           (\<lambda>(g, l). seq (heap (mi_free_output (set_results r l))) (\<lambda>_. ret g)))"

section \<open>Changed variables\<close>

definition chg_node :: "mi_gvar_chg \<Rightarrow> mi_results \<Rightarrow> world \<Rightarrow> (mi_gvar_chg \<times> mi_results \<times> world) run" where
  "chg_node n r w =
     (if r_type r \<noteq> t_const then Inr (n, r, w)
      else bnd (c_var r) (\<lambda>v.
        if v = ''name'' then bnd (c_cstr r) (\<lambda>p. Inr (n\<lparr>chg_name := p\<rparr>, take_cstr r, w))
        else if v = ''in_scope'' then bnd (c_str r) (\<lambda>s. Inr (n\<lparr>chg_in_scope := (s = ''true'')\<rparr>, r, w))
        else if v = ''new_type'' then bnd (c_cstr r) (\<lambda>p. Inr (n\<lparr>chg_new_type := p\<rparr>, take_cstr r, w))
        else if v = ''new_num_children''
        then bnd (c_str r) (\<lambda>s. Inr (n\<lparr>chg_new_num_children := atoi s\<rparr>, r, w))
        else Inr (n, r, w)))"

interpretation chg: struct_reader chg_node blocks_chg
  "\<lambda>n. filled ''name'' (chg_name n) \<union> filled ''new_type'' (chg_new_type n)" named_full 40 zero_gvar_chg
proof (unfold_locales, goal_cases)
  case (1 n r w)
  show ?case
  proof (cases r rule: node_cases)
    case (const v s)
    show ?thesis
      unfolding chg_node_def const
      by (cases s; simp only: val_type.simps mi_results.sel node_MiRes bnd_simps if_False
          simp_thms; intro wp_if_cases)
        (auto simp: turn_law_def blocks_chg_def c_str_def named_full_def)
  next
    case (tuple v l)
    then show ?thesis by (auto simp: chg_node_def turn_law_def)
  next
    case (list v l)
    then show ?thesis by (auto simp: chg_node_def turn_law_def)
  next
    case (anon x)
    then show ?thesis
      by (cases x) (auto simp: chg_node_def turn_law_def named_full_def c_var_def)
  qed
qed (simp_all add: blocks_chg_def zero_gvar_chg_def)

text \<open>An empty tuple has no first node to look at.\<close>

definition mi_get_gvar_chg ::
    "mi_results list \<Rightarrow> world \<Rightarrow> (mi_gvar_chg option \<times> mi_results list \<times> world) run" where
  "mi_get_gvar_chg r w = (case r of
       [] \<Rightarrow> Inl Null_deref
     | x # _ \<Rightarrow> if r_type x \<noteq> t_const then Inr (None, r, w)
                else fill (mi_alloc_gvar_chg w) chg_node r)"

text \<open>MI v2: a list of tuples, one for each variable. The count starts at 1.\<close>

definition chgs_node :: "mi_gvar_chg list \<times> int \<Rightarrow> mi_results \<Rightarrow> world
    \<Rightarrow> ((mi_gvar_chg list \<times> int) \<times> mi_results \<times> world) run" where
  "chgs_node s r w =
     (if r_type r \<noteq> t_tuple then Inr (s, r, w)
      else bnd (c_rs r) (\<lambda>l. bnd (mi_get_gvar_chg l w) (\<lambda>(n, l1, w1).
        Inr ((case n of None \<Rightarrow> s | Some x \<Rightarrow> (fst s @ [x], snd s + 1)), set_rs r l1, w1))))"

text \<open>
  MI v1: one tuple with the fields of all variables one after the other; a name starts the next
  variable. \<open>None\<close> for the list is the pointer to the list that was released because memory ran
  out; the function returns at once then.
\<close>

definition add_chg :: "mi_gvar_chg option \<Rightarrow> mi_gvar_chg list \<times> int \<Rightarrow> mi_gvar_chg list \<times> int" where
  "add_chg n s = (case n of None \<Rightarrow> s | Some x \<Rightarrow> (fst s @ [x], snd s + 1))"

fun chgs_v1 :: "mi_gvar_chg list \<times> int \<Rightarrow> mi_gvar_chg option \<Rightarrow> mi_results list \<Rightarrow> world
    \<Rightarrow> ((mi_gvar_chg list \<times> int) option \<times> mi_results list \<times> world) run" where
  "chgs_v1 s n [] w = Inr (Some (add_chg n s), [], w)"
| "chgs_v1 s n (r # rs) w =
     (let go = (\<lambda>s n r w. bnd (chgs_v1 s n rs w) (\<lambda>(x, rs1, w1). Inr (x, r # rs1, w1))) in
      if r_type r \<noteq> t_const then go s n r w
      else bnd (c_var r) (\<lambda>v.
        if v = ''name'' then
          (let s1 = add_chg n s in
           case mi_alloc_gvar_chg w of
             (None, w1) \<Rightarrow> Inr (None, r # rs, mi_free_gvar_chg (fst s1) w1)
           | (Some x, w1) \<Rightarrow> bnd (c_cstr r) (\<lambda>p. go s1 (Some (x\<lparr>chg_name := p\<rparr>)) (take_cstr r) w1))
        else if v \<in> {''in_scope'', ''new_type'', ''new_num_children''} then
          (case n of
             None \<Rightarrow> Inl Null_deref
           | Some x \<Rightarrow> bnd (chg_node x r w) (\<lambda>(x1, r1, w1). go s (Some x1) r1 w1))
        else go s n r w))"

definition mi_res_changelist :: "(int \<times> mi_gvar_chg list option) com" where
  "mi_res_changelist = seq (mi_res_done_var ''changelist'') (\<lambda>res.
     case res of
       None \<Rightarrow> ret (0, Some [])
     | Some x \<Rightarrow>
         (case r_val x of
            VList l \<Rightarrow>
              seq (on_w (\<lambda>w. bnd (scan chgs_node ([], 1) l w) (\<lambda>(s, l1, w1). Inr ((s, l1), w1))))
                (\<lambda>(s, l1). seq (heap (mi_free_results [set_rs x l1])) (\<lambda>_. ret (snd s, Some (fst s))))
          | VTuple l \<Rightarrow>
              seq (on_w (\<lambda>w. bnd (chgs_v1 ([], 1) None l w) (\<lambda>(s, l1, w1). Inr ((s, l1), w1))))
                (\<lambda>(s, l1). case s of
                   None \<Rightarrow> ret (0, None)
                 | Some y \<Rightarrow> seq (heap (mi_free_results [set_rs x l1])) (\<lambda>_. ret (snd y, Some (fst y))))
          | VConst s \<Rightarrow> seq (heap (mi_free_results [x])) (\<lambda>_. ret (1, Some []))))"

section \<open>Children\<close>

definition child_node :: "gvar_fields \<Rightarrow> mi_results \<Rightarrow> world \<Rightarrow> (gvar_fields \<times> mi_results \<times> world) run" where
  "child_node g r w =
     (if r_type r \<noteq> t_const then Inr (g, r, w)
      else bnd (c_var r) (\<lambda>v.
        if v = ''name'' then bnd (c_cstr r) (\<lambda>p. Inr (g\<lparr>gv_name := p\<rparr>, take_cstr r, w))
        else if v = ''exp'' then bnd (c_cstr r) (\<lambda>p. Inr (g\<lparr>gv_exp := p\<rparr>, take_cstr r, w))
        else if v = ''type'' then bnd (c_str r) (\<lambda>s. Inr (set_type s g, take_cstr r, w))
        else if v = ''value'' then bnd (c_cstr r) (\<lambda>p. Inr (g\<lparr>gv_value := p\<rparr>, take_cstr r, w))
        else if v = ''numchild'' then bnd (c_str r) (\<lambda>s. Inr (g\<lparr>gv_numchild := atoi s\<rparr>, r, w))
        else Inr (g, r, w)))"

definition child_slots :: "gvar_fields \<Rightarrow> string option set" where
  "child_slots g = filled ''name'' (gv_name g) \<union> filled ''exp'' (gv_exp g) \<union>
     filled ''type'' (gv_type g) \<union> filled ''value'' (gv_value g)"

interpretation child: field_scanner child_node blocks_gvf child_slots named_full
proof (unfold_locales, goal_cases)
  case (1 g r w)
  show ?case
  proof (cases r rule: node_cases)
    case (const v s)
    show ?thesis
      unfolding child_node_def const
      by (cases s; simp only: val_type.simps mi_results.sel node_MiRes bnd_simps if_False
          simp_thms; intro wp_if_cases)
        (auto simp: turn_law_def blocks_gvf_def child_slots_def set_type_def c_str_def named_full_def)
  next
    case (tuple v l)
    then show ?thesis by (simp add: child_node_def turn_law_def subset_insertI)
  next
    case (list v l)
    then show ?thesis by (simp add: child_node_def turn_law_def subset_insertI)
  next
    case (anon x)
    then show ?thesis
      by (cases x) (simp_all add: child_node_def turn_law_def named_full_def c_var_def subset_insertI)
  qed
qed

text \<open>
  The loop of \<open>mi_get_children\<close>: the children so far, whether \<open>cur\<close> is set, and the count \<open>i\<close>. It
  ends early (\<open>None\<close>) when memory runs out.
\<close>

fun children_loop :: "int \<Rightarrow> int \<Rightarrow> mi_results list \<Rightarrow> mi_gvar list \<Rightarrow> bool \<Rightarrow> int \<Rightarrow> world
    \<Rightarrow> (int option \<times> mi_gvar list \<times> mi_results list \<times> world) run" where
  "children_loop count depth [] kids cur i w = Inr (Some i, kids, [], w)"
| "children_loop count depth (c # cs) kids cur i w = bnd (c_var c) (\<lambda>v.
     if v = ''child'' \<and> r_type c = t_tuple \<and> i < count then
       bnd (c_rs c) (\<lambda>l.
         case mi_alloc_gvar w of
           (None, w1) \<Rightarrow> Inr (None, kids, c # cs, w1)
         | (Some g, w1) \<Rightarrow>
             if kids \<noteq> [] \<and> \<not> cur then Inl Null_deref
             else bnd (scan child_node ((gv_own g)\<lparr>gv_depth := depth + 1\<rparr>) l w1) (\<lambda>(g1, l1, w2).
               bnd (children_loop count depth cs (kids @ [GVar g1 []]) True (i + 1) w2)
                 (\<lambda>(e, kids1, cs1, w3). Inr (e, kids1, set_rs c l1 # cs1, w3))))
     else bnd (children_loop count depth cs kids cur i w)
       (\<lambda>(e, kids1, cs1, w3). Inr (e, kids1, c # cs1, w3)))"

definition mi_get_children ::
    "mi_results list \<Rightarrow> mi_gvar \<Rightarrow> world \<Rightarrow> (bool \<times> mi_gvar \<times> mi_results list \<times> world) run" where
  "mi_get_children ch v w = (let g = gv_own v in
     bnd (children_loop (gv_numchild g) (gv_depth g) ch (gv_child v) False 0 w) (\<lambda>(e, kids, ch1, w1).
       case e of
         None \<Rightarrow> Inr (False, GVar g kids, ch1, w1)
       | Some i \<Rightarrow> Inr (i = gv_numchild g, GVar (g\<lparr>gv_vischild := i, gv_opened := True\<rparr>) kids, ch1, w1)))"

text \<open>The part of \<open>mi_res_children\<close> between the wait and the release of the response.\<close>

definition fill_children ::
    "mi_results list \<Rightarrow> mi_gvar \<Rightarrow> world \<Rightarrow> (bool \<times> mi_gvar \<times> mi_results list \<times> world) run" where
  "fill_children c v w = bnd (mi_get_var_r c ''numchild'') (\<lambda>num.
     case num of
       None \<Rightarrow> Inr (False, v, c, w)
     | Some k \<Rightarrow>
         if r_type (c ! k) \<noteq> t_const then Inr (False, v, c, w)
         else bnd (c_str (c ! k)) (\<lambda>s.
           let g = (gv_own v)\<lparr>gv_numchild := atoi s\<rparr>;
               w1 = (if gv_child v \<noteq> [] then mi_free_gvar (gv_child v) w else w);
               v1 = GVar g []
           in if gv_numchild g = 0 then Inr (True, v1, c, w1)
              else bnd (mi_get_var_r c ''children'') (\<lambda>ch.
                case ch of
                  None \<Rightarrow> Inr (False, v1, c, w1)
                | Some j \<Rightarrow>
                    if r_type (c ! j) = t_const then Inr (False, v1, c, w1)
                    else bnd (c_rs (c ! j)) (\<lambda>l. bnd (mi_get_children l v1 w1) (\<lambda>(ok, v2, l1, w2).
                      Inr (ok, v2, c[j := set_rs (c ! j) l1], w2))))))"

definition mi_res_children :: "mi_gvar \<Rightarrow> (bool \<times> mi_gvar) com" where
  "mi_res_children v = seq mi_get_response_blk (\<lambda>r.
     case the_record r MI_CL_DONE of
       None \<Rightarrow> seq (heap (mi_free_output r)) (\<lambda>_. ret (False, v))
     | Some x \<Rightarrow>
         seq (on_w (\<lambda>w. bnd (fill_children (o_c x) v w) (\<lambda>(ok, v1, l, w1). Inr ((ok, v1, l), w1))))
           (\<lambda>(ok, v1, l). seq (heap (mi_free_output (set_results r l))) (\<lambda>_. ret (ok, v1))))"

section \<open>Values\<close>

text \<open>\<open>mi_res_value\<close>: the string of the variable \<open>value\<close>, moved out of the node.\<close>

definition mi_res_value :: "string option com" where
  "mi_res_value = seq (mi_res_done_var ''value'') (\<lambda>p.
     case p of
       None \<Rightarrow> ret None
     | Some r \<Rightarrow>
         if r_type r = t_const
         then seq (pure_run (c_cstr r)) (\<lambda>s. seq (heap (mi_free_results [take_cstr r])) (\<lambda>_. ret s))
         else seq (heap (mi_free_results [r])) (\<lambda>_. ret None))"

section \<open>What the readers guarantee\<close>

definition gvar_is :: "gvar_fields \<Rightarrow> mi_results list \<Rightarrow> gvar_fields \<Rightarrow> bool" where
  "gvar_is g0 l g \<longleftrightarrow>
     gv_name g = or_else (last_str l ''name'') (gv_name g0) Some \<and>
     gv_numchild g = or_else (last_str l ''numchild'') (gv_numchild g0) atoi \<and>
     gv_type g = or_else (last_str l ''type'') (gv_type g0) Some \<and>
     gv_lang g = or_else (last_str l ''lang'') (gv_lang g0) mi_lang_str_to_enum \<and>
     gv_exp g = or_else (last_str l ''exp'') (gv_exp g0) Some \<and>
     gv_format g = or_else (last_str l ''format'') (gv_format g0) mi_format_str_to_enum \<and>
     gv_attr g = or_else (last_str l ''attr'') (gv_attr g0) attr_of \<and>
     gv_value g = gv_value g0 \<and> gv_depth g = gv_depth g0"

lemma gvar_node_is:
  assumes "named_full c"
  shows "wp (gvar_node g c w) (\<lambda>(g1, c1, w1). gvar_is g [c] g1) (\<lambda>_. False)"
  using assms
  by (cases rule: named_full_cases) (simp_all add: gvar_node_def gvar_is_def set_type_def)

lemma scan_gvar_is:
  "\<forall>c\<in>set l. named_full c \<Longrightarrow> \<exists>g1 l1 w1. scan gvar_node g l w = Inr (g1, l1, w1) \<and> gvar_is g l g1"
proof (induction l arbitrary: g w)
  case (Cons c l)
  obtain g1 c1 w1 where 1: "gvar_node g c w = Inr (g1, c1, w1)" "gvar_is g [c] g1"
    using gvar_node_is [of c g w] Cons.prems by (cases "gvar_node g c w") auto
  obtain g2 l2 w2 where 2: "scan gvar_node g1 l w1 = Inr (g2, l2, w2)" "gvar_is g1 l g2"
    using Cons by fastforce
  have "gvar_is g (c # l) g2"
    using 1(2) 2(2) unfolding gvar_is_def or_else_step [of c l] by simp
  with 1(1) 2(1) show ?case by simp
qed (simp add: gvar_is_def)

text \<open>
  A variable created from an answer of gdb has the fields of the answer, and the expression it
  was created for unless the answer has one. No block is lost or owned twice, even when gdb repeats
  a name: the string a field held is released before it is replaced.
\<close>

theorem get_gvar_fields:
  assumes "list_all named_full l" and "oom w = []"
  shows "\<exists>g l1 w1. mi_get_gvar l None (Some e) w = Inr (Some (GVar g []), l1, w1) \<and>
    gvar_is ((gv_own zero_gvar)\<lparr>gv_exp := Some e\<rparr>) l g \<and>
    blocks_gvar (GVar g []) + blocks_l l1 + live w = blocks_l l + live w1"
proof -
  let ?g = "(gv_own zero_gvar)\<lparr>gv_exp := Some e\<rparr>"
  obtain g l1 w1 where sc: "scan gvar_node ?g l (add_live 2 w) = Inr (g, l1, w1)" "gvar_is ?g l g"
    using scan_gvar_is [of l ?g "add_live 2 w"] assms(1) by (auto simp: list_all_iff)
  have "blocks_gvf g + blocks_l l1 + live (add_live 2 w) = blocks_gvf ?g + blocks_l l + live w1"
    using assms(1) by (intro gvar.scan_exact_always [OF refl sc(1)]) (simp add: list_all_iff)
  moreover have "blocks_gvf ?g = 2"
    by (simp add: blocks_gvf_def zero_gvar_def)
  moreover have "mi_get_gvar l None (Some e) w = Inr (Some (GVar g []), l1, w1)"
    using sc(1) assms(2)
    by (simp add: mi_get_gvar_def mi_alloc_gvar_def zero_gvar_def c_strdup_def add.commute [of 2])
  ultimately show ?thesis using sc(2) by auto
qed

theorem get_gvar_fields_witness:
  "\<exists>g l1 w1. mi_get_gvar [MiRes (Some ''name'') (VConst (Some ''var1'')),
      MiRes (Some ''numchild'') (VConst (Some ''3'')), MiRes (Some ''name'') (VConst (Some ''var2''))]
      None (Some ''x'') \<lparr>mi_error = 0, oom = [], live = 5\<rparr> = Inr (Some (GVar g []), l1, w1) \<and>
    gv_name g = Some ''var2'' \<and> gv_numchild g = 3 \<and> gv_exp g = Some ''x'' \<and> gv_type g = None"
proof -
  have at: "atoi ''3'' = 3" by code_simp
  have "list_all named_full [MiRes (Some ''name'') (VConst (Some ''var1'')),
      MiRes (Some ''numchild'') (VConst (Some ''3'')), MiRes (Some ''name'') (VConst (Some ''var2''))]"
    by (simp add: named_full_def good_name_def mi_is_var_name_char_def isalnum_def is_digit_def)
  from get_gvar_fields [OF this, of "\<lparr>mi_error = 0, oom = [], live = 5\<rparr>" "''x''"] show ?thesis
    by (auto simp: gvar_is_def zero_gvar_def at)
qed

definition child_is :: "int \<Rightarrow> mi_results list \<Rightarrow> gvar_fields \<Rightarrow> bool" where
  "child_is depth l g \<longleftrightarrow>
     gv_name g = last_str l ''name'' \<and> gv_exp g = last_str l ''exp'' \<and>
     gv_type g = last_str l ''type'' \<and> gv_value g = last_str l ''value'' \<and>
     gv_numchild g = or_else (last_str l ''numchild'') 0 atoi \<and> gv_depth g = depth + 1"

definition child_upd :: "gvar_fields \<Rightarrow> mi_results list \<Rightarrow> gvar_fields \<Rightarrow> bool" where
  "child_upd g0 l g \<longleftrightarrow>
     gv_name g = or_else (last_str l ''name'') (gv_name g0) Some \<and>
     gv_exp g = or_else (last_str l ''exp'') (gv_exp g0) Some \<and>
     gv_type g = or_else (last_str l ''type'') (gv_type g0) Some \<and>
     gv_value g = or_else (last_str l ''value'') (gv_value g0) Some \<and>
     gv_numchild g = or_else (last_str l ''numchild'') (gv_numchild g0) atoi \<and>
     gv_depth g = gv_depth g0"

lemma child_node_upd:
  assumes "named_full c"
  shows "wp (child_node g c w) (\<lambda>(g1, c1, w1). w1 = w \<and> child_upd g [c] g1) (\<lambda>_. False)"
  using assms
  by (cases rule: named_full_cases) (simp_all add: child_node_def child_upd_def set_type_def)

lemma scan_child_upd:
  "\<forall>c\<in>set l. named_full c \<Longrightarrow> \<exists>g1 l1. scan child_node g l w = Inr (g1, l1, w) \<and> child_upd g l g1"
proof (induction l arbitrary: g)
  case (Cons c l)
  obtain g1 c1 where 1: "child_node g c w = Inr (g1, c1, w)" "child_upd g [c] g1"
    using child_node_upd [of c g w] Cons.prems by (cases "child_node g c w") auto
  obtain g2 l2 where 2: "scan child_node g1 l w = Inr (g2, l2, w)" "child_upd g1 l g2"
    using Cons by fastforce
  have "child_upd g (c # l) g2"
    using 1(2) 2(2) unfolding child_upd_def or_else_step [of c l] by simp
  with 1(1) 2(1) show ?case by simp
qed (simp add: child_upd_def)

lemma children_loop_all:
  assumes "\<forall>t\<in>set ts. list_all named_full t" and "kids = [] \<or> cur" and "i + int (length ts) \<le> count"
    and "oom w = []"
  shows "\<exists>gs ch1. children_loop count depth (map (\<lambda>t. MiRes (Some ''child'') (VTuple t)) ts) kids cur i w =
      Inr (Some (i + int (length ts)), kids @ map (\<lambda>g. GVar g []) gs, ch1, add_live (int (length ts)) w) \<and>
    list_all2 (child_is depth) ts gs"
  using assms
proof (induction ts arbitrary: kids cur i w)
  case (Cons t ts)
  obtain g l1 where sc: "scan child_node ((gv_own zero_gvar)\<lparr>gv_depth := depth + 1\<rparr>) t (add_live 1 w) =
      Inr (g, l1, add_live 1 w)" "child_upd ((gv_own zero_gvar)\<lparr>gv_depth := depth + 1\<rparr>) t g"
    using scan_child_upd [of t "(gv_own zero_gvar)\<lparr>gv_depth := depth + 1\<rparr>" "add_live 1 w"] Cons.prems(1)
    by (auto simp: list_all_iff)
  have g: "child_is depth t g"
    using sc(2) by (simp add: child_upd_def child_is_def zero_gvar_def or_else_Some)
  obtain gs ch1 where ih: "children_loop count depth (map (\<lambda>t. MiRes (Some ''child'') (VTuple t)) ts)
      (kids @ [GVar g []]) True (i + 1) (add_live 1 w) =
      Inr (Some (i + 1 + int (length ts)), (kids @ [GVar g []]) @ map (\<lambda>g. GVar g []) gs, ch1,
        add_live (int (length ts)) (add_live 1 w))" "list_all2 (child_is depth) ts gs"
    using Cons.IH [of "kids @ [GVar g []]" True "i + 1" "add_live 1 w"] Cons.prems by auto
  show ?case
    using Cons.prems sc ih g
    by (intro exI [of _ "g # gs"] exI [of _ "MiRes (Some ''child'') (VTuple l1) # ch1"])
      (auto simp: mi_alloc_gvar_def ac_simps)
qed simp

text \<open>
  When gdb lists as many children as it counts, the variable gets exactly these, in order, one
  level deeper, with the name, expression, type, value and count of each; they are marked visible
  and open, and the function reports success.
\<close>

theorem get_children_all:
  assumes "\<forall>t\<in>set ts. list_all named_full t" and "gv_numchild g = int (length ts)" and "oom w = []"
  shows "\<exists>gs ch1. mi_get_children (map (\<lambda>t. MiRes (Some ''child'') (VTuple t)) ts) (GVar g []) w =
      Inr (True, GVar (g\<lparr>gv_vischild := int (length ts), gv_opened := True\<rparr>) (map (\<lambda>g. GVar g []) gs),
        ch1, add_live (int (length ts)) w) \<and>
    list_all2 (child_is (gv_depth g)) ts gs"
  using children_loop_all [OF assms(1), of "[]" False 0 "gv_numchild g" w "gv_depth g"] assms(2,3)
  by (auto simp: mi_get_children_def)

theorem get_children_all_witness:
  "\<exists>gs ch1. mi_get_children [MiRes (Some ''child'') (VTuple [MiRes (Some ''exp'') (VConst (Some ''x''))])]
      (GVar ((gv_own zero_gvar)\<lparr>gv_numchild := 1\<rparr>) []) \<lparr>mi_error = 0, oom = [], live = 0\<rparr> =
      Inr (True, GVar ((gv_own zero_gvar)\<lparr>gv_numchild := 1, gv_vischild := 1, gv_opened := True\<rparr>)
        (map (\<lambda>g. GVar g []) gs), ch1, \<lparr>mi_error = 0, oom = [], live = 1\<rparr>) \<and>
    map gv_exp gs = [Some ''x'']"
proof -
  have "\<forall>t\<in>set [[MiRes (Some ''exp'') (VConst (Some ''x''))]]. list_all named_full t"
    by (simp add: named_full_def good_name_def mi_is_var_name_char_def isalnum_def is_digit_def)
  from get_children_all [OF this, of "(gv_own zero_gvar)\<lparr>gv_numchild := 1\<rparr>" "\<lparr>mi_error = 0, oom = [], live = 0\<rparr>"]
  show ?thesis by (auto simp: child_is_def list_all2_Cons1)
qed

definition chg_is :: "mi_results list \<Rightarrow> mi_gvar_chg \<Rightarrow> bool" where
  "chg_is l n \<longleftrightarrow> chg_name n = last_str l ''name'' \<and> chg_new_type n = last_str l ''new_type'' \<and>
     chg_in_scope n = or_else (last_str l ''in_scope'') False (\<lambda>s. s = ''true'') \<and>
     chg_new_num_children n = or_else (last_str l ''new_num_children'') 0 atoi"

definition chg_upd :: "mi_gvar_chg \<Rightarrow> mi_results list \<Rightarrow> mi_gvar_chg \<Rightarrow> bool" where
  "chg_upd n0 l n \<longleftrightarrow> chg_name n = or_else (last_str l ''name'') (chg_name n0) Some \<and>
     chg_new_type n = or_else (last_str l ''new_type'') (chg_new_type n0) Some \<and>
     chg_in_scope n = or_else (last_str l ''in_scope'') (chg_in_scope n0) (\<lambda>s. s = ''true'') \<and>
     chg_new_num_children n = or_else (last_str l ''new_num_children'') (chg_new_num_children n0) atoi"

lemma chg_node_upd:
  assumes "named_full c"
  shows "wp (chg_node n c w) (\<lambda>(n1, c1, w1). w1 = w \<and> chg_upd n [c] n1) (\<lambda>_. False)"
  using assms
  by (cases rule: named_full_cases) (simp_all add: chg_node_def chg_upd_def)

lemma scan_chg_upd:
  "\<forall>c\<in>set l. named_full c \<Longrightarrow> \<exists>n1 l1. scan chg_node n l w = Inr (n1, l1, w) \<and> chg_upd n l n1"
proof (induction l arbitrary: n)
  case (Cons c l)
  obtain n1 c1 where 1: "chg_node n c w = Inr (n1, c1, w)" "chg_upd n [c] n1"
    using chg_node_upd [of c n w] Cons.prems by (cases "chg_node n c w") auto
  obtain n2 l2 where 2: "scan chg_node n1 l w = Inr (n2, l2, w)" "chg_upd n1 l n2"
    using Cons by fastforce
  have "chg_upd n (c # l) n2"
    using 1(2) 2(2) unfolding chg_upd_def or_else_step [of c l] by simp
  with 1(1) 2(1) show ?case by simp
qed (simp add: chg_upd_def)

text \<open>A tuple of a change list: it has fields, and the first is a constant.\<close>

definition chg_tuple :: "mi_results list \<Rightarrow> bool" where
  "chg_tuple t \<longleftrightarrow> list_all named_full t \<and> t \<noteq> [] \<and> r_type (hd t) = t_const"

lemma get_gvar_chg_is:
  assumes "chg_tuple t" and "oom w = []"
  obtains n t1 where "mi_get_gvar_chg t w = Inr (Some n, t1, add_live 1 w)" "chg_is t n"
proof -
  obtain n t1 where "scan chg_node zero_gvar_chg t (add_live 1 w) = Inr (n, t1, add_live 1 w)"
    "chg_upd zero_gvar_chg t n"
    using scan_chg_upd [of t zero_gvar_chg "add_live 1 w"] assms(1)
    by (auto simp: chg_tuple_def list_all_iff)
  with assms that show thesis
    by (cases t) (auto simp: mi_get_gvar_chg_def fill_def mi_alloc_gvar_chg_def chg_tuple_def chg_upd_def
        chg_is_def zero_gvar_chg_def or_else_Some)
qed

lemma scan_chgs:
  assumes "\<forall>t\<in>set ts. chg_tuple t" and "oom w = []"
  shows "\<exists>ns l1. scan chgs_node (cs, k) (map (\<lambda>t. MiRes None (VTuple t)) ts) w =
      Inr ((cs @ ns, k + int (length ts)), l1, add_live (int (length ts)) w) \<and> list_all2 chg_is ts ns"
  using assms
proof (induction ts arbitrary: cs k w)
  case (Cons t ts)
  obtain n t1 where n: "mi_get_gvar_chg t w = Inr (Some n, t1, add_live 1 w)" "chg_is t n"
    using get_gvar_chg_is [of t w] Cons.prems by auto
  obtain ns l1 where ih: "scan chgs_node (cs @ [n], k + 1) (map (\<lambda>t. MiRes None (VTuple t)) ts) (add_live 1 w) =
      Inr (((cs @ [n]) @ ns, k + 1 + int (length ts)), l1, add_live (int (length ts)) (add_live 1 w))"
    "list_all2 chg_is ts ns"
    using Cons.IH [of "add_live 1 w" "cs @ [n]" "k + 1"] Cons.prems by auto
  have "chgs_node (cs, k) (MiRes None (VTuple t)) w =
      Inr ((cs @ [n], k + 1), MiRes None (VTuple t1), add_live 1 w)"
    using n(1) by (simp add: chgs_node_def)
  with n(2) ih show ?case
    by (intro exI [of _ "n # ns"] exI [of _ "MiRes None (VTuple t1) # l1"]) (simp add: ac_simps)
qed simp

text \<open>
  An update of MI version 2 yields one change for each tuple of the list, in order, with the
  name, the scope flag, the new type and the new number of children of each; the function returns
  one more than their number, so that an update with no change is still told from a failure.
\<close>

theorem changelist_all:
  assumes "mi_get_response_blk c = Inr (r, c1)" and "list_all record_ok r" and "oom (c_w c1) = []"
    and "lookup r MI_CL_DONE ''changelist'' = Some (MiRes v (VList (map (\<lambda>t. MiRes None (VTuple t)) ts)))"
    and "\<forall>t\<in>set ts. chg_tuple t"
  shows "\<exists>ns c2. mi_res_changelist c = Inr ((1 + int (length ts), Some ns), c2) \<and> list_all2 chg_is ts ns"
proof -
  let ?x = "MiRes v (VList (map (\<lambda>t. MiRes None (VTuple t)) ts))"
  let ?w = "add_live (blocks_r ?x - blocks_os r) (c_w c1)"
  have "mi_res_done_var ''changelist'' c = Inr (Some ?x, c1\<lparr>c_w := ?w\<rparr>)"
    using res_var_find [OF assms(1,2), of "''changelist''" MI_CL_DONE] assms(4)
    by (simp add: mi_res_done_var_def blocks_opt_def)
  moreover obtain ns l1 where "scan chgs_node ([], 1) (map (\<lambda>t. MiRes None (VTuple t)) ts) ?w =
      Inr (([] @ ns, 1 + int (length ts)), l1, add_live (int (length ts)) ?w)" "list_all2 chg_is ts ns"
    using scan_chgs [OF assms(5), of ?w "[]" 1] assms(3) by auto
  ultimately show ?thesis
    by (simp add: mi_res_changelist_def seq_def on_w_def heap_def ret_def)
qed

theorem changelist_all_witness:
  "let r = demo_response ''changelist'' (VList [MiRes None (VTuple
       [MiRes (Some ''name'') (VConst (Some ''var1'')), MiRes (Some ''in_scope'') (VConst (Some ''true''))])])
   in \<exists>n c2. mi_res_changelist (holding r) = Inr ((2, Some [n]), c2) \<and>
     chg_name n = Some ''var1'' \<and> chg_in_scope n \<and> chg_new_type n = None"
proof -
  let ?t = "[MiRes (Some ''name'') (VConst (Some ''var1'')), MiRes (Some ''in_scope'') (VConst (Some ''true''))]"
  let ?r = "demo_response ''changelist'' (VList [MiRes None (VTuple ?t)])"
  obtain c1 where 1: "mi_get_response_blk (holding ?r) = Inr (?r, c1)" "oom (c_w c1) = []"
    by (rule holding_response [of ?r]) (simp_all add: demo_response_def)
  have ok: "list_all record_ok ?r"
    by (intro demo_response_ok) (simp_all add: good_name_def mi_is_var_name_char_def isalnum_def is_digit_def)
  have "lookup ?r MI_CL_DONE ''changelist'' =
      Some (MiRes (Some ''changelist'') (VList (map (\<lambda>t. MiRes None (VTuple t)) [?t])))"
    by (simp add: demo_response_def lookup_def the_record_def record_codes)
  moreover have "\<forall>t\<in>set [?t]. chg_tuple t"
    by (simp add: chg_tuple_def named_full_def good_name_def mi_is_var_name_char_def isalnum_def is_digit_def)
  ultimately show ?thesis
    using changelist_all [OF 1(1) ok 1(2), of "Some ''changelist''" "[?t]"]
    by (auto simp: list_all2_Cons1 chg_is_def)
qed

end
