(* ===== verification/MI_Stop.thy ===== *)
theory MI_Stop
  imports MI_Frames MI_Breaks
begin

text \<open>
  What made the program stop, \<open>src/parse.c\<close> lines 1466 to 1568: \<open>mi_get_stopped\<close> reads the results of
  the asynchronous stop record, with a frame, a watchpoint and the watched values in them, and
  \<open>mi_res_stop\<close> takes that record out of what the handle holds.
\<close>

section \<open>The watched values\<close>

text \<open>The inner loop looks at names only: a node that is no constant is read as a string.\<close>

definition value_node :: "mi_stop \<Rightarrow> mi_results \<Rightarrow> world \<Rightarrow> (mi_stop \<times> mi_results \<times> world) run" where
  "value_node s p w = bnd (c_var p) (\<lambda>v.
     if v = ''value'' \<or> v = ''new''
     then bnd (c_cstr p) (\<lambda>q. Inr (s\<lparr>st_wp_val := q\<rparr>, take_cstr p, w))
     else if v = ''old''
     then bnd (c_cstr p) (\<lambda>q. Inr (s\<lparr>st_wp_old := q\<rparr>, take_cstr p, w))
     else Inr (s, p, w))"

text \<open>Only constants, and not both of the names that fill the same field.\<close>

definition value_fits :: "string \<Rightarrow> mi_results \<Rightarrow> bool" where
  "value_fits k r \<longleftrightarrow> (case r of MiRes (Some v) (VConst (Some t)) \<Rightarrow> v \<in> {''value'', ''new''} \<longrightarrow> v = k | _ \<Rightarrow> False)"

interpretation watched: field_scanner value_node blocks_stop
  "\<lambda>s. filled k (st_wp_val s) \<union> filled ''old'' (st_wp_old s)" "value_fits k" for k
proof (unfold_locales, goal_cases)
  case (1 s r w)
  show ?case
  proof (cases r rule: node_cases)
    case (const v p)
    then show ?thesis
      by (cases p) (auto simp: value_node_def turn_law_def blocks_stop_def value_fits_def)
  next
    case (tuple v l)
    then show ?thesis by (simp add: value_node_def turn_law_def value_fits_def c_cstr_def)
  next
    case (list v l)
    then show ?thesis by (simp add: value_node_def turn_law_def value_fits_def c_cstr_def)
  next
    case (anon x)
    then show ?thesis by (simp add: value_node_def c_var_def value_fits_def)
  qed
qed

section \<open>The stop record\<close>

definition stop_const :: "string \<Rightarrow> mi_stop \<Rightarrow> mi_results \<Rightarrow> world \<Rightarrow> (mi_stop \<times> mi_results \<times> world) run" where
  "stop_const v s r w =
     (if v = ''reason'' then bnd (c_str r) (\<lambda>t. Inr (s\<lparr>st_reason := mi_reason_str_to_enum t\<rparr>, r, w))
      else if \<not> st_have_thread_id s \<and> v = ''thread-id''
      then bnd (c_str r) (\<lambda>t. Inr (s\<lparr>st_have_thread_id := True, st_thread_id := atoi t\<rparr>, r, w))
      else if \<not> st_have_bkptno s \<and> v = ''bkptno''
      then bnd (c_str r) (\<lambda>t. Inr (s\<lparr>st_have_bkptno := True, st_bkptno := atoi t\<rparr>, r, w))
      else if \<not> st_have_bkptno s \<and> v = ''wpnum''
      then bnd (c_str r) (\<lambda>t. Inr (s\<lparr>st_have_wpno := True, st_wpno := atoi t\<rparr>, r, w))
      else if v = ''gdb-result-var''
      then bnd (c_cstr r) (\<lambda>p. Inr (s\<lparr>st_gdb_result_var := p\<rparr>, take_cstr r, w))
      else if v = ''return-value''
      then bnd (c_cstr r) (\<lambda>p. Inr (s\<lparr>st_return_value := p\<rparr>, take_cstr r, w))
      else if v = ''signal-name''
      then bnd (c_cstr r) (\<lambda>p. Inr (s\<lparr>st_signal_name := p\<rparr>, take_cstr r, w))
      else if v = ''signal-meaning''
      then bnd (c_cstr r) (\<lambda>p. Inr (s\<lparr>st_signal_meaning := p\<rparr>, take_cstr r, w))
      else if \<not> st_have_exit_code s \<and> v = ''exit-code''
      then bnd (c_str r) (\<lambda>t. Inr (s\<lparr>st_have_exit_code := True, st_exit_code := atoi t\<rparr>, r, w))
      else Inr (s, r, w))"

definition opt_list :: "'a option \<Rightarrow> 'a list" where
  "opt_list p = (case p of None \<Rightarrow> [] | Some x \<Rightarrow> [x])"

definition stop_wp :: "mi_wp_mode \<Rightarrow> mi_stop \<Rightarrow> mi_results \<Rightarrow> world \<Rightarrow> (mi_stop \<times> mi_results \<times> world) run" where
  "stop_wp m s r w = bnd (c_rs r) (\<lambda>l. bnd (mi_get_wp m l w) (\<lambda>(x, l1, w1).
     Inr (s\<lparr>st_wp := opt_list x\<rparr>, set_rs r l1, w1)))"

definition stop_inner :: "string \<Rightarrow> mi_stop \<Rightarrow> mi_results \<Rightarrow> world \<Rightarrow> (mi_stop \<times> mi_results \<times> world) run" where
  "stop_inner v s r w =
     (if v = ''frame''
      then bnd (c_rs r) (\<lambda>l. bnd (mi_parse_frame l w) (\<lambda>(f, l1, w1).
        Inr (s\<lparr>st_frame := opt_list f\<rparr>, set_rs r l1, w1)))
      else if st_wp s = [] \<and> v = ''wpt'' then stop_wp wm_write s r w
      else if st_wp s = [] \<and> v = ''hw-rwpt'' then stop_wp wm_read s r w
      else if st_wp s = [] \<and> v = ''hw-awpt'' then stop_wp wm_rw s r w
      else if \<not> (st_wp_old s \<noteq> None \<or> st_wp_val s \<noteq> None) \<and> v = ''value''
      then bnd (c_rs r) (\<lambda>l. bnd (scan value_node s l w) (\<lambda>(s1, l1, w1).
        Inr (s1, set_rs r l1, w1)))
      else Inr (s, r, w))"

definition stop_node :: "mi_stop \<Rightarrow> mi_results \<Rightarrow> world \<Rightarrow> (mi_stop \<times> mi_results \<times> world) run" where
  "stop_node s r w = bnd (c_var r) (\<lambda>v.
     if r_type r = t_const then stop_const v s r w else stop_inner v s r w)"

definition mi_get_stopped ::
    "mi_results list \<Rightarrow> world \<Rightarrow> (mi_stop option \<times> mi_results list \<times> world) run" where
  "mi_get_stopped r w = fill (mi_alloc_stop w) stop_node r"

definition mi_res_stop :: "mi_stop option com" where
  "mi_res_stop = seq mi_retire_response (\<lambda>r.
     case mi_get_stop_record r of
       None \<Rightarrow> seq (heap (mi_free_output r)) (\<lambda>_. ret None)
     | Some i \<Rightarrow>
         seq (on_w (\<lambda>w. bnd (mi_get_stopped (o_c (r ! i)) w) (\<lambda>(s, l, w1). Inr ((s, l), w1))))
           (\<lambda>(s, l). seq (heap (mi_free_output (r[i := (r ! i)\<lparr>o_c := l\<rparr>]))) (\<lambda>_. ret s)))"

section \<open>The contract\<close>

definition stop_slots :: "mi_stop \<Rightarrow> string option set" where
  "stop_slots s = (if st_frame s = [] then {} else {Some ''frame''}) \<union>
     filled ''gdb-result-var'' (st_gdb_result_var s) \<union> filled ''return-value'' (st_return_value s) \<union>
     filled ''signal-name'' (st_signal_name s) \<union> filled ''signal-meaning'' (st_signal_meaning s)"

text \<open>A node gdb documents: its inner nodes are those of a frame, a watchpoint or watched values.\<close>

definition stop_fits :: "mi_results \<Rightarrow> bool" where
  "stop_fits r \<longleftrightarrow> named_full r \<and>
     (r_var r = Some ''frame'' \<longrightarrow> distinct (map r_var (inner r)) \<and> (\<forall>n\<in>set (inner r). named_full n)) \<and>
     (r_var r \<in> {Some ''wpt'', Some ''hw-rwpt'', Some ''hw-awpt''} \<longrightarrow>
        distinct (map r_var (inner r)) \<and> (\<forall>n\<in>set (inner r). full_r n)) \<and>
     (r_var r = Some ''value'' \<longrightarrow> distinct (map r_var (inner r)) \<and>
        (\<exists>k. \<forall>n\<in>set (inner r). value_fits k n))"

lemma blocks_opt_list: "(\<Sum>x\<leftarrow>opt_list p. f x) = worth_opt f p"
  by (cases p) (simp_all add: opt_list_def)

lemma stop_frame_law:
  assumes "c_rs r = Inr l" and "r_var r = Some ''frame''"
  shows "wp (bnd (mi_parse_frame l w) (\<lambda>(f, l1, w1). Inr (s\<lparr>st_frame := opt_list f\<rparr>, set_rs r l1, w1)))
    (turn_law blocks_stop stop_slots stop_fits s r w) (\<lambda>_. \<not> stop_fits r)"
proof -
  have l: "inner r = l" using assms(1) by (cases r; cases "r_val r") (simp_all add: c_rs_def)
  have nn: "0 \<le> (\<Sum>f\<leftarrow>st_frame s. blocks_frame f)"
    by (auto intro!: sum_list_nonneg simp: blocks_frame_def blocks_l_nonneg)
  have "turn_law blocks_stop stop_slots stop_fits s r w (s\<lparr>st_frame := opt_list f\<rparr>, set_rs r l1, w1)"
    if law: "read_law (worth_opt blocks_frame) (\<lambda>c. distinct (map r_var c) \<and> (\<forall>r\<in>set c. named_full r)) l w (f, l1, w1)"
    for f l1 w1
  proof -
    have held: "blocks_stop (s\<lparr>st_frame := opt_list f\<rparr>) =
        blocks_stop s - (\<Sum>f\<leftarrow>st_frame s. blocks_frame f) + worth_opt blocks_frame f"
      by (simp add: blocks_stop_def blocks_opt_list)
    have slots: "stop_slots (s\<lparr>st_frame := opt_list f\<rparr>) \<subseteq> insert (r_var r) (stop_slots s)"
      by (auto simp: stop_slots_def assms(2))
    have empty: "st_frame s = []" if "r_var r \<notin> stop_slots s"
      using that assms(2) by (auto simp: stop_slots_def split: if_splits)
    show ?thesis
      using law nn slots empty
      by (auto simp add: turn_law_def held blocks_set_rs [OF assms(1)] read_law_def stop_fits_def l assms(2))
  qed
  then show ?thesis
    by (intro wp_bndI [OF parse_frame_law]) (auto simp: stop_fits_def l assms(2))
qed

lemma stop_wp_law:
  assumes "c_rs r = Inr l" and "r_var r \<in> {Some ''wpt'', Some ''hw-rwpt'', Some ''hw-awpt''}"
    and "st_wp s = []"
  shows "wp (stop_wp m s r w) (turn_law blocks_stop stop_slots stop_fits s r w) (\<lambda>_. \<not> stop_fits r)"
proof -
  have l: "inner r = l" using assms(1) by (cases r; cases "r_val r") (simp_all add: c_rs_def)
  have law: "wp (mi_get_wp m l w) (read_law (worth_opt blocks_wp)
      (\<lambda>c. distinct (map r_var c) \<and> (\<forall>n\<in>set c. full_r n)) l w) (\<lambda>_. \<not> (\<forall>n\<in>set l. full_r n))"
    unfolding mi_get_wp_mode by (rule wpt.list.parse_law)
  have "turn_law blocks_stop stop_slots stop_fits s r w (s\<lparr>st_wp := opt_list x\<rparr>, set_rs r l1, w1)"
    if law: "read_law (worth_opt blocks_wp) (\<lambda>c. distinct (map r_var c) \<and> (\<forall>n\<in>set c. full_r n)) l w (x, l1, w1)"
    for x l1 w1
  proof -
    have held: "blocks_stop (s\<lparr>st_wp := opt_list x\<rparr>) = blocks_stop s + worth_opt blocks_wp x"
      by (simp add: blocks_stop_def blocks_opt_list assms(3))
    have slots: "stop_slots (s\<lparr>st_wp := opt_list x\<rparr>) = stop_slots s"
      by (simp add: stop_slots_def)
    have fits: "distinct (map r_var l) \<and> (\<forall>n\<in>set l. full_r n)" if "stop_fits r"
      using that assms(2) by (auto simp: stop_fits_def l)
    show ?thesis
      using law fits
      by (auto simp: turn_law_def held slots blocks_set_rs [OF assms(1)] read_law_def)
  qed
  moreover have "\<not> (\<forall>n\<in>set l. full_r n) \<Longrightarrow> \<not> stop_fits r"
    using assms(2) by (auto simp: stop_fits_def l)
  ultimately show ?thesis
    unfolding stop_wp_def assms(1) bnd_simps by (intro wp_bndI [OF law]) auto
qed

lemma stop_slots_values [simp]:
  "stop_slots (s\<lparr>st_wp_val := p\<rparr>) = stop_slots s" "stop_slots (s\<lparr>st_wp_old := p\<rparr>) = stop_slots s"
  by (simp_all add: stop_slots_def)

lemma scan_value_same:
  "scan value_node s l w = Inr (s1, l1, w1) \<Longrightarrow> stop_slots s1 = stop_slots s"
proof (induction l arbitrary: s w l1)
  case (Cons r l)
  from Cons.prems obtain s2 r2 w2 l2 where 1: "value_node s r w = Inr (s2, r2, w2)"
    "scan value_node s2 l w2 = Inr (s1, l2, w1)"
    by (elim scan_Cons_Inr)
  have "stop_slots s2 = stop_slots s"
    using 1(1)
    by (cases r rule: node_cases)
      (auto simp: value_node_def c_cstr_def c_var_def split: if_splits)
  with Cons.IH [OF 1(2)] show ?case by simp
qed simp

lemma stop_value_law:
  assumes "c_rs r = Inr l" and "r_var r = Some ''value''" and "st_wp_old s = None" "st_wp_val s = None"
  shows "wp (bnd (scan value_node s l w) (\<lambda>(s1, l1, w1). Inr (s1, set_rs r l1, w1)))
    (turn_law blocks_stop stop_slots stop_fits s r w) (\<lambda>_. \<not> stop_fits r)"
proof -
  have l: "inner r = l" using assms(1) by (cases r; cases "r_val r") (simp_all add: c_rs_def)
  show ?thesis
  proof (cases "scan value_node s l w")
    case (Inl f)
    with watched.scan_safe [of l _ s w] show ?thesis
      by (auto simp: stop_fits_def l assms(2))
  next
    case (Inr x)
    obtain s1 l1 w1 where x: "x = (s1, l1, w1)" by (metis prod_cases3)
    have "blocks_stop s1 + blocks_l l1 + live w = blocks_stop s + blocks_l l + live w1" if "stop_fits r"
    proof -
      from that obtain k where "\<forall>n\<in>set l. value_fits k n" "distinct (map r_var l)"
        by (auto simp: stop_fits_def l assms(2))
      with watched.scan_exact [OF Inr [unfolded x], of k] assms(3,4) show ?thesis by simp
    qed
    with Inr x watched.scan_keeps [OF Inr [unfolded x]] show ?thesis
      by (auto simp: turn_law_def blocks_set_rs [OF assms(1)] scan_value_same)
  qed
qed

interpretation stop: struct_reader stop_node blocks_stop stop_slots stop_fits 104 zero_stop
proof (unfold_locales, goal_cases)
  case (1 s r w)
  have inner_law: "wp (stop_inner v s r w) (turn_law blocks_stop stop_slots stop_fits s r w) (\<lambda>_. \<not> stop_fits r)"
    if "c_rs r = Inr l" "r_var r = Some v" for v l
    using that stop_frame_law [OF that(1)] stop_wp_law [OF that(1)] stop_value_law [OF that(1)]
    unfolding stop_inner_def
    by (intro wp_if_cases) (auto simp: turn_law_def)
  show ?case
  proof (cases r rule: node_cases)
    case (const v p)
    have "wp (stop_const v s r w) (turn_law blocks_stop stop_slots stop_fits s r w) (\<lambda>_. \<not> stop_fits r)"
      unfolding stop_const_def const
      by (cases p; intro wp_if_cases)
        (auto simp: turn_law_def blocks_stop_def stop_slots_def c_str_def stop_fits_def named_full_def)
    with const show ?thesis by (simp add: stop_node_def)
  next
    case (tuple v l)
    with inner_law show ?thesis by (simp add: stop_node_def)
  next
    case (list v l)
    with inner_law show ?thesis by (simp add: stop_node_def)
  next
    case (anon x)
    then show ?thesis by (simp add: stop_node_def c_var_def stop_fits_def named_full_def)
  qed
qed (simp_all add: blocks_stop_def stop_slots_def zero_stop_def)

section \<open>What a client can rely on\<close>

lemma mi_get_stop_record_Some: "mi_get_stop_record r = Some i \<Longrightarrow> i < length r \<and> is_stop (r ! i)"
  by (induction r arbitrary: i) (auto split: if_splits)

lemma blocks_os_update:
  "i < length r \<Longrightarrow> blocks_os (r[i := (r ! i)\<lparr>o_c := l\<rparr>]) = blocks_os r - blocks_l (o_c (r ! i)) + blocks_l l"
  by (induction r arbitrary: i) (auto simp: blocks_o_def nth_Cons' gr0_conv_Suc)

lemma stop_taken:
  assumes "mi_get_stop_record (po (c_h c)) = Some i"
    and "distinct (map r_var (o_c (po (c_h c) ! i)))" and "list_all stop_fits (o_c (po (c_h c) ! i))"
  shows "\<exists>s w1. mi_res_stop c = Inr (s, c\<lparr>c_h := (c_h c)\<lparr>po := [], has_last := False\<rparr>, c_w := w1\<rparr>) \<and>
    (s = None \<longrightarrow> oom (c_w c) \<noteq> []) \<and> live (mi_free_stop s w1) = live (c_w c) - blocks_os (po (c_h c))"
proof -
  let ?r = "po (c_h c)"
  have i: "i < length ?r" using mi_get_stop_record_Some [OF assms(1)] by simp
  have fits: "\<forall>n\<in>set (o_c (?r ! i)). stop_fits n" using assms(3) by (simp add: list_all_iff)
  obtain s l w1 where p: "mi_get_stopped (o_c (?r ! i)) (c_w c) = Inr (s, l, w1)"
    using stop.list.parse_safe [OF fits, of "c_w c"]
    unfolding mi_get_stopped_def mi_alloc_stop_def by blast
  have worth: "worth_opt blocks_stop s + blocks_l l + live (c_w c) = blocks_l (o_c (?r ! i)) + live w1"
    using p assms(2) fits unfolding mi_get_stopped_def mi_alloc_stop_def
    by (intro stop.list.parse_exact) auto
  have full: "s = None \<longrightarrow> oom (c_w c) \<noteq> []"
    using p by (auto simp: mi_get_stopped_def fill_def mi_alloc_stop_def mi_alloc_def mi_calloc1_def mi_calloc_def c_calloc_def c_malloc_def Let_def
        bnd_Inr_iff split: option.splits prod.splits list.splits if_splits)
  let ?w = "mi_free_output (?r[i := (?r ! i)\<lparr>o_c := l\<rparr>]) w1"
  have "mi_res_stop c = Inr (s, c\<lparr>c_h := (c_h c)\<lparr>po := [], has_last := False\<rparr>, c_w := ?w\<rparr>)"
    using assms(1) p by (simp add: mi_res_stop_def mi_retire_response_def com_defs)
  moreover have "live (mi_free_stop s ?w) = live (c_w c) - blocks_os (po (c_h c))"
    using worth i by (auto simp: free_live mi_free_stop_live blocks_os_update worth_opt_def split: option.splits)
  ultimately show ?thesis using full by blast
qed

text \<open>
  C26: \<open>mi_res_stop\<close> empties the handle, and when the stop record has the nodes gdb documents, none
  of them repeated, it gives no fault and keeps exactly the blocks of the stop structure: releasing
  it leaves the heap as if the response had never been there.
\<close>

theorem res_stop_balance:
  assumes "mi_get_stop_record (po (c_h c)) = Some i"
    and "distinct (map r_var (o_c (po (c_h c) ! i)))" and "list_all stop_fits (o_c (po (c_h c) ! i))"
  shows "\<exists>s c1. mi_res_stop c = Inr (s, c1) \<and> po (c_h c1) = [] \<and>
    live (mi_free_stop s (c_w c1)) = live (c_w c) - blocks_os (po (c_h c))"
proof -
  from stop_taken [OF assms] obtain s w1 where
    "mi_res_stop c = Inr (s, c\<lparr>c_h := (c_h c)\<lparr>po := [], has_last := False\<rparr>, c_w := w1\<rparr>)"
    "live (mi_free_stop s w1) = live (c_w c) - blocks_os (po (c_h c))" by blast
  then show ?thesis by (intro exI [of _ s]) simp
qed

definition demo_stop :: mi_output where
  "demo_stop = \<lparr>o_type = MI_T_OUT_OF_BAND, o_stype = MI_ST_ASYNC, o_sstype = MI_SST_EXEC,
     o_tclass = MI_CL_STOPPED, o_c = [MiRes (Some ''reason'') (VConst (Some ''exited'')),
       MiRes (Some ''exit-code'') (VConst (Some ''01''))]\<rparr>"

theorem res_stop_balance_witness:
  "\<exists>s c1. mi_res_stop (holding [demo_stop]) = Inr (s, c1) \<and> po (c_h c1) = [] \<and>
    live (mi_free_stop s (c_w c1)) = live (c_w (holding [demo_stop])) - blocks_os [demo_stop]"
proof -
  have po: "po (c_h (holding [demo_stop])) = [demo_stop]"
    by (simp add: holding_def started_def fresh_h_def)
  have "list_all stop_fits (o_c demo_stop)"
    by (simp add: demo_stop_def stop_fits_def named_full_def good_name_def mi_is_var_name_char_def
        isalnum_def is_digit_def)
  with res_stop_balance [of "holding [demo_stop]" 0] show ?thesis
    by (simp add: po) (simp add: is_stop_def demo_stop_def)
qed

text \<open>
  Records the parser accepts but these readers do not expect end in a fault: an error record
  with no results, a tuple where a watched value is expected (its pointer is taken for a string),
  and a list of values where names are expected.
\<close>

theorem unexpected_records_fault:
  assumes "oom w = []"
  shows "(\<exists>r. mi_parse_gdb_output (cbuf ''^error'') w = Inr (Some r, add_live 1 w) \<and>
      mi_get_async_stop_reason [r] w = Inl Null_deref) \<and>
    (\<exists>r. mi_parse_gdb_output (cbuf ''*stopped,value={new={}}'') w = Inr (Some r, add_live 5 w) \<and>
      mi_get_stopped (o_c r) w = Inl Bad_union) \<and>
    (\<exists>r. mi_parse_gdb_output (cbuf ''*stopped,value=[\"1\"]'') w = Inr (Some r, add_live 5 w) \<and>
      mi_get_stopped (o_c r) w = Inl Null_deref)"
proof (intro conjI)
  let ?e = "\<lparr>o_type = 1, o_stype = 0, o_sstype = 0, o_tclass = 5, o_c = []\<rparr>"
  have "mi_parse_gdb_output (cbuf (print_output ?e)) w = Inr (Some ?e, add_live (blocks_o ?e) w)"
    unfolding cbuf_def using assms
    by (intro parse_print_junk) (simp_all add: solid_output_def record_ok_def record_codes)
  then have "mi_parse_gdb_output (cbuf ''^error'') w = Inr (Some ?e, add_live 1 w)"
    by (simp add: print_output_def text_of_def class_text_def record_codes blocks_o_def)
  moreover have "mi_get_async_stop_reason [?e] w = Inl Null_deref"
    by (simp add: mi_get_async_stop_reason_def record_codes)
  ultimately show "\<exists>r. mi_parse_gdb_output (cbuf ''^error'') w = Inr (Some r, add_live 1 w) \<and>
      mi_get_async_stop_reason [r] w = Inl Null_deref" by blast
next
  let ?x = "MiRes (Some ''value'') (VTuple [MiRes (Some ''new'') (VTuple [])])"
  let ?r = "\<lparr>o_type = 0, o_stype = 0, o_sstype = 0, o_tclass = 1, o_c = [?x]\<rparr>"
  have "mi_parse_gdb_output (cbuf (print_output ?r)) w = Inr (Some ?r, add_live (blocks_o ?r) w)"
    unfolding cbuf_def using assms
    by (intro parse_print_junk) (simp_all add: solid_output_def record_ok_def record_codes good_name_def
        mi_is_var_name_char_def isalnum_def is_digit_def)
  then have "mi_parse_gdb_output (cbuf ''*stopped,value={new={}}'') w = Inr (Some ?r, add_live 5 w)"
    by (simp add: print_output_def text_of_def asyn_text_def record_codes blocks_o_def print_results_def)
  moreover have "mi_get_stopped (o_c ?r) w = Inl Bad_union"
    using assms by (simp add: mi_get_stopped_def mi_alloc_stop_def fill_def stop_node_def
        stop_inner_def zero_stop_def value_node_def c_cstr_def)
  ultimately show "\<exists>r. mi_parse_gdb_output (cbuf ''*stopped,value={new={}}'') w = Inr (Some r, add_live 5 w) \<and>
      mi_get_stopped (o_c r) w = Inl Bad_union" by blast
next
  let ?x = "MiRes (Some ''value'') (VList [MiRes None (VConst (Some ''1''))])"
  let ?r = "\<lparr>o_type = 0, o_stype = 0, o_sstype = 0, o_tclass = 1, o_c = [?x]\<rparr>"
  have "mi_parse_gdb_output (cbuf (print_output ?r)) w = Inr (Some ?r, add_live (blocks_o ?r) w)"
    unfolding cbuf_def using assms
    by (intro parse_print_junk) (simp_all add: solid_output_def record_ok_def record_codes good_name_def
        mi_is_var_name_char_def isalnum_def is_digit_def)
  then have "mi_parse_gdb_output (cbuf ''*stopped,value=[\"1\"]'') w = Inr (Some ?r, add_live 5 w)"
    by (simp add: print_output_def text_of_def asyn_text_def record_codes blocks_o_def print_results_def)
  moreover have "mi_get_stopped (o_c ?r) w = Inl Null_deref"
    using assms by (simp add: mi_get_stopped_def mi_alloc_stop_def fill_def stop_node_def
        stop_inner_def zero_stop_def value_node_def c_var_def)
  ultimately show "\<exists>r. mi_parse_gdb_output (cbuf ''*stopped,value=[\"1\"]'') w = Inr (Some r, add_live 5 w) \<and>
      mi_get_stopped (o_c r) w = Inl Null_deref" by blast
qed

theorem unexpected_records_fault_witness:
  "\<exists>r. mi_parse_gdb_output (cbuf ''^error'') \<lparr>mi_error = 0, oom = [], live = 0\<rparr> =
      Inr (Some r, \<lparr>mi_error = 0, oom = [], live = 1\<rparr>) \<and>
    mi_get_async_stop_reason [r] \<lparr>mi_error = 0, oom = [], live = 0\<rparr> = Inl Null_deref"
  using unexpected_records_fault [of "\<lparr>mi_error = 0, oom = [], live = 0\<rparr>"] by simp

end
