(* ===== verification/MI_Data.thy ===== *)
theory MI_Data
  imports MI_Response
begin

text \<open>
  Memory, assembler and registers, \<open>src/parse.c\<close> lines 1570 to 1935. The caller's byte buffer is a
  list of its length; a byte written past it is a fault. The structures of a chain whose allocation
  fails are used unchecked in the register readers, and released in the assembler readers.
\<close>

section \<open>Memory\<close>

definition byte_of :: "string \<Rightarrow> 8 word" where
  "byte_of s = word_of_int (strtol0 s)"

fun memory_data :: "mi_results list \<Rightarrow> 8 word list \<Rightarrow> nat \<Rightarrow> (8 word list \<times> nat) run" where
  "memory_data [] dest k = Inr (dest, k)"
| "memory_data (d # ds) dest k =
     (if r_type d = t_const then
        bnd (c_str d) (\<lambda>s.
          if k < length dest then memory_data ds (dest[k := byte_of s]) (Suc k) else Inl Over_write)
      else memory_data ds dest k)"

record mem_state =
  m_ok :: int
  m_dest :: "8 word list"
  m_pos :: nat
  m_na :: bool
  m_addr :: "64 word option"

text \<open>One node of the tuple; \<open>want\<close> says whether the caller passed a place for the address.\<close>

definition memory_node :: "bool \<Rightarrow> mem_state \<Rightarrow> mi_results \<Rightarrow> mem_state run" where
  "memory_node want s r =
     (if r_type r = t_list then
        bnd (c_var r) (\<lambda>v.
          if v = ''data'' then
            bnd (c_rs r) (\<lambda>data.
              bnd (case data of
                     [] \<Rightarrow> Inr False
                   | d # _ \<Rightarrow> if r_type d = t_const then bnd (c_str d) (\<lambda>t. Inr (t = ''N/A'')) else Inr False)
                (\<lambda>na.
                  if na then Inr (s\<lparr>m_ok := m_ok s + 1, m_na := True\<rparr>)
                  else bnd (memory_data data (m_dest s) (m_pos s)) (\<lambda>(dest, k).
                    Inr (s\<lparr>m_ok := m_ok s + 1, m_dest := dest, m_pos := k\<rparr>))))
          else Inr s)
      else if r_type r = t_const then
        bnd (c_var r) (\<lambda>v.
          if v = ''addr'' then
            (if want then bnd (c_str r) (\<lambda>t. Inr (s\<lparr>m_ok := m_ok s + 1, m_addr := Some (strtoul0 t)\<rparr>))
             else Inr (s\<lparr>m_ok := m_ok s + 1\<rparr>))
          else Inr s)
      else Inr s)"

fun memory_loop :: "bool \<Rightarrow> mi_results list \<Rightarrow> mem_state \<Rightarrow> mem_state run" where
  "memory_loop want [] s = Inr s"
| "memory_loop want (r # rs) s = bnd (memory_node want s r) (memory_loop want rs)"

text \<open>\<open>r->v.rs\<close> of the list is followed without a test for an empty list.\<close>

definition read_block :: "bool \<Rightarrow> mi_results list \<Rightarrow> mem_state \<Rightarrow> mem_state run" where
  "read_block want l s = (case l of
       [] \<Rightarrow> Inl Null_deref
     | r # _ \<Rightarrow> if r_type r \<noteq> t_tuple then Inr s
                else bnd (c_rs r) (\<lambda>rs. memory_loop want rs s))"

definition mi_get_read_memory ::
    "8 word list \<Rightarrow> nat \<Rightarrow> bool \<Rightarrow> (bool \<times> mem_state) com" where
  "mi_get_read_memory dest ws want = seq (mi_res_done_var ''memory'') (\<lambda>res.
     let s0 = \<lparr>m_ok = 0, m_dest = dest, m_pos = 0, m_na = False, m_addr = None\<rparr> in
     case res of
       None \<Rightarrow> ret (False, s0)
     | Some r \<Rightarrow>
         seq (if r_type r = t_list \<and> ws = 1
              then pure_run (bnd (c_rs r) (\<lambda>l. read_block want l s0)) else ret s0) (\<lambda>s.
         seq (heap (mi_free_results [r])) (\<lambda>_. ret (m_ok s = 2, s))))"

section \<open>Assembler\<close>

definition insn_node :: "mi_asm_insn \<Rightarrow> mi_results \<Rightarrow> world \<Rightarrow> (mi_asm_insn \<times> mi_results \<times> world) run" where
  "insn_node i sub w =
     (if r_type sub \<noteq> t_const then Inr (i, sub, w)
      else bnd (c_var sub) (\<lambda>v.
        if v = ''address'' then bnd (c_str sub) (\<lambda>s. Inr (i\<lparr>in_addr := strtoul0 s\<rparr>, sub, w))
        else if v = ''func-name'' then bnd (c_cstr sub) (\<lambda>p. Inr (i\<lparr>in_func := p\<rparr>, take_cstr sub, w))
        else if v = ''offset'' then bnd (c_str sub) (\<lambda>s. Inr (i\<lparr>in_offset := atoi s\<rparr>, sub, w))
        else if v = ''inst'' then bnd (c_cstr sub) (\<lambda>p. Inr (i\<lparr>in_inst := p\<rparr>, take_cstr sub, w))
        else Inr (i, sub, w)))"

interpretation insn: struct_reader insn_node blocks_insn
  "\<lambda>i. filled ''func-name'' (in_func i) \<union> filled ''inst'' (in_inst i)" named_full 40 zero_asm_insn
proof (unfold_locales, goal_cases)
  case (1 i r w)
  show ?case
  proof (cases r rule: node_cases)
    case (const v s)
    show ?thesis
      unfolding insn_node_def const
      by (cases s; simp only: val_type.simps mi_results.sel node_MiRes bnd_simps if_False
          simp_thms; intro wp_if_cases)
        (auto simp: turn_law_def blocks_insn_def c_str_def named_full_def)
  next
    case (tuple v l)
    then show ?thesis by (auto simp: insn_node_def turn_law_def)
  next
    case (list v l)
    then show ?thesis by (auto simp: insn_node_def turn_law_def)
  next
    case (anon x)
    then show ?thesis
      by (cases x) (auto simp: insn_node_def turn_law_def named_full_def c_var_def)
  qed
qed (simp_all add: blocks_insn_def zero_asm_insn_def)

text \<open>When an allocation fails the instructions so far are released and NULL is returned.\<close>

fun insn_loop :: "mi_asm_insn list \<Rightarrow> mi_results list \<Rightarrow> world
    \<Rightarrow> (mi_asm_insn list \<times> mi_results list \<times> world) run" where
  "insn_loop is [] w = Inr (is, [], w)"
| "insn_loop is (c # cs) w =
     (if r_type c \<noteq> t_tuple
      then bnd (insn_loop is cs w) (\<lambda>(is1, cs1, w1). Inr (is1, c # cs1, w1))
      else bnd (c_rs c) (\<lambda>l. bnd (fill (mi_alloc_asm_insn w) insn_node l) (\<lambda>(p, l1, w1).
        case p of
          None \<Rightarrow> Inr ([], c # cs, mi_free_asm_insn is w1)
        | Some i \<Rightarrow> bnd (insn_loop (is @ [i]) cs w1) (\<lambda>(is1, cs1, w2).
            Inr (is1, set_rs c l1 # cs1, w2)))))"

definition mi_parse_insn ::
    "mi_results list \<Rightarrow> world \<Rightarrow> (mi_asm_insn list \<times> mi_results list \<times> world) run" where
  "mi_parse_insn c w = insn_loop [] c w"

definition line_node :: "mi_asm_insns \<Rightarrow> mi_results \<Rightarrow> world \<Rightarrow> (mi_asm_insns \<times> mi_results \<times> world) run" where
  "line_node i sub w = (case r_var sub of
       None \<Rightarrow> Inr (i, sub, w)
     | Some v \<Rightarrow>
         if r_type sub = t_const then
           (if v = ''line'' then bnd (c_str sub) (\<lambda>s. Inr (i\<lparr>is_line := atoi s\<rparr>, sub, w))
            else if v = ''file'' then bnd (c_cstr sub) (\<lambda>p. Inr (i\<lparr>is_file := p\<rparr>, take_cstr sub, w))
            else Inr (i, sub, w))
         else if r_type sub = t_list \<and> v = ''line_asm_insn'' then
           bnd (c_rs sub) (\<lambda>l. bnd (mi_parse_insn l w) (\<lambda>(is, l1, w1).
             Inr (i\<lparr>is_ins := is\<rparr>, set_rs sub l1, w1)))
         else Inr (i, sub, w))"

text \<open>
  A node without a name means plain instructions: a fresh structure (whose allocation is not
  checked) takes the place of what was read so far, and the rest of the list is its instructions.
\<close>

fun insns_loop :: "mi_asm_insns list \<Rightarrow> mi_results list \<Rightarrow> world
    \<Rightarrow> (mi_asm_insns list \<times> mi_results list \<times> world) run" where
  "insns_loop is [] w = Inr (is, [], w)"
| "insns_loop is (c # cs) w =
     (case r_var c of
        Some v \<Rightarrow>
          if v = ''src_and_asm_line'' \<and> r_type c = t_tuple
          then bnd (c_rs c) (\<lambda>l. bnd (fill (mi_alloc_asm_insns w) line_node l) (\<lambda>(p, l1, w1).
            case p of
              None \<Rightarrow> Inr ([], c # cs, mi_free_asm_insns is w1)
            | Some i \<Rightarrow> bnd (insns_loop (is @ [i]) cs w1) (\<lambda>(is1, cs1, w2).
                Inr (is1, set_rs c l1 # cs1, w2))))
          else bnd (insns_loop is cs w) (\<lambda>(is1, cs1, w1). Inr (is1, c # cs1, w1))
      | None \<Rightarrow>
          (case mi_alloc_asm_insns w of
             (None, w1) \<Rightarrow> Inl Null_deref
           | (Some i, w1) \<Rightarrow> bnd (mi_parse_insn (c # cs) w1) (\<lambda>(ins, l1, w2).
               Inr ([i\<lparr>is_ins := ins\<rparr>], l1, w2))))"

definition mi_parse_insns ::
    "mi_results list \<Rightarrow> world \<Rightarrow> (mi_asm_insns list \<times> mi_results list \<times> world) run" where
  "mi_parse_insns c w = insns_loop [] c w"

definition mi_get_asm_insns :: "mi_asm_insns list com" where
  "mi_get_asm_insns = seq (mi_res_done_var ''asm_insns'')
     (read_value (\<lambda>r. r_type r = t_list) [] mi_parse_insns)"

section \<open>Registers\<close>

text \<open>A register for each constant of the list; an allocation that fails is used all the same.\<close>

definition new_reg :: "world \<Rightarrow> (mi_chg_reg \<times> world) run" where
  "new_reg w = (case mi_alloc_chg_reg w of (None, w1) \<Rightarrow> Inl Null_deref | (Some x, w1) \<Rightarrow> Inr (x, w1))"

definition plain_const :: "mi_results \<Rightarrow> bool" where
  "plain_const c \<longleftrightarrow> r_type c = t_const \<and> r_var c = None"

definition regs_node :: "mi_chg_reg list \<Rightarrow> mi_results \<Rightarrow> world \<Rightarrow> (mi_chg_reg list \<times> mi_results \<times> world) run" where
  "regs_node rs c w =
     (if plain_const c then
        bnd (new_reg w) (\<lambda>(x, w1). bnd (c_cstr c) (\<lambda>p.
          Inr (rs @ [x\<lparr>rg_name := p, rg_reg := int (length rs)\<rparr>], take_cstr c, w1)))
      else Inr (rs, c, w))"

definition mi_parse_list_regs ::
    "mi_results list \<Rightarrow> world \<Rightarrow> (mi_chg_reg list \<times> mi_results list \<times> world) run" where
  "mi_parse_list_regs r w = scan regs_node [] r w"

text \<open>\<open>*how_many\<close> is the length of the list.\<close>

definition mi_get_list_registers :: "mi_chg_reg list com" where
  "mi_get_list_registers = seq (mi_res_done_var ''register-names'')
     (read_value (\<lambda>r. r_type r = t_list) [] mi_parse_list_regs)"

definition chgregs_node :: "mi_chg_reg list \<Rightarrow> mi_results \<Rightarrow> world \<Rightarrow> (mi_chg_reg list \<times> mi_results \<times> world) run" where
  "chgregs_node rs c w =
     (if plain_const c then
        bnd (new_reg w) (\<lambda>(x, w1). bnd (c_str c) (\<lambda>s. Inr (rs @ [x\<lparr>rg_reg := atoi s\<rparr>], c, w1)))
      else Inr (rs, c, w))"

definition mi_parse_list_changed_regs ::
    "mi_results list \<Rightarrow> world \<Rightarrow> (mi_chg_reg list \<times> mi_results list \<times> world) run" where
  "mi_parse_list_changed_regs r w = scan chgregs_node [] r w"

definition mi_get_list_changed_regs :: "mi_chg_reg list com" where
  "mi_get_list_changed_regs = seq (mi_res_done_var ''changed-registers'')
     (read_value (\<lambda>r. r_type r = t_list) [] mi_parse_list_changed_regs)"

text \<open>The fields of one register value; \<open>None\<close> when its number is not the one expected.\<close>

fun reg_fields :: "mi_chg_reg \<Rightarrow> mi_results list \<Rightarrow> (mi_chg_reg option \<times> mi_chg_reg \<times> mi_results list) run" where
  "reg_fields l [] = Inr (Some l, l, [])"
| "reg_fields l (c # cs) =
     (let skip = (\<lambda>l c. bnd (reg_fields l cs) (\<lambda>(e, l1, cs1). Inr (e, l1, c # cs1))) in
      case r_var c of
        None \<Rightarrow> skip l c
      | Some v \<Rightarrow>
          if r_type c \<noteq> t_const then skip l c
          else if v = ''number''
          then bnd (c_str c) (\<lambda>s. if atoi s \<noteq> rg_reg l then Inr (None, l, c # cs) else skip l c)
          else if v = ''value'' then bnd (c_cstr c) (\<lambda>p. skip (l\<lparr>rg_val := p\<rparr>) (take_cstr c))
          else skip l c)"

text \<open>Both lists step by step: the values must come in the order of the registers, one for each.\<close>

fun mi_parse_reg_values :: "mi_results list \<Rightarrow> mi_chg_reg list \<Rightarrow> world
    \<Rightarrow> (bool \<times> mi_chg_reg list \<times> mi_results list \<times> world) run" where
  "mi_parse_reg_values (r # rs) (l # ls) w =
     (if r_type r = t_tuple \<and> r_var r = None
      then bnd (c_rs r) (\<lambda>c. bnd (reg_fields l c) (\<lambda>(e, l1, c1).
        if e = None then Inr (False, l1 # ls, set_rs r c1 # rs, w\<lparr>mi_error := MI_PARSER\<rparr>)
        else bnd (mi_parse_reg_values rs ls w) (\<lambda>(ok, ls1, rs1, w1).
          Inr (ok, l1 # ls1, set_rs r c1 # rs1, w1))))
      else bnd (mi_parse_reg_values rs ls w) (\<lambda>(ok, ls1, rs1, w1). Inr (ok, l # ls1, r # rs1, w1)))"
| "mi_parse_reg_values r l w = Inr (r = [] \<and> l = [], l, r, w)"

definition mi_get_reg_values :: "mi_chg_reg list \<Rightarrow> (bool \<times> mi_chg_reg list) com" where
  "mi_get_reg_values l = seq (mi_res_done_var ''register-values'')
     (read_value (\<lambda>r. r_type r = t_list) (False, l) (\<lambda>r w.
       bnd (mi_parse_reg_values r l w) (\<lambda>(ok, l1, r1, w1). Inr ((ok, l1), r1, w1))))"

fun mi_parse_list_regs_l :: "mi_results list \<Rightarrow> mi_chg_reg list \<Rightarrow> world
    \<Rightarrow> (bool \<times> mi_chg_reg list \<times> mi_results list \<times> world) run" where
  "mi_parse_list_regs_l (r # rs) (l # ls) w =
     (if plain_const r
      then bnd (c_cstr r) (\<lambda>p.
        bnd (mi_parse_list_regs_l rs ls (c_free (rg_name l) w)) (\<lambda>(ok, ls1, rs1, w1).
          Inr (ok, l\<lparr>rg_name := p\<rparr> # ls1, take_cstr r # rs1, w1)))
      else bnd (mi_parse_list_regs_l rs (l # ls) w) (\<lambda>(ok, ls1, rs1, w1). Inr (ok, ls1, r # rs1, w1)))"
| "mi_parse_list_regs_l r l w = Inr (r = [] \<and> l = [], l, r, w)"

definition mi_get_list_registers_l :: "mi_chg_reg list \<Rightarrow> (bool \<times> mi_chg_reg list) com" where
  "mi_get_list_registers_l l = seq (mi_res_done_var ''register-names'')
     (read_value (\<lambda>r. r_type r = t_list) (False, l) (\<lambda>r w.
       bnd (mi_parse_list_regs_l r l w) (\<lambda>(ok, l1, r1, w1). Inr ((ok, l1), r1, w1))))"

text \<open>A new register for each tuple; the count goes up with each number, not with each tuple.\<close>

fun reg_fields_l :: "mi_chg_reg \<Rightarrow> int \<Rightarrow> mi_results list \<Rightarrow> (mi_chg_reg \<times> int \<times> mi_results list) run" where
  "reg_fields_l l n [] = Inr (l, n, [])"
| "reg_fields_l l n (c # cs) =
     (let skip = (\<lambda>l n c. bnd (reg_fields_l l n cs) (\<lambda>(l1, n1, cs1). Inr (l1, n1, c # cs1))) in
      case r_var c of
        None \<Rightarrow> skip l n c
      | Some v \<Rightarrow>
          if r_type c \<noteq> t_const then skip l n c
          else if v = ''number'' then bnd (c_str c) (\<lambda>s. skip (l\<lparr>rg_reg := atoi s\<rparr>) (n + 1) c)
          else if v = ''value'' then bnd (c_cstr c) (\<lambda>p. skip (l\<lparr>rg_val := p\<rparr>) n (take_cstr c))
          else skip l n c)"

fun reg_values_l :: "mi_chg_reg list \<Rightarrow> int \<Rightarrow> mi_results list \<Rightarrow> world
    \<Rightarrow> ((mi_chg_reg list \<times> int) \<times> mi_results list \<times> world) run" where
  "reg_values_l ls n [] w = Inr ((ls, n), [], w)"
| "reg_values_l ls n (r # rs) w =
     (if r_type r = t_tuple \<and> r_var r = None
      then bnd (c_rs r) (\<lambda>c. bnd (new_reg w) (\<lambda>(x, w1).
        bnd (reg_fields_l x n c) (\<lambda>(x1, n1, c1).
        bnd (reg_values_l (ls @ [x1]) n1 rs w1) (\<lambda>(e, rs1, w2). Inr (e, set_rs r c1 # rs1, w2)))))
      else bnd (reg_values_l ls n rs w) (\<lambda>(e, rs1, w1). Inr (e, r # rs1, w1)))"

definition mi_parse_reg_values_l ::
    "mi_results list \<Rightarrow> world \<Rightarrow> ((mi_chg_reg list \<times> int) \<times> mi_results list \<times> world) run" where
  "mi_parse_reg_values_l r w = reg_values_l [] 0 r w"

text \<open>When there is no such variable \<open>*how_many\<close> is not set; the model has 0 there.\<close>

definition mi_get_reg_values_l :: "(mi_chg_reg list \<times> int) com" where
  "mi_get_reg_values_l = seq (mi_res_done_var ''register-values'')
     (read_value (\<lambda>r. r_type r = t_list) ([], 0) mi_parse_reg_values_l)"

section \<open>What the readers guarantee\<close>

lemma memory_data_all:
  "memory_data (map (\<lambda>s. MiRes None (VConst (Some s))) ss) dest k =
     (if k + length ss \<le> length dest
      then Inr (take k dest @ map byte_of ss @ drop (k + length ss) dest, k + length ss)
      else Inl Over_write)" if "k \<le> length dest"
  using that
proof (induction ss arbitrary: dest k)
  case (Cons s ss)
  then show ?case
    using Cons.IH [of "Suc k" "dest[k := byte_of s]"] by (auto simp: take_Suc_conv_app_nth)
qed simp



text \<open>The registers the names of a list give.\<close>

definition regs_of :: "nat \<Rightarrow> string list \<Rightarrow> mi_chg_reg list" where
  "regs_of k ns = map (\<lambda>(i, n). \<lparr>rg_reg = int i, rg_val = None, rg_name = Some n, rg_updated = False\<rparr>)
     (enumerate k ns)"

lemma scan_regs:
  "oom w = [] \<Longrightarrow> scan regs_node rs (map (\<lambda>s. MiRes None (VConst (Some s))) ns) w =
     Inr (rs @ regs_of (length rs) ns, map (\<lambda>_. MiRes None (VConst None)) ns, add_live (int (length ns)) w)"
proof (induction ns arbitrary: rs w)
  case (Cons n ns)
  have "regs_node rs (MiRes None (VConst (Some n))) w =
      Inr (rs @ [\<lparr>rg_reg = int (length rs), rg_val = None, rg_name = Some n, rg_updated = False\<rparr>],
        MiRes None (VConst None), add_live 1 w)"
    using Cons.prems
    by (simp add: regs_node_def plain_const_def new_reg_def mi_alloc_chg_reg_def zero_chg_reg_def)
  with Cons show ?case by (simp add: regs_of_def ac_simps)
qed (simp add: regs_of_def)

text \<open>
  The register list of gdb gives one register for each name, numbered from 0 in gdb's order; the
  names are moved out of the response, so that the heap grows by one block for each register.
\<close>

theorem list_regs_numbered:
  assumes "oom w = []"
  shows "mi_parse_list_regs (map (\<lambda>s. MiRes None (VConst (Some s))) ns) w =
    Inr (regs_of 0 ns, map (\<lambda>_. MiRes None (VConst None)) ns, add_live (int (length ns)) w)"
  using scan_regs [OF assms, of "[]" ns] by (simp add: mi_parse_list_regs_def)

theorem list_regs_numbered_witness:
  "mi_parse_list_regs [MiRes None (VConst (Some ''eax'')), MiRes None (VConst (Some ''ecx''))]
      \<lparr>mi_error = 0, oom = [], live = 2\<rparr> =
    Inr ([\<lparr>rg_reg = 0, rg_val = None, rg_name = Some ''eax'', rg_updated = False\<rparr>,
          \<lparr>rg_reg = 1, rg_val = None, rg_name = Some ''ecx'', rg_updated = False\<rparr>],
      [MiRes None (VConst None), MiRes None (VConst None)], \<lparr>mi_error = 0, oom = [], live = 4\<rparr>)"
  using list_regs_numbered [of "\<lparr>mi_error = 0, oom = [], live = 2\<rparr>" "[''eax'', ''ecx'']"]
  by (simp add: regs_of_def)

text \<open>The value of a register as gdb sends it.\<close>

definition reg_value :: "string \<times> string \<Rightarrow> mi_results" where
  "reg_value p = MiRes None (VTuple [MiRes (Some ''number'') (VConst (Some (fst p))),
     MiRes (Some ''value'') (VConst (Some (snd p)))])"

definition reg_taken :: "string \<times> string \<Rightarrow> mi_results" where
  "reg_taken p = MiRes None (VTuple [MiRes (Some ''number'') (VConst (Some (fst p))),
     MiRes (Some ''value'') (VConst None)])"

lemma reg_values_match:
  "list_all2 (\<lambda>p l. atoi (fst p) = rg_reg l) vs ls \<Longrightarrow>
     mi_parse_reg_values (map reg_value vs) ls w =
       Inr (True, map2 (\<lambda>p l. l\<lparr>rg_val := Some (snd p)\<rparr>) vs ls, map reg_taken vs, w)"
  by (induction vs ls rule: list_all2_induct) (simp_all add: reg_value_def reg_taken_def)

text \<open>
  Values that come in the order of the registers, one for each, are all stored; the first value
  with another number stops the reading with \<open>MI_PARSER\<close>.
\<close>

theorem reg_values_in_order:
  assumes "list_all2 (\<lambda>p l. atoi (fst p) = rg_reg l) vs ls"
  shows "mi_parse_reg_values (map reg_value vs) ls w =
      Inr (True, map2 (\<lambda>p l. l\<lparr>rg_val := Some (snd p)\<rparr>) vs ls, map reg_taken vs, w) \<and>
    (if atoi (fst p) \<noteq> rg_reg l
     then \<exists>ls1 rs1. mi_parse_reg_values (map reg_value (vs @ p # more_vs)) (ls @ l # more_ls) w =
       Inr (False, ls1, rs1, w\<lparr>mi_error := MI_PARSER\<rparr>)
     else True)"
proof (intro conjI)
  show "mi_parse_reg_values (map reg_value vs) ls w =
      Inr (True, map2 (\<lambda>p l. l\<lparr>rg_val := Some (snd p)\<rparr>) vs ls, map reg_taken vs, w)"
    using assms by (rule reg_values_match)
  have "atoi (fst p) \<noteq> rg_reg l \<Longrightarrow>
      \<exists>ls1 rs1. mi_parse_reg_values (map reg_value vs @ reg_value p # map reg_value more_vs) (ls @ l # more_ls) w =
       Inr (False, ls1, rs1, w\<lparr>mi_error := MI_PARSER\<rparr>)"
    using assms by (induction vs ls rule: list_all2_induct) (auto simp: reg_value_def)
  then show "if atoi (fst p) \<noteq> rg_reg l
     then \<exists>ls1 rs1. mi_parse_reg_values (map reg_value (vs @ p # more_vs)) (ls @ l # more_ls) w =
       Inr (False, ls1, rs1, w\<lparr>mi_error := MI_PARSER\<rparr>)
     else True" by simp
qed

theorem reg_values_in_order_witness:
  "mi_parse_reg_values [reg_value (''0'', ''0xa''), reg_value (''1'', ''7'')] (regs_of 0 [''eax'', ''ecx''])
      \<lparr>mi_error = 0, oom = [], live = 4\<rparr> =
    Inr (True, [\<lparr>rg_reg = 0, rg_val = Some ''0xa'', rg_name = Some ''eax'', rg_updated = False\<rparr>,
       \<lparr>rg_reg = 1, rg_val = Some ''7'', rg_name = Some ''ecx'', rg_updated = False\<rparr>],
      [reg_taken (''0'', ''0xa''), reg_taken (''1'', ''7'')], \<lparr>mi_error = 0, oom = [], live = 4\<rparr>)"
proof -
  have at: "atoi ''0'' = 0" "atoi ''1'' = 1" by code_simp+
  show ?thesis
    using reg_values_in_order [of "[(''0'', ''0xa''), (''1'', ''7'')]" "regs_of 0 [''eax'', ''ecx'']"
        "\<lparr>mi_error = 0, oom = [], live = 4\<rparr>"]
    by (simp add: regs_of_def at)
qed

subsection \<open>Instructions\<close>

definition insn_is :: "mi_results list \<Rightarrow> mi_asm_insn \<Rightarrow> bool" where
  "insn_is l i \<longleftrightarrow> in_addr i = or_else (last_str l ''address'') 0 strtoul0 \<and>
     in_func i = last_str l ''func-name'' \<and> in_offset i = or_else (last_str l ''offset'') 0 atoi \<and>
     in_inst i = last_str l ''inst''"

definition insn_upd :: "mi_asm_insn \<Rightarrow> mi_results list \<Rightarrow> mi_asm_insn \<Rightarrow> bool" where
  "insn_upd i0 l i \<longleftrightarrow> in_addr i = or_else (last_str l ''address'') (in_addr i0) strtoul0 \<and>
     in_func i = or_else (last_str l ''func-name'') (in_func i0) Some \<and>
     in_offset i = or_else (last_str l ''offset'') (in_offset i0) atoi \<and>
     in_inst i = or_else (last_str l ''inst'') (in_inst i0) Some"

lemma insn_node_upd:
  assumes "named_full c"
  shows "wp (insn_node i c w) (\<lambda>(i1, c1, w1). w1 = w \<and> insn_upd i [c] i1) (\<lambda>_. False)"
  using assms
  by (cases rule: named_full_cases) (simp_all add: insn_node_def insn_upd_def)

lemma scan_insn_upd:
  "\<forall>c\<in>set l. named_full c \<Longrightarrow> \<exists>i1 l1. scan insn_node i l w = Inr (i1, l1, w) \<and> insn_upd i l i1"
proof (induction l arbitrary: i)
  case (Cons c l)
  obtain i1 c1 where 1: "insn_node i c w = Inr (i1, c1, w)" "insn_upd i [c] i1"
    using insn_node_upd [of c i w] Cons.prems by (cases "insn_node i c w") auto
  obtain i2 l2 where 2: "scan insn_node i1 l w = Inr (i2, l2, w)" "insn_upd i1 l i2"
    using Cons by fastforce
  have "insn_upd i (c # l) i2"
    using 1(2) 2(2) unfolding insn_upd_def or_else_step [of c l] by simp
  with 1(1) 2(1) show ?case by simp
qed (simp add: insn_upd_def)

lemma insn_loop_all:
  assumes "\<forall>t\<in>set ts. list_all named_full t" and "oom w = []"
  shows "\<exists>is1 l1. insn_loop is (map (\<lambda>t. MiRes None (VTuple t)) ts) w =
      Inr (is @ is1, l1, add_live (int (length ts)) w) \<and> list_all2 insn_is ts is1"
  using assms
proof (induction ts arbitrary: "is" w)
  case (Cons t ts)
  obtain i t1 where i: "scan insn_node zero_asm_insn t (add_live 1 w) = Inr (i, t1, add_live 1 w)"
    "insn_upd zero_asm_insn t i"
    using scan_insn_upd [of t zero_asm_insn "add_live 1 w"] Cons.prems(1) by (auto simp: list_all_iff)
  have is_i: "insn_is t i"
    using i(2) by (cases "last_str t ''func-name''"; cases "last_str t ''inst''")
      (simp_all add: insn_is_def insn_upd_def zero_asm_insn_def)
  have fill: "fill (mi_alloc_asm_insn w) insn_node t = Inr (Some i, t1, add_live 1 w)"
    using i(1) Cons.prems(2) by (simp add: fill_def mi_alloc_asm_insn_def)
  obtain is1 l1 where "insn_loop (is @ [i]) (map (\<lambda>t. MiRes None (VTuple t)) ts) (add_live 1 w) =
      Inr ((is @ [i]) @ is1, l1, add_live (int (length ts)) (add_live 1 w))" "list_all2 insn_is ts is1"
    using Cons.IH [of "add_live 1 w" "is @ [i]"] Cons.prems by auto
  with fill is_i show ?case
    by (intro exI [of _ "i # is1"] exI [of _ "MiRes None (VTuple t1) # l1"]) (simp add: ac_simps)
qed simp

text \<open>
  A disassembly without source lines becomes one structure whose instructions are those of the
  answer in order, each with the address, function, offset and text of its tuple.
\<close>

theorem parse_insns_plain:
  assumes "\<forall>t\<in>set (t # ts). list_all named_full t" and "oom w = []"
  shows "\<exists>is l1. mi_parse_insns (map (\<lambda>t. MiRes None (VTuple t)) (t # ts)) w =
      Inr ([\<lparr>is_file = None, is_line = 0, is_ins = is\<rparr>], l1, add_live (2 + int (length ts)) w) \<and>
    list_all2 insn_is (t # ts) is"
  using insn_loop_all [OF assms(1), of "add_live 1 w" "[]"] assms(2)
  by (auto simp: mi_parse_insns_def mi_parse_insn_def mi_alloc_asm_insns_def zero_asm_insns_def ac_simps)

theorem parse_insns_plain_witness:
  "\<exists>i l1. mi_parse_insns [MiRes None (VTuple [MiRes (Some ''address'') (VConst (Some ''0x10'')),
       MiRes (Some ''inst'') (VConst (Some ''nop''))])] \<lparr>mi_error = 0, oom = [], live = 0\<rparr> =
      Inr ([\<lparr>is_file = None, is_line = 0, is_ins = [i]\<rparr>], l1, \<lparr>mi_error = 0, oom = [], live = 2\<rparr>) \<and>
    in_addr i = 16 \<and> in_inst i = Some ''nop''"
proof -
  have num: "strtoul0 ''0x10'' = 16" by code_simp
  have "\<forall>t\<in>set [[MiRes (Some ''address'') (VConst (Some ''0x10'')), MiRes (Some ''inst'') (VConst (Some ''nop''))]].
      list_all named_full t"
    by (simp add: named_full_def good_name_def mi_is_var_name_char_def isalnum_def is_digit_def)
  from parse_insns_plain [OF this, of "\<lparr>mi_error = 0, oom = [], live = 0\<rparr>"] show ?thesis
    by (auto simp: list_all2_Cons1 insn_is_def num)
qed

end
