(* ===== verification/MI_Globals.thy ===== *)
theory MI_Globals
  imports MI_Response
begin

text \<open>
  The settings of the library and the life of a connection, \<open>src/connect.c\<close> lines 136 to 142 and
  341 to 901 without \<open>mi_send\<close> and the X terminal: the names kept in static variables, the search of a
  program in \<open>PATH\<close>, the start-up files, the start of gdb, the callbacks, the version.
\<close>

section \<open>Settings\<close>

definition getg :: "(globals \<Rightarrow> 'a) \<Rightarrow> 'a com" where
  "getg f = ask (\<lambda>c. f (c_g c))"

definition setg :: "(globals \<Rightarrow> globals) \<Rightarrow> unit com" where
  "setg f c = Inr ((), c\<lparr>c_g := f (c_g c)\<rparr>)"

definition dup :: "string \<Rightarrow> string option com" where
  "dup s = on_w (\<lambda>w. Inr (c_strdup s w))"

definition mi_clean_up_globals :: "unit com" where
  "mi_clean_up_globals =
     seq (getg id) (\<lambda>g.
     seq (heap (c_free (gdb_exe g))) (\<lambda>_.
     seq (heap (c_free (xterm_exe g))) (\<lambda>_.
     seq (heap (c_free (gdb_start g))) (\<lambda>_.
     seq (heap (c_free (gdb_conn g))) (\<lambda>_.
     seq (heap (c_free (main_func g))) (\<lambda>_.
     setg (\<lambda>g. g\<lparr>gdb_exe := None, xterm_exe := None, gdb_start := None, gdb_conn := None,
       main_func := None\<rparr>)))))))"

definition mi_register_exit :: "unit com" where
  "mi_register_exit = seq (getg registered) (\<lambda>r.
     if \<not> r then seq (setg (\<lambda>g. g\<lparr>registered := True\<rparr>)) (\<lambda>_. emit At_exit) else ret ())"

text \<open>The five functions that set a name have one body, over the variable they set.\<close>

definition set_name ::
    "(globals \<Rightarrow> string option) \<Rightarrow> (string option \<Rightarrow> globals \<Rightarrow> globals) \<Rightarrow> string option \<Rightarrow> unit com" where
  "set_name get put name = seq (getg get) (\<lambda>old.
     seq (heap (c_free old)) (\<lambda>_.
     seq (case name of None \<Rightarrow> ret None | Some s \<Rightarrow> dup s) (\<lambda>d.
     seq (setg (put d)) (\<lambda>_. mi_register_exit))))"

definition mi_set_gdb_exe :: "string option \<Rightarrow> unit com" where
  "mi_set_gdb_exe = set_name gdb_exe (\<lambda>d. gdb_exe_update (\<lambda>_. d))"

definition mi_set_gdb_start :: "string option \<Rightarrow> unit com" where
  "mi_set_gdb_start = set_name gdb_start (\<lambda>d. gdb_start_update (\<lambda>_. d))"

definition mi_set_gdb_conn :: "string option \<Rightarrow> unit com" where
  "mi_set_gdb_conn = set_name gdb_conn (\<lambda>d. gdb_conn_update (\<lambda>_. d))"

definition mi_set_xterm_exe :: "string option \<Rightarrow> unit com" where
  "mi_set_xterm_exe = set_name xterm_exe (\<lambda>d. xterm_exe_update (\<lambda>_. d))"

definition mi_set_main_func :: "string option \<Rightarrow> unit com" where
  "mi_set_main_func = set_name main_func (\<lambda>d. main_func_update (\<lambda>_. d))"

text \<open>\<open>strtok(path, ":")\<close>: the parts between colons that are not empty.\<close>

fun path_dirs :: "string \<Rightarrow> string \<Rightarrow> string list" where
  "path_dirs acc [] = (if acc = [] then [] else [acc])"
| "path_dirs acc (c # cs) =
     (if c = CHR '':'' then (if acc = [] then path_dirs [] cs else acc # path_dirs [] cs)
      else path_dirs (acc @ [c]) cs)"

definition PATH_MAX :: nat where "PATH_MAX = 4096"

text \<open>
  The loop of \<open>mi_search_in_path\<close>; \<open>test\<close> has \<open>PATH_MAX\<close> bytes and is filled with no test of the
  lengths. The copy of \<open>PATH\<close> is a block the loop releases on both exits.
\<close>

fun search_dirs :: "string \<Rightarrow> string list \<Rightarrow> string option com" where
  "search_dirs file [] = seq (heap (c_free (Some ()))) (\<lambda>_. ret None)"
| "search_dirs file (d # ds) = seq (ask c_os) (\<lambda>s.
     let test = d @ ''/'' @ file in
     if PATH_MAX \<le> length test then (\<lambda>c. Inl Over_write)
     else if is_reg s test then seq (heap (c_free (Some ()))) (\<lambda>_. dup test)
     else search_dirs file ds)"

definition mi_search_in_path :: "string \<Rightarrow> string option com" where
  "mi_search_in_path file = seq (ask (\<lambda>c. env_path (c_os c))) (\<lambda>path.
     case path of
       None \<Rightarrow> ret None
     | Some p \<Rightarrow> seq (dup p) (\<lambda>pt. case pt of
         None \<Rightarrow> (\<lambda>c. Inl Null_deref)
       | Some q \<Rightarrow> search_dirs file (path_dirs [] q)))"

definition mi_get_gdb_exe :: "string com" where
  "mi_get_gdb_exe = seq (getg gdb_exe) (\<lambda>g. case g of
       Some s \<Rightarrow> ret s
     | None \<Rightarrow> seq (mi_search_in_path ''gdb'') (\<lambda>r.
         seq (setg (\<lambda>g. g\<lparr>gdb_exe := r\<rparr>)) (\<lambda>_.
         case r of None \<Rightarrow> ret ''/usr/bin/gdb'' | Some s \<Rightarrow> ret s)))"

definition mi_get_xterm_exe :: "string com" where
  "mi_get_xterm_exe = seq (getg xterm_exe) (\<lambda>g. case g of
       Some s \<Rightarrow> ret s
     | None \<Rightarrow> seq (mi_search_in_path ''xterm'') (\<lambda>r.
         seq (setg (\<lambda>g. g\<lparr>xterm_exe := r\<rparr>)) (\<lambda>_.
         case r of None \<Rightarrow> ret ''/usr/bin/X11/xterm'' | Some s \<Rightarrow> ret s)))"

definition mi_get_gdb_start :: "string option com" where
  "mi_get_gdb_start = getg gdb_start"

definition mi_get_gdb_conn :: "string option com" where
  "mi_get_gdb_conn = getg gdb_conn"

definition mi_get_main_func :: "string com" where
  "mi_get_main_func = seq (getg main_func) (\<lambda>f. case f of Some s \<Rightarrow> ret s | None \<Rightarrow> ret ''main'')"

definition MI_PSYM_SEARCH :: nat where "MI_PSYM_SEARCH = 0"

definition mi_set_workaround :: "nat \<Rightarrow> bool \<Rightarrow> unit com" where
  "mi_set_workaround wa enable = (if wa = MI_PSYM_SEARCH
     then setg (\<lambda>g. g\<lparr>disable_psym_search_workaround := \<not> enable\<rparr>) else ret ())"

definition mi_get_workaround :: "nat \<Rightarrow> bool com" where
  "mi_get_workaround wa = (if wa = MI_PSYM_SEARCH
     then getg (\<lambda>g. \<not> disable_psym_search_workaround g) else ret False)"

section \<open>Callbacks, time out, version\<close>

definition mi_set_console_cb :: "nat option \<Rightarrow> nat \<Rightarrow> unit com" where
  "mi_set_console_cb cb data = hand (\<lambda>h. h\<lparr>console := cb, console_data := data\<rparr>)"

definition mi_set_target_cb :: "nat option \<Rightarrow> nat \<Rightarrow> unit com" where
  "mi_set_target_cb cb data = hand (\<lambda>h. h\<lparr>target := cb, target_data := data\<rparr>)"

definition mi_set_log_cb :: "nat option \<Rightarrow> nat \<Rightarrow> unit com" where
  "mi_set_log_cb cb data = hand (\<lambda>h. h\<lparr>log_cb := cb, log_data := data\<rparr>)"

definition mi_set_async_cb :: "nat option \<Rightarrow> nat \<Rightarrow> unit com" where
  "mi_set_async_cb cb data = hand (\<lambda>h. h\<lparr>async := cb, async_data := data\<rparr>)"

definition mi_set_to_gdb_cb :: "nat option \<Rightarrow> nat \<Rightarrow> unit com" where
  "mi_set_to_gdb_cb cb data = hand (\<lambda>h. h\<lparr>to_gdb_echo := cb, to_gdb_echo_data := data\<rparr>)"

definition mi_set_from_gdb_cb :: "nat option \<Rightarrow> nat \<Rightarrow> unit com" where
  "mi_set_from_gdb_cb cb data = hand (\<lambda>h. h\<lparr>from_gdb_echo := cb, from_gdb_echo_data := data\<rparr>)"

definition mi_set_time_out_cb :: "nat option \<Rightarrow> nat \<Rightarrow> unit com" where
  "mi_set_time_out_cb cb data = hand (\<lambda>h. h\<lparr>time_out_cb := cb, time_out_cb_data := data\<rparr>)"

definition mi_set_time_out :: "int \<Rightarrow> unit com" where
  "mi_set_time_out to = hand (\<lambda>h. h\<lparr>time_out := to\<rparr>)"

text \<open>A getter returns the callback, and its data through a pointer.\<close>

definition mi_get_console_cb :: "(nat option \<times> nat) com" where
  "mi_get_console_cb = ask (\<lambda>c. (console (c_h c), console_data (c_h c)))"

definition mi_get_target_cb :: "(nat option \<times> nat) com" where
  "mi_get_target_cb = ask (\<lambda>c. (target (c_h c), target_data (c_h c)))"

definition mi_get_log_cb :: "(nat option \<times> nat) com" where
  "mi_get_log_cb = ask (\<lambda>c. (log_cb (c_h c), log_data (c_h c)))"

definition mi_get_async_cb :: "(nat option \<times> nat) com" where
  "mi_get_async_cb = ask (\<lambda>c. (async (c_h c), async_data (c_h c)))"

definition mi_get_to_gdb_cb :: "(nat option \<times> nat) com" where
  "mi_get_to_gdb_cb = ask (\<lambda>c. (to_gdb_echo (c_h c), to_gdb_echo_data (c_h c)))"

definition mi_get_from_gdb_cb :: "(nat option \<times> nat) com" where
  "mi_get_from_gdb_cb = ask (\<lambda>c. (from_gdb_echo (c_h c), from_gdb_echo_data (c_h c)))"

definition mi_get_time_out_cb :: "(nat option \<times> nat) com" where
  "mi_get_time_out_cb = ask (\<lambda>c. (time_out_cb (c_h c), time_out_cb_data (c_h c)))"

definition mi_get_time_out :: "int com" where
  "mi_get_time_out = ask (\<lambda>c. time_out (c_h c))"

definition MI_VERSION2U :: "32 word \<Rightarrow> 32 word \<Rightarrow> 32 word \<Rightarrow> 32 word" where
  "MI_VERSION2U maj mid mnr = maj * 0x1000000 + mid * 0x10000 + mnr"

definition mi_force_version :: "32 word \<Rightarrow> 32 word \<Rightarrow> 32 word \<Rightarrow> unit com" where
  "mi_force_version vMajor vMiddle vMinor =
     hand (\<lambda>h. h\<lparr>version := MI_VERSION2U vMajor vMiddle vMinor\<rparr>)"

section \<open>Start-up commands\<close>

text \<open>
  What the calls of \<open>fgets(b, PATH_MAX, f)\<close> read one after the other: up to a newline, and at most
  4095 bytes.
\<close>

fun fgets_all :: "nat \<Rightarrow> string \<Rightarrow> string \<Rightarrow> string list" where
  "fgets_all spare acc [] = (if acc = [] then [] else [acc])"
| "fgets_all spare acc (c # cs) =
     (if c = NEWLINE \<or> spare \<le> 1 then (acc @ [c]) # fgets_all (PATH_MAX - 1) [] cs
      else fgets_all (spare - 1) (acc @ [c]) cs)"

text \<open>\<open>mi_send(h, b)\<close>: the line is the format, and there are no arguments.\<close>

definition send_format :: "string \<Rightarrow> unit com" where
  "send_format b = seq (ask c_h) (\<lambda>h.
     if died h then ret ()
     else seq (pure_run (printf0 (line_str b))) (\<lambda>str. seq (mi_send str) (\<lambda>_. ret ())))"

fun send_lines :: "string list \<Rightarrow> unit com" where
  "send_lines [] = ret ()"
| "send_lines (b # bs) = seq (send_format b) (\<lambda>_. seq mi_res_simple_done (\<lambda>_. send_lines bs))"

definition mi_send_commands :: "string option \<Rightarrow> unit com" where
  "mi_send_commands file = (case file of
       None \<Rightarrow> ret ()
     | Some f \<Rightarrow> seq (ask (\<lambda>c. text_file (c_os c) f)) (\<lambda>t. case t of
         None \<Rightarrow> ret ()
       | Some s \<Rightarrow> send_lines (fgets_all (PATH_MAX - 1) [] s)))"

definition mi_send_target_commands :: "unit com" where
  "mi_send_target_commands = seq mi_get_gdb_conn mi_send_commands"

section \<open>Starting and leaving gdb\<close>

definition mi_set_nonblk :: "int \<Rightarrow> unit com" where
  "mi_set_nonblk fd = emit (Nonblock fd)"

definition sys :: "(osys \<Rightarrow> 'a \<times> osys) \<Rightarrow> 'a com" where
  "sys f c = (let (x, s) = f (c_os c) in Inr (x, c\<lparr>c_os := s\<rparr>))"

definition os_pipe :: "(int \<times> int) option com" where
  "os_pipe = sys (\<lambda>s. case pipes s of [] \<Rightarrow> (None, s) | p # ps \<Rightarrow> (Some p, s\<lparr>pipes := ps\<rparr>))"

definition os_fork :: "int com" where
  "os_fork = sys (\<lambda>s. case forks s of [] \<Rightarrow> (- 1, s) | p # ps \<Rightarrow> (p, s\<lparr>forks := ps\<rparr>))"

definition os_fdopen :: "bool com" where
  "os_fdopen = sys (\<lambda>s. case fdopens s of [] \<Rightarrow> (False, s) | b # bs \<Rightarrow> (b, s\<lparr>fdopens := bs\<rparr>))"

definition give_up :: "nat \<Rightarrow> bool com" where
  "give_up e = seq (set_error e) (\<lambda>_. seq mi_free_h (\<lambda>_. ret False))"

text \<open>\<open>pipe(h->to_gdb) || pipe(h->from_gdb)\<close>: whether both succeeded.\<close>

definition both_pipes :: "bool com" where
  "both_pipes = seq os_pipe (\<lambda>p. case p of
       None \<Rightarrow> ret False
     | Some (a, b) \<Rightarrow> seq (hand (\<lambda>h. h\<lparr>to_gdb0 := a, to_gdb1 := b\<rparr>)) (\<lambda>_.
         seq os_pipe (\<lambda>q. case q of
           None \<Rightarrow> ret False
         | Some (x, y) \<Rightarrow> seq (hand (\<lambda>h. h\<lparr>from_gdb0 := x, from_gdb1 := y\<rparr>)) (\<lambda>_. ret True))))"

definition both_streams :: "bool com" where
  "both_streams = seq (ask c_h) (\<lambda>h.
     seq (mi_set_nonblk (to_gdb1 h)) (\<lambda>_.
     seq (mi_set_nonblk (from_gdb0 h)) (\<lambda>_.
     seq os_fdopen (\<lambda>t. seq (hand (\<lambda>h. h\<lparr>to_stream := t\<rparr>)) (\<lambda>_.
     seq os_fdopen (\<lambda>f. seq (hand (\<lambda>h. h\<lparr>from_stream := f\<rparr>)) (\<lambda>_. ret (t \<and> f))))))))"

definition gdb_args :: "string \<Rightarrow> bool \<Rightarrow> string list" where
  "gdb_args gdb disabled = [gdb, ''--interpreter=mi'', ''--quiet''] @ (if disabled then [] else [''--readnow''])"

text \<open>
  The fork and what follows. The child is the entry \<open>Spawn\<close> of the log. The response that ends with
  gdb's first prompt is dropped, not released.
\<close>

definition start_gdb :: "string \<Rightarrow> bool com" where
  "start_gdb gdb =
     seq os_fork (\<lambda>p.
     seq (hand (\<lambda>h. h\<lparr>pid := p\<rparr>)) (\<lambda>_.
     if p = - 1 then give_up MI_FORK
     else seq (getg disable_psym_search_workaround) (\<lambda>dis.
     seq (emit (Spawn (gdb_args gdb dis))) (\<lambda>_.
     seq mi_check_running (\<lambda>running.
     if \<not> running then give_up MI_DEBUGGER_RUN
     else seq mi_get_response_blk (\<lambda>_.
     seq (getg gdb_start) (\<lambda>f.
     seq (mi_send_commands f) (\<lambda>_. ret True))))))))"

definition open_gdb :: "string \<Rightarrow> bool com" where
  "open_gdb gdb =
     seq both_pipes (\<lambda>ok.
     if \<not> ok then give_up MI_PIPE_CREATE
     else seq both_streams (\<lambda>ok.
     if \<not> ok then give_up MI_PIPE_CREATE
     else start_gdb gdb))"

text \<open>The value says whether a handle was returned; the handle is \<open>c_h\<close>.\<close>

definition mi_connect_local :: "bool com" where
  "mi_connect_local =
     seq mi_get_gdb_exe (\<lambda>gdb.
     seq (set_error MI_OK) (\<lambda>_.
     seq (ask (\<lambda>c. is_exec (c_os c) gdb)) (\<lambda>runs.
     if \<not> runs then seq (set_error MI_MISSING_GDB) (\<lambda>_. ret False)
     else seq mi_alloc_h (\<lambda>new. case new of
       None \<Rightarrow> ret False
     | Some h0 \<Rightarrow>
         seq (hand (\<lambda>_. h0\<lparr>time_out := MI_DEFAULT_TIME_OUT\<rparr>)) (\<lambda>_. open_gdb gdb)))))"

definition mi_disconnect :: "unit com" where
  "mi_disconnect = seq mi_free_h (\<lambda>_.
     seq (ask mi_error_from_gdb) (\<lambda>m. seq (heap (c_free m)) (\<lambda>_. set_msg None)))"

section \<open>The settings own what they hold\<close>

definition conf_blocks :: "globals \<Rightarrow> int" where
  "conf_blocks g = own (gdb_exe g) + own (xterm_exe g) + own (gdb_start g) + own (gdb_conn g)
     + own (main_func g)"

text \<open>
  How the settings may change: no block is lost, and the exit handler is registered at most once.
\<close>

definition settled :: "conn \<Rightarrow> conn \<Rightarrow> bool" where
  "settled c c1 \<longleftrightarrow>
     live (c_w c1) - conf_blocks (c_g c1) = live (c_w c) - conf_blocks (c_g c) \<and>
     (if registered (c_g c) then registered (c_g c1) else True) \<and>
     filter (\<lambda>e. e = At_exit) (events c1) = filter (\<lambda>e. e = At_exit) (events c) @
       (if registered (c_g c1) \<and> \<not> registered (c_g c) then [At_exit] else [])"

lemma settled_refl: "settled c c"
  by (simp add: settled_def)

lemma settled_trans: "settled c c1 \<Longrightarrow> settled c1 c2 \<Longrightarrow> settled c c2"
  by (auto simp: settled_def split: if_splits)

text \<open>One variable of the settings: what \<open>put\<close> stores is what \<open>get\<close> reads.\<close>

locale setting =
  fixes get :: "globals \<Rightarrow> string option" and put :: "string option \<Rightarrow> globals \<Rightarrow> globals"
  assumes get_put: "get (put d g) = d"
    and blocks_put: "conf_blocks (put d g) = conf_blocks g - own (get g) + own d"
    and registered_put: "registered (put d g) = registered g"
    and get_registered: "get (registered_update f g) = get g"
begin

lemma set_name_run:
  "\<exists>c1 d. set_name get put name c = Inr ((), c1) \<and> get (c_g c1) = d \<and> settled c c1 \<and> registered (c_g c1) \<and>
     (d = name \<or> (d = None \<and> oom (c_w c) \<noteq> []))"
proof -
  have blocks: "conf_blocks (g\<lparr>registered := b\<rparr>) = conf_blocks g" for g b
    by (simp add: conf_blocks_def)
  show ?thesis
  proof (cases name)
    case None
    then show ?thesis
      by (auto simp: set_name_def getg_def setg_def mi_register_exit_def com_defs settled_def blocks
          get_put blocks_put registered_put get_registered c_free_live)
  next
    case (Some s)
    then show ?thesis
      by (cases "oom (c_w c)")
        (auto simp: set_name_def getg_def setg_def mi_register_exit_def com_defs settled_def blocks
          get_put blocks_put registered_put get_registered c_free_live dup_def c_strdup_def c_malloc_def)
  qed
qed

lemma set_name_settled: "set_name get put name c = Inr (u, c1) \<Longrightarrow> settled c c1"
  using set_name_run [of name c] by auto

end

interpretation gdb_exe_setting: setting gdb_exe "\<lambda>d. gdb_exe_update (\<lambda>_. d)"
  by unfold_locales (auto simp: conf_blocks_def)

interpretation gdb_start_setting: setting gdb_start "\<lambda>d. gdb_start_update (\<lambda>_. d)"
  by unfold_locales (auto simp: conf_blocks_def)

interpretation gdb_conn_setting: setting gdb_conn "\<lambda>d. gdb_conn_update (\<lambda>_. d)"
  by unfold_locales (auto simp: conf_blocks_def)

interpretation xterm_exe_setting: setting xterm_exe "\<lambda>d. xterm_exe_update (\<lambda>_. d)"
  by unfold_locales (auto simp: conf_blocks_def)

interpretation main_func_setting: setting main_func "\<lambda>d. main_func_update (\<lambda>_. d)"
  by unfold_locales (auto simp: conf_blocks_def)

lemmas settings_settled = gdb_exe_setting.set_name_settled gdb_start_setting.set_name_settled
  gdb_conn_setting.set_name_settled xterm_exe_setting.set_name_settled main_func_setting.set_name_settled

lemma dup_live: "dup s c = Inr (d, c1) \<Longrightarrow>
    events c1 = events c \<and> c_g c1 = c_g c \<and> live (c_w c1) = live (c_w c) + own d"
  by (auto simp: dup_def com_defs c_strdup_def c_malloc_def split: list.splits if_splits prod.splits)

lemma search_dirs_live: "search_dirs file ds c = Inr (r, c1) \<Longrightarrow>
    events c1 = events c \<and> c_g c1 = c_g c \<and> live (c_w c1) = live (c_w c) - 1 + own r"
proof (induction ds)
  case (Cons d ds)
  then show ?case
    by (auto simp: seq_Inr ask_def Let_def heap_def c_free_live dest!: dup_live split: if_splits)
qed (auto simp: com_defs c_free_live)

lemma search_in_path_live: "mi_search_in_path file c = Inr (r, c1) \<Longrightarrow>
    events c1 = events c \<and> c_g c1 = c_g c \<and> live (c_w c1) = live (c_w c) + own r"
  by (auto simp: mi_search_in_path_def seq_Inr ask_def ret_def dest!: dup_live search_dirs_live
      split: option.splits)

lemma found_settled:
  assumes "mi_search_in_path file c = Inr (r, c1)"
  shows "gdb_exe (c_g c) = None \<Longrightarrow> settled c (c1\<lparr>c_g := (c_g c1)\<lparr>gdb_exe := r\<rparr>\<rparr>)"
    and "xterm_exe (c_g c) = None \<Longrightarrow> settled c (c1\<lparr>c_g := (c_g c1)\<lparr>xterm_exe := r\<rparr>\<rparr>)"
  using search_in_path_live [OF assms] by (simp_all add: settled_def conf_blocks_def)

lemma get_gdb_exe_settled:
  assumes "mi_get_gdb_exe c = Inr (s, c1)" shows "settled c c1"
proof (cases "gdb_exe (c_g c)")
  case None
  with assms obtain r c2 where "mi_search_in_path ''gdb'' c = Inr (r, c2)"
      "c1 = c2\<lparr>c_g := (c_g c2)\<lparr>gdb_exe := r\<rparr>\<rparr>"
    by (auto simp: mi_get_gdb_exe_def getg_def ask_def seq_Inr setg_def ret_def split: option.splits)
  with None found_settled(1) show ?thesis by simp
qed (use assms in \<open>simp add: mi_get_gdb_exe_def getg_def ask_def seq_def ret_def settled_refl\<close>)

lemma get_xterm_exe_settled:
  assumes "mi_get_xterm_exe c = Inr (s, c1)" shows "settled c c1"
proof (cases "xterm_exe (c_g c)")
  case None
  with assms obtain r c2 where "mi_search_in_path ''xterm'' c = Inr (r, c2)"
      "c1 = c2\<lparr>c_g := (c_g c2)\<lparr>xterm_exe := r\<rparr>\<rparr>"
    by (auto simp: mi_get_xterm_exe_def getg_def ask_def seq_Inr setg_def ret_def split: option.splits)
  with None found_settled(2) show ?thesis by simp
qed (use assms in \<open>simp add: mi_get_xterm_exe_def getg_def ask_def seq_def ret_def settled_refl\<close>)

inductive settings_step :: "conn \<Rightarrow> conn \<Rightarrow> bool" where
  set_gdb_exe: "mi_set_gdb_exe name c = Inr (u, c1) \<Longrightarrow> settings_step c c1"
| set_gdb_start: "mi_set_gdb_start name c = Inr (u, c1) \<Longrightarrow> settings_step c c1"
| set_gdb_conn: "mi_set_gdb_conn name c = Inr (u, c1) \<Longrightarrow> settings_step c c1"
| set_xterm_exe: "mi_set_xterm_exe name c = Inr (u, c1) \<Longrightarrow> settings_step c c1"
| set_main_func: "mi_set_main_func name c = Inr (u, c1) \<Longrightarrow> settings_step c c1"
| get_gdb_exe: "mi_get_gdb_exe c = Inr (s, c1) \<Longrightarrow> settings_step c c1"
| get_xterm_exe: "mi_get_xterm_exe c = Inr (s, c1) \<Longrightarrow> settings_step c c1"
| set_workaround: "mi_set_workaround wa b c = Inr (u, c1) \<Longrightarrow> settings_step c c1"

inductive_cases settings_stepE: "settings_step c c1"

lemma step_settled: "settings_step c c1 \<Longrightarrow> settled c c1"
proof (induction rule: settings_step.induct)
  case (set_workaround wa b c u c1)
  then show ?case
    by (auto simp: mi_set_workaround_def setg_def ret_def settled_def conf_blocks_def split: if_splits)
qed (auto simp: mi_set_gdb_exe_def mi_set_gdb_start_def mi_set_gdb_conn_def mi_set_xterm_exe_def
    mi_set_main_func_def intro: settings_settled get_gdb_exe_settled get_xterm_exe_settled)

lemma steps_settled: "settings_step\<^sup>*\<^sup>* c c1 \<Longrightarrow> settled c c1"
  by (induction rule: rtranclp_induct) (auto intro: settled_refl settled_trans step_settled)

lemma clean_up_run: "mi_clean_up_globals c = Inr ((), c\<lparr>c_w := add_live (- conf_blocks (c_g c)) (c_w c),
    c_g := (c_g c)\<lparr>gdb_exe := None, xterm_exe := None, gdb_start := None, gdb_conn := None, main_func := None\<rparr>\<rparr>)"
  by (simp add: mi_clean_up_globals_def getg_def setg_def com_defs c_free_live conf_blocks_def algebra_simps)

text \<open>
  C25: However the settings are changed and looked up, the exit handler releases exactly the blocks
  they hold: the heap is then as it was before the first change, less what the settings held
  there. The handler is registered once at most, whatever the number of changes.
\<close>

theorem settings_balance:
  assumes "settings_step\<^sup>*\<^sup>* c c1"
  shows "\<exists>c2. mi_clean_up_globals c1 = Inr ((), c2) \<and> conf_blocks (c_g c2) = 0 \<and>
      live (c_w c2) = live (c_w c) - conf_blocks (c_g c) \<and>
      length (filter (\<lambda>e. e = At_exit) (events c2)) \<le> length (filter (\<lambda>e. e = At_exit) (events c)) + 1"
  using steps_settled [OF assms]
  by (auto simp: clean_up_run settled_def conf_blocks_def)

theorem settings_balance_witness:
  "\<exists>c1 c2. mi_set_gdb_exe (Some ''gdb'') (started fresh_h [] []) = Inr ((), c1) \<and>
     live (c_w c1) = 1 \<and> mi_clean_up_globals c1 = Inr ((), c2) \<and> live (c_w c2) = 0"
proof -
  let ?c = "started fresh_h [] []"
  obtain c1 where 1: "mi_set_gdb_exe (Some ''gdb'') ?c = Inr ((), c1)" "live (c_w c1) = 1"
    by (simp add: mi_set_gdb_exe_def set_name_def getg_def setg_def mi_register_exit_def com_defs dup_def
        c_strdup_def started_def no_settings_def c_free_def)
  have "settings_step\<^sup>*\<^sup>* ?c c1" using settings_step.intros(1) [OF 1(1)] by simp
  from settings_balance [OF this] 1 show ?thesis
    by (auto simp: started_def no_settings_def conf_blocks_def)
qed

section \<open>The search in PATH\<close>

fun colons :: "string list \<Rightarrow> string" where
  "colons [] = []"
| "colons [d] = d"
| "colons (d # ds) = d @ CHR '':'' # colons ds"

lemma path_dirs_part: "CHR '':'' \<notin> set d \<Longrightarrow> path_dirs acc (d @ s) = path_dirs (acc @ d) s"
  by (induction d arbitrary: acc) auto

lemma path_dirs_colons:
  "\<forall>d\<in>set ds. CHR '':'' \<notin> set d \<Longrightarrow> path_dirs [] (colons ds) = filter (\<lambda>d. d \<noteq> []) ds"
proof (induction ds rule: colons.induct)
  case (2 d)
  then show ?case using path_dirs_part [of d "[]" "[]"] by simp
qed (auto simp: path_dirs_part)

text \<open>What the search decides about one directory: go on, stop with a hit, or overflow.\<close>

definition too_long :: "string \<Rightarrow> string \<Rightarrow> bool" where
  "too_long file d \<longleftrightarrow> PATH_MAX \<le> length (d @ ''/'' @ file)"

definition has_file :: "conn \<Rightarrow> string \<Rightarrow> string \<Rightarrow> bool" where
  "has_file c file d \<longleftrightarrow> is_reg (c_os c) (d @ ''/'' @ file)"

lemma search_dirs_find:
  assumes "oom (c_w c) = []"
  shows "search_dirs file ds c = (case dropWhile (\<lambda>d. \<not> too_long file d \<and> \<not> has_file c file d) ds of
       [] \<Rightarrow> Inr (None, c\<lparr>c_w := add_live (- 1) (c_w c)\<rparr>)
     | d # _ \<Rightarrow> if too_long file d then Inl Over_write else Inr (Some (d @ ''/'' @ file), c))"
  using assms
  by (induction ds) (auto simp: com_defs c_free_live dup_def c_strdup_def too_long_def has_file_def Let_def
      split: list.splits)

text \<open>
  C40: The search of a program is right when the directories are short: the first directory of
  \<open>PATH\<close> with a regular file of that name, empty entries skipped, and the heap changes by the block
  of the answer alone. The first directory that is too long for the fixed buffer, before any hit,
  makes it write past that buffer.
\<close>

theorem search_in_path_first:
  assumes "env_path (c_os c) = Some (colons ds)" and "\<forall>d\<in>set ds. CHR '':'' \<notin> set d" and "oom (c_w c) = []"
  shows "mi_search_in_path file c =
    (case dropWhile (\<lambda>d. \<not> too_long file d \<and> \<not> has_file c file d) (filter (\<lambda>d. d \<noteq> []) ds) of
       [] \<Rightarrow> Inr (None, c)
     | d # _ \<Rightarrow> if too_long file d then Inl Over_write
                else Inr (Some (d @ ''/'' @ file), c\<lparr>c_w := add_live 1 (c_w c)\<rparr>))"
proof -
  let ?c = "c\<lparr>c_w := add_live 1 (c_w c)\<rparr>"
  have "mi_search_in_path file c = search_dirs file (filter (\<lambda>d. d \<noteq> []) ds) ?c"
    using assms by (simp add: mi_search_in_path_def com_defs dup_def c_strdup_def path_dirs_colons)
  moreover have "has_file ?c = has_file c" by (simp add: has_file_def fun_eq_iff)
  ultimately show ?thesis using search_dirs_find [of ?c] assms(3)
    by (simp split: list.splits del: dropWhile_eq_Nil_conv)
qed

definition on_path :: conn where
  "on_path = (started fresh_h [] [])\<lparr>c_os := bare_os\<lparr>env_path := Some ''/a::/usr/bin:/b'',
     is_reg := (\<lambda>f. f \<in> {''/usr/bin/gdb'', ''/b/gdb''})\<rparr>\<rparr>"

theorem search_in_path_first_witness:
  "\<exists>c1. mi_search_in_path ''gdb'' on_path = Inr (Some ''/usr/bin/gdb'', c1) \<and> live (c_w c1) = 1"
  using search_in_path_first [of on_path "[''/a'', [], ''/usr/bin'', ''/b'']" "''gdb''"]
  by (simp add: on_path_def started_def too_long_def PATH_MAX_def has_file_def)

section \<open>Releasing a handle\<close>

text \<open>What \<open>mi_free_h\<close> closes, and the descriptors that are open.\<close>

definition fd_closes :: "mi_h \<Rightarrow> event list" where
  "fd_closes h = (if 0 \<le> to_gdb0 h then [Close (to_gdb0 h)] else []) @
     (if to_stream h then [Fclose (to_gdb1 h)] else if 0 \<le> to_gdb1 h then [Close (to_gdb1 h)] else []) @
     (if from_stream h then [Fclose (from_gdb0 h)] else if 0 \<le> from_gdb0 h then [Close (from_gdb0 h)] else []) @
     (if 0 \<le> from_gdb1 h then [Close (from_gdb1 h)] else [])"

definition fds :: "mi_h \<Rightarrow> int list" where
  "fds h = filter (\<lambda>x. 0 \<le> x) [to_gdb0 h, to_gdb1 h, from_gdb0 h, from_gdb1 h]"

fun closes :: "event list \<Rightarrow> int list" where
  "closes [] = []"
| "closes (Close n # es) = n # closes es"
| "closes (Fclose n # es) = n # closes es"
| "closes (e # es) = closes es"

fun kills :: "event list \<Rightarrow> int list" where
  "kills [] = []"
| "kills (Kill p b # es) = p # kills es"
| "kills (e # es) = kills es"

lemma closes_append [simp]: "closes (es @ es') = closes es @ closes es'"
  by (induction es rule: closes.induct) auto

lemma kills_append [simp]: "kills (es @ es') = kills es @ kills es'"
  by (induction es rule: kills.induct) auto

definition streams_ok :: "mi_h \<Rightarrow> bool" where
  "streams_ok h \<longleftrightarrow> (if to_stream h then 0 \<le> to_gdb1 h else True) \<and> (if from_stream h then 0 \<le> from_gdb0 h else True)"

lemma closes_fds: "streams_ok h \<Longrightarrow> closes (fd_closes h) = fds h"
  by (auto simp: fd_closes_def fds_def streams_ok_def split: if_splits)

lemma kills_fds [simp]: "kills (fd_closes h) = []"
  by (simp add: fd_closes_def)

text \<open>One look at the child, and the state of the script after it.\<close>

definition alive :: "int \<Rightarrow> bool list \<Rightarrow> bool" where
  "alive p ws \<longleftrightarrow> 0 < p \<and> (ws = [] \<or> \<not> hd ws)"

definition looked :: "int \<Rightarrow> bool list \<Rightarrow> bool list" where
  "looked p ws = (if 0 < p then tl ws else ws)"

lemma check_pid_run: "mi_check_running_pid p c = Inr (alive p (waits c), c\<lparr>waits := looked p (waits c)\<rparr>)"
  by (cases "waits c") (auto simp: mi_check_running_pid_def wait_nohang_def com_defs alive_def looked_def)

lemma check_running_run:
  "mi_check_running c = Inr (\<not> died (c_h c) \<and> alive (pid (c_h c)) (waits c),
     c\<lparr>waits := (if died (c_h c) then waits c else looked (pid (c_h c)) (waits c))\<rparr>)"
  by (simp add: mi_check_running_def check_pid_run)

lemma kill_child_run:
  "mi_kill_child p c = Inr ((), c\<lparr>waits := looked p (waits c),
     events := events c @ Kill p False # (if alive p (waits c) then [Kill p True] else [])\<rparr>)"
  by (simp add: mi_kill_child_def seq_def check_pid_run emit_def ret_def)

definition left_waits :: "mi_h \<Rightarrow> bool list \<Rightarrow> bool list" where
  "left_waits h ws = (if died h then ws
     else if alive (pid h) ws then looked (pid h) (looked (pid h) ws) else looked (pid h) ws)"

definition free_kills :: "mi_h \<Rightarrow> bool list \<Rightarrow> event list" where
  "free_kills h ws = (if \<not> died h \<and> alive (pid h) ws
     then Kill (pid h) False # (if alive (pid h) (looked (pid h) ws) then [Kill (pid h) True] else []) else [])"

lemma free_h_run:
  "mi_free_h c = Inr ((), c\<lparr>waits := left_waits (c_h c) (waits c),
     events := events c @ fd_closes (c_h c) @ free_kills (c_h c) (waits c),
     c_w := add_live (- blocks_h (c_h c)) (c_w c)\<rparr>)"
proof -
  let ?h = "c_h c"
  let ?c1 = "c\<lparr>events := events c @ fd_closes ?h\<rparr>"
  let ?rest = "seq mi_check_running (\<lambda>running. seq (if running then mi_kill_child (pid ?h) else ret ()) (\<lambda>_.
     seq (heap (c_free (line ?h))) (\<lambda>_. seq (heap (mi_free_output (po ?h))) (\<lambda>_.
     seq (heap (c_free (catched_console ?h))) (\<lambda>_. heap (c_free (Some ())))))))"
  have 1: "mi_free_h c = ?rest ?c1"
    by (simp add: mi_free_h_def fd_closes_def seq_def ask_def emit_def ret_def)
  show ?thesis
    unfolding 1
    by (simp add: seq_def check_running_run kill_child_run heap_def ret_def c_free_live mi_free_output_live
        blocks_h_def left_waits_def free_kills_def algebra_simps)
qed

lemma closes_free_kills [simp]: "closes (free_kills h ws) = []"
  by (simp add: free_kills_def)

section \<open>A connection that does not start\<close>

text \<open>Descriptors are not negative when the system gives them, and a fresh handle has none.\<close>

definition no_fds :: "mi_h \<Rightarrow> bool" where
  "no_fds h \<longleftrightarrow> to_gdb0 h = - 1 \<and> to_gdb1 h = - 1 \<and> from_gdb0 h = - 1 \<and> from_gdb1 h = - 1 \<and>
     \<not> to_stream h \<and> \<not> from_stream h"

definition pair_list :: "(int \<times> int) list \<Rightarrow> int list" where
  "pair_list ps = concat (map (\<lambda>(a, b). [a, b]) ps)"

lemma pair_list_simps [simp]: "pair_list [] = []" "pair_list ((a, b) # ps) = a # b # pair_list ps"
  by (simp_all add: pair_list_def)

definition good_pipes :: "(int \<times> int) list \<Rightarrow> bool" where
  "good_pipes ps \<longleftrightarrow> list_all (\<lambda>(a, b). 0 \<le> a \<and> 0 \<le> b) ps"

lemma good_pipes_simps [simp]:
  "good_pipes []" "good_pipes ((a, b) # ps) \<longleftrightarrow> 0 \<le> a \<and> 0 \<le> b \<and> good_pipes ps"
  by (simp_all add: good_pipes_def)

text \<open>What one stage of the start does: only descriptors and the scripts of the system change.\<close>

definition stage :: "conn \<Rightarrow> conn \<Rightarrow> bool" where
  "stage c c1 \<longleftrightarrow> c_g c1 = c_g c \<and> c_w c1 = c_w c \<and> closes (events c1) = closes (events c) \<and>
     blocks_h (c_h c1) = blocks_h (c_h c) \<and> pid (c_h c1) = pid (c_h c)"

lemma pipes_cases:
  obtains "ps = []" | a b where "ps = [(a, b)]" | a b x y qs where "ps = (a, b) # (x, y) # qs"
  by (metis neq_Nil_conv prod.exhaust)

lemma pipe_run: "os_pipe c = Inr (if pipes (c_os c) = [] then None else Some (hd (pipes (c_os c))),
    c\<lparr>c_os := (c_os c)\<lparr>pipes := tl (pipes (c_os c))\<rparr>\<rparr>)"
  by (cases "pipes (c_os c)") (simp_all add: os_pipe_def sys_def)

lemma both_pipes_eq:
  "pipes (c_os c) = [] \<Longrightarrow> both_pipes c = Inr (False, c)"
  "pipes (c_os c) = [(a, b)] \<Longrightarrow> both_pipes c =
     Inr (False, c\<lparr>c_os := (c_os c)\<lparr>pipes := []\<rparr>, c_h := (c_h c)\<lparr>to_gdb0 := a, to_gdb1 := b\<rparr>\<rparr>)"
  "pipes (c_os c) = (a, b) # (x, y) # ps \<Longrightarrow> both_pipes c =
     Inr (True, c\<lparr>c_os := (c_os c)\<lparr>pipes := ps\<rparr>,
       c_h := (c_h c)\<lparr>to_gdb0 := a, to_gdb1 := b, from_gdb0 := x, from_gdb1 := y\<rparr>\<rparr>)"
  by (simp_all add: both_pipes_def pipe_run com_defs)

lemma both_pipes_run:
  assumes "both_pipes c = Inr (ok, c1)" and "no_fds (c_h c)" and "good_pipes (pipes (c_os c))"
  shows "stage c c1 \<and> streams_ok (c_h c1) \<and> (if ok then 0 \<le> to_gdb1 (c_h c1) \<and> 0 \<le> from_gdb0 (c_h c1) else True) \<and>
    pair_list (pipes (c_os c)) = fds (c_h c1) @ pair_list (pipes (c_os c1)) \<and> waits c1 = waits c"
proof (cases "pipes (c_os c)" rule: pipes_cases)
  case 1
  with assms have "ok = False" "c1 = c" by (simp_all add: both_pipes_eq(1))
  with 1 assms(2) show ?thesis by (simp add: stage_def fds_def streams_ok_def no_fds_def)
next
  case (2 a b)
  with assms have "ok = False" "c1 = c\<lparr>c_os := (c_os c)\<lparr>pipes := []\<rparr>, c_h := (c_h c)\<lparr>to_gdb0 := a, to_gdb1 := b\<rparr>\<rparr>"
    by (simp_all add: both_pipes_eq(2))
  with 2 assms(2,3) show ?thesis by (simp add: stage_def fds_def streams_ok_def no_fds_def blocks_h_def)
next
  case (3 a b x y qs)
  with assms have "ok = True" "c1 = c\<lparr>c_os := (c_os c)\<lparr>pipes := qs\<rparr>,
       c_h := (c_h c)\<lparr>to_gdb0 := a, to_gdb1 := b, from_gdb0 := x, from_gdb1 := y\<rparr>\<rparr>"
    by (simp_all add: both_pipes_eq(3))
  with 3 assms(2,3) show ?thesis by (simp add: stage_def fds_def streams_ok_def no_fds_def blocks_h_def)
qed

lemma fdopen_run: "os_fdopen c = Inr (fdopens (c_os c) \<noteq> [] \<and> hd (fdopens (c_os c)),
    c\<lparr>c_os := (c_os c)\<lparr>fdopens := tl (fdopens (c_os c))\<rparr>\<rparr>)"
  by (cases "fdopens (c_os c)") (simp_all add: os_fdopen_def sys_def)

lemma both_streams_eq:
  "both_streams c = (let t = fdopens (c_os c) \<noteq> [] \<and> hd (fdopens (c_os c));
       f = tl (fdopens (c_os c)) \<noteq> [] \<and> hd (tl (fdopens (c_os c))) in
     Inr (t \<and> f, c\<lparr>events := events c @ [Nonblock (to_gdb1 (c_h c)), Nonblock (from_gdb0 (c_h c))],
       c_os := (c_os c)\<lparr>fdopens := tl (tl (fdopens (c_os c)))\<rparr>,
       c_h := (c_h c)\<lparr>to_stream := t, from_stream := f\<rparr>\<rparr>))"
  by (simp add: both_streams_def fdopen_run com_defs mi_set_nonblk_def Let_def)

lemma both_streams_run:
  assumes "both_streams c = Inr (ok, c1)" and "0 \<le> to_gdb1 (c_h c)" and "0 \<le> from_gdb0 (c_h c)"
  shows "stage c c1 \<and> streams_ok (c_h c1) \<and> fds (c_h c1) = fds (c_h c) \<and> waits c1 = waits c \<and>
    pipes (c_os c1) = pipes (c_os c)"
proof -
  from assms(1) obtain t f where "c1 = c\<lparr>events := events c @ [Nonblock (to_gdb1 (c_h c)), Nonblock (from_gdb0 (c_h c))],
       c_os := (c_os c)\<lparr>fdopens := tl (tl (fdopens (c_os c)))\<rparr>,
       c_h := (c_h c)\<lparr>to_stream := t, from_stream := f\<rparr>\<rparr>"
    unfolding both_streams_eq Let_def by blast
  with assms(2,3) show ?thesis
    by (simp add: stage_def blocks_h_def fds_def streams_ok_def)
qed

text \<open>
  The start is at a point where the handle is the only new block and holds all the descriptors
  taken from the system; giving up there releases the block and closes the descriptors.
\<close>

definition underway :: "conn \<Rightarrow> conn \<Rightarrow> bool" where
  "underway c0 c \<longleftrightarrow> c_g c = c_g c0 \<and> live (c_w c) = live (c_w c0) \<and> closes (events c) = closes (events c0) \<and>
     blocks_h (c_h c) = 1 \<and> streams_ok (c_h c) \<and>
     pair_list (pipes (c_os c0)) = fds (c_h c) @ pair_list (pipes (c_os c))"

definition undone :: "conn \<Rightarrow> conn \<Rightarrow> bool" where
  "undone c0 c1 \<longleftrightarrow> c_g c1 = c_g c0 \<and> live (c_w c1) = live (c_w c0) - 1 \<and>
     (\<exists>used. pair_list (pipes (c_os c0)) = used @ pair_list (pipes (c_os c1)) \<and>
        closes (events c1) = closes (events c0) @ used)"

lemma give_up_undone:
  assumes "give_up e c = Inr (b, c1)" and "underway c0 c"
  shows "undone c0 c1 \<and> mi_error (c_w c1) = e"
proof -
  have "c1 = c\<lparr>waits := left_waits (c_h c) (waits c),
     events := events c @ fd_closes (c_h c) @ free_kills (c_h c) (waits c),
     c_w := (c_w c)\<lparr>mi_error := e, live := live (c_w c) - blocks_h (c_h c)\<rparr>\<rparr>"
    using assms(1) by (simp add: give_up_def set_error_def heap_def seq_def free_h_run ret_def)
  with assms(2) show ?thesis by (auto simp: underway_def undone_def closes_fds)
qed

lemma dup_frame: "dup s c = Inr (d, c1) \<Longrightarrow> c_os c1 = c_os c"
  by (auto simp: dup_def com_defs split: prod.splits)

lemma search_dirs_frame: "search_dirs file ds c = Inr (r, c1) \<Longrightarrow> c_os c1 = c_os c"
proof (induction ds)
  case (Cons d ds)
  then show ?case
    by (auto simp: seq_Inr ask_def Let_def heap_def dest!: dup_frame split: if_splits)
qed (auto simp: com_defs)

lemma search_in_path_frame: "mi_search_in_path file c = Inr (r, c1) \<Longrightarrow> c_os c1 = c_os c"
  by (auto simp: mi_search_in_path_def seq_Inr ask_def ret_def dest!: dup_frame search_dirs_frame split: option.splits)

lemma get_gdb_exe_frame:
  assumes "mi_get_gdb_exe c = Inr (gdb, c1)"
  shows "events c1 = events c \<and> c_os c1 = c_os c \<and>
    live (c_w c1) - conf_blocks (c_g c1) = live (c_w c) - conf_blocks (c_g c)"
proof -
  have "c_os c1 = c_os c \<and> events c1 = events c"
  proof (cases "gdb_exe (c_g c)")
    case None
    with assms obtain r c2 where f: "mi_search_in_path ''gdb'' c = Inr (r, c2)"
        "c1 = c2\<lparr>c_g := (c_g c2)\<lparr>gdb_exe := r\<rparr>\<rparr>"
      by (auto simp: mi_get_gdb_exe_def getg_def ask_def seq_Inr setg_def ret_def split: option.splits)
    with search_in_path_live [OF f(1)] search_in_path_frame [OF f(1)] show ?thesis by simp
  qed (use assms in \<open>simp add: mi_get_gdb_exe_def getg_def ask_def seq_def ret_def\<close>)
  with get_gdb_exe_settled [OF assms] show ?thesis by (simp add: settled_def)
qed

lemma alloc_h_run:
  assumes "mi_alloc_h c = Inr (new, c1)"
  shows "if new = None then c_g c1 = c_g c \<and> events c1 = events c \<and> c_os c1 = c_os c \<and>
      live (c_w c1) = live (c_w c) \<and> mi_error (c_w c1) = MI_OUT_OF_MEMORY
    else new = Some fresh_h \<and> (\<exists>w. c1 = c\<lparr>c_w := w\<rparr> \<and> live w = live (c_w c) + 1)"
  using assms
  by (auto simp: mi_alloc_h_def c_calloc_def c_malloc_def Let_def split: list.splits if_splits)

lemma underway_stage:
  "underway c0 c \<Longrightarrow> stage c c1 \<Longrightarrow> streams_ok (c_h c1) \<Longrightarrow> fds (c_h c1) = fds (c_h c) \<Longrightarrow>
     pipes (c_os c1) = pipes (c_os c) \<Longrightarrow> underway c0 c1"
  by (simp add: underway_def stage_def)

lemma fork_run: "os_fork c = Inr (if forks (c_os c) = [] then - 1 else hd (forks (c_os c)),
    c\<lparr>c_os := (c_os c)\<lparr>forks := tl (forks (c_os c))\<rparr>\<rparr>)"
  by (cases "forks (c_os c)") (simp_all add: os_fork_def sys_def)

lemma pid_same [simp]:
  "fds (h\<lparr>pid := p\<rparr>) = fds h" "streams_ok (h\<lparr>pid := p\<rparr>) = streams_ok h" "blocks_h (h\<lparr>pid := p\<rparr>) = blocks_h h"
  by (simp_all add: fds_def streams_ok_def blocks_h_def)

lemma start_gdb_failed:
  assumes "start_gdb gdb c = Inr (False, c1)" and "underway c0 c"
  shows "undone c0 c1 \<and> mi_error (c_w c1) \<in> {MI_FORK, MI_DEBUGGER_RUN}"
proof -
  have g: "undone c0 c1 \<and> mi_error (c_w c1) = e" if "give_up e c2 = Inr (False, c1)"
      and "c_g c2 = c_g c \<and> c_w c2 = c_w c \<and> closes (events c2) = closes (events c) \<and>
        pipes (c_os c2) = pipes (c_os c) \<and> (\<exists>p. c_h c2 = (c_h c)\<lparr>pid := p\<rparr>)" for e c2
    using that assms(2) by (intro give_up_undone [OF that(1)]) (auto simp: underway_def)
  show ?thesis using assms(1)
    by (auto simp: start_gdb_def seq_Inr fork_run hand_def getg_def ask_def emit_def check_running_run ret_def
        dest!: g split: if_splits)
qed

lemma open_gdb_failed:
  assumes "open_gdb gdb c = Inr (False, c1)" and "no_fds (c_h c)" and "blocks_h (c_h c) = 1"
    and "good_pipes (pipes (c_os c))"
  shows "undone c c1 \<and> mi_error (c_w c1) \<in> {MI_PIPE_CREATE, MI_FORK, MI_DEBUGGER_RUN}"
proof -
  obtain ok c2 where p: "both_pipes c = Inr (ok, c2)"
    using assms(1) by (auto simp: open_gdb_def seq_Inr)
  note b = both_pipes_run [OF p assms(2,4)]
  have u: "underway c c2" using b assms(3) by (simp add: stage_def underway_def)
  show ?thesis
  proof (cases ok)
    case False
    then have "give_up MI_PIPE_CREATE c2 = Inr (False, c1)"
      using assms(1) p by (simp add: open_gdb_def seq_def)
    from give_up_undone [OF this u] show ?thesis by simp
  next
    case True
    then obtain ok' c3 where s: "both_streams c2 = Inr (ok', c3)"
        "(if \<not> ok' then give_up MI_PIPE_CREATE else start_gdb gdb) c3 = Inr (False, c1)"
      using assms(1) p by (auto simp: open_gdb_def seq_Inr)
    have "0 \<le> to_gdb1 (c_h c2)" "0 \<le> from_gdb0 (c_h c2)" using b True by simp_all
    from both_streams_run [OF s(1) this] u have "underway c c3"
      by (intro underway_stage [OF u]) auto
    then show ?thesis using s(2) start_gdb_failed give_up_undone by (cases ok') fastforce+
  qed
qed

text \<open>
  C17: When \<open>mi_connect_local\<close> returns NULL it has said why, its only trace on the heap is the path of
  gdb it may have looked up, and the descriptors it closed are exactly those the pipes gave it, each
  once.
\<close>

theorem connect_failure:
  assumes "mi_connect_local c = Inr (False, c1)" and "good_pipes (pipes (c_os c))"
  shows "mi_error (c_w c1) \<in> {MI_MISSING_GDB, MI_OUT_OF_MEMORY, MI_PIPE_CREATE, MI_FORK, MI_DEBUGGER_RUN} \<and>
    live (c_w c1) - conf_blocks (c_g c1) = live (c_w c) - conf_blocks (c_g c) \<and>
    (\<exists>used. pair_list (pipes (c_os c)) = used @ pair_list (pipes (c_os c1)) \<and>
       closes (events c1) = closes (events c) @ used)"
proof -
  obtain gdb c2 where l: "mi_get_gdb_exe c = Inr (gdb, c2)"
    using assms(1) by (auto simp: mi_connect_local_def seq_Inr)
  note f = get_gdb_exe_frame [OF l]
  let ?c3 = "c2\<lparr>c_w := (c_w c2)\<lparr>mi_error := MI_OK\<rparr>\<rparr>"
  show ?thesis
  proof (cases "is_exec (c_os c2) gdb")
    case False
    then have "c1 = c2\<lparr>c_w := (c_w c2)\<lparr>mi_error := MI_MISSING_GDB\<rparr>\<rparr>"
      using assms(1) l by (simp add: mi_connect_local_def seq_def com_defs)
    with f show ?thesis by auto
  next
    case True
    then obtain new c4 where a: "mi_alloc_h ?c3 = Inr (new, c4)"
        "if new = None then c1 = c4 else open_gdb gdb (c4\<lparr>c_h := (the new)\<lparr>time_out := MI_DEFAULT_TIME_OUT\<rparr>\<rparr>) = Inr (False, c1)"
      using assms(1) l
      by (auto simp: mi_connect_local_def seq_Inr set_error_def heap_def ask_def hand_def ret_def split: option.splits)
    show ?thesis
    proof (cases new)
      case None
      with a alloc_h_run [OF a(1)] f show ?thesis by auto
    next
      case (Some h0)
      with alloc_h_run [OF a(1)] obtain w where
        h: "h0 = fresh_h" "c4 = ?c3\<lparr>c_w := w\<rparr>" "live w = live (c_w c2) + 1" by auto
      have "undone (c4\<lparr>c_h := h0\<lparr>time_out := MI_DEFAULT_TIME_OUT\<rparr>\<rparr>) c1 \<and>
          mi_error (c_w c1) \<in> {MI_PIPE_CREATE, MI_FORK, MI_DEBUGGER_RUN}"
        using a(2) Some h f assms(2)
        by (intro open_gdb_failed [of gdb]) (simp_all add: no_fds_def fresh_h_def blocks_h_def)
      with h f show ?thesis by (auto simp: undone_def)
    qed
  qed
qed

text \<open>A system where everything works up to the fork, which fails.\<close>

definition no_fork :: conn where
  "no_fork = on_path\<lparr>c_os := (c_os on_path)\<lparr>is_exec := (\<lambda>f. f = ''/usr/bin/gdb''), pipes := [(3, 4), (5, 6)],
     fdopens := [True, True]\<rparr>\<rparr>"

theorem connect_failure_witness:
  "\<exists>c1. mi_connect_local no_fork = Inr (False, c1) \<and> mi_error (c_w c1) = MI_FORK \<and>
     closes (events c1) = [3, 4, 5, 6] \<and> live (c_w c1) = conf_blocks (c_g c1)"
proof -
  have g: "mi_get_gdb_exe no_fork = Inr (''/usr/bin/gdb'', no_fork\<lparr>c_w := add_live 1 (c_w no_fork),
      c_g := (c_g no_fork)\<lparr>gdb_exe := Some ''/usr/bin/gdb''\<rparr>\<rparr>)"
    by (simp add: no_fork_def on_path_def started_def bare_os_def no_settings_def mi_get_gdb_exe_def
        mi_search_in_path_def getg_def setg_def com_defs dup_def c_strdup_def Let_def PATH_MAX_def c_free_live)
  have "\<exists>c1. mi_connect_local no_fork = Inr (False, c1) \<and> mi_error (c_w c1) = MI_FORK \<and> pipes (c_os c1) = []"
    by (simp add: mi_connect_local_def seq_def g set_error_def heap_def ask_def ret_def hand_def
        mi_alloc_h_def c_calloc_def open_gdb_def both_pipes_eq(3) both_streams_eq start_gdb_def fork_run
        give_up_def free_h_run Let_def)
      (simp add: no_fork_def on_path_def started_def bare_os_def both_pipes_eq(3) both_streams_eq start_gdb_def
        seq_def fork_run hand_def give_up_def free_h_run set_error_def heap_def ret_def)
  then obtain c1 where c1: "mi_connect_local no_fork = Inr (False, c1)" "mi_error (c_w c1) = MI_FORK"
      "pipes (c_os c1) = []" by blast
  have "good_pipes (pipes (c_os no_fork))" by (simp add: no_fork_def)
  from connect_failure [OF c1(1) this] c1 show ?thesis
    by (auto simp: no_fork_def on_path_def started_def no_settings_def conf_blocks_def)
qed

text \<open>
  A child that has ended is signalled all the same. When \<open>waitpid\<close> reports the end of gdb,
  \<open>mi_check_running\<close> says so once; the handle keeps the number of the child, so that releasing the
  handle finds it running again and sends \<open>SIGTERM\<close> and \<open>SIGKILL\<close> to a number that is no longer gdb's.
\<close>

theorem stale_pid_killed:
  assumes "\<not> died (c_h c)" and "0 < pid (c_h c)" and "waits c = [True]"
  shows "\<exists>c1 c2. mi_check_running c = Inr (False, c1) \<and> mi_free_h c1 = Inr ((), c2) \<and>
    kills (events c2) = kills (events c) @ [pid (c_h c), pid (c_h c)]"
  using assms
  by (auto simp: check_running_run alive_def looked_def free_h_run free_kills_def)

theorem stale_pid_killed_witness:
  "\<exists>c1 c2. mi_check_running ((started fresh_h [] [])\<lparr>waits := [True]\<rparr>) = Inr (False, c1) \<and>
    mi_free_h c1 = Inr ((), c2) \<and> kills (events c2) = [7, 7]"
  using stale_pid_killed [of "(started fresh_h [] [])\<lparr>waits := [True]\<rparr>"]
  by (simp add: started_def fresh_h_def)

section \<open>Start-up files\<close>

text \<open>The pieces \<open>fgets\<close> reads are the file, and each is one line at most.\<close>

lemma fgets_all_concat: "concat (fgets_all n acc s) = acc @ s"
  by (induction s arbitrary: n acc) auto

lemma printf0_directive: "CHR ''%'' \<notin> set a \<Longrightarrow> d \<noteq> CHR ''%'' \<Longrightarrow> printf0 (a @ CHR ''%'' # d # s) = Inl Bad_format"
  by (induction a) auto

lemma printf0_plain: "CHR ''%'' \<notin> set s \<Longrightarrow> printf0 s = Inr s"
  by (induction s) auto

lemma fgets_all_prefix:
  "NEWLINE \<notin> set a \<Longrightarrow> length a + 2 \<le> n \<Longrightarrow> x \<noteq> NEWLINE \<Longrightarrow>
     \<exists>t bs. fgets_all n acc (a @ x # y # s) = (acc @ a @ x # y # t) # bs"
proof (induction a arbitrary: n acc)
  case Nil
  then have n: "2 \<le> n" by simp
  have one: "\<exists>t bs. fgets_all m (ac @ [y]) s = (ac @ y # t) # bs" for m ac
  proof (induction s arbitrary: m ac y)
    case (Cons c s)
    show ?case using Cons.IH [of "m - 1" "ac @ [y]" c] by auto
  qed simp
  show ?case using Nil n one [of "n - 2" "acc @ [x]"] by (auto simp: numeral_2_eq_2)
next
  case (Cons c a)
  then show ?case using Cons.IH [of "n - 1" "acc @ [c]"] by auto
qed

text \<open>
  The lines of a start-up file are sent as \<open>printf\<close> formats. A line without percent signs goes out as
  it is; a line with a directive, as in \<open>set prompt 100%d\<close>, makes the library read an argument that was
  never passed.
\<close>

theorem startup_percent:
  assumes "\<not> died (c_h c)" and "{NEWLINE, NUL, CHR ''%''} \<inter> set a = {}" and "length a < 4094"
  shows "(if d \<noteq> CHR ''%'' \<and> d \<noteq> NUL \<and> text_file (c_os c) f = Some (a @ CHR ''%'' # d # s)
          then mi_send_commands (Some f) c = Inl Bad_format else True) \<and>
    (if oom (c_w c) = [] then \<exists>c1. send_format a c = Inr ((), c1) \<and> sent c1 = sent c @ [a] else True)"
proof -
  have ls: "line_str (a @ t) = a @ line_str t" for t
    using assms(2) by (auto simp: line_str_def takeWhile_append)
  have 1: "mi_send_commands (Some f) c = Inl Bad_format"
    if d: "d \<noteq> CHR ''%'' \<and> d \<noteq> NUL" and t: "text_file (c_os c) f = Some (a @ CHR ''%'' # d # s)"
  proof -
    have "NEWLINE \<notin> set a" using assms(2) by auto
    then obtain u bs where "fgets_all (PATH_MAX - 1) [] (a @ CHR ''%'' # d # s) = (a @ CHR ''%'' # d # u) # bs"
      using fgets_all_prefix [of a "PATH_MAX - 1" "CHR ''%''" "[]" d s] assms(3) by (auto simp: PATH_MAX_def)
    moreover have "printf0 (line_str (a @ CHR ''%'' # d # u)) = Inl Bad_format"
      unfolding ls using d assms(2) by (simp add: line_str_def printf0_directive)
    ultimately show ?thesis using t assms(1)
      by (simp add: mi_send_commands_def ask_def seq_def send_format_def pure_run_def)
  qed
  have "line_str a = a" using ls [of "[]"] by (simp add: line_str_def)
  then have 2: "\<exists>c1. send_format a c = Inr ((), c1) \<and> sent c1 = sent c @ [a]" if "oom (c_w c) = []"
    using that assms by (auto simp: send_format_def pure_run_def com_defs printf0_plain mi_send_def call_stream_def
        c_free_live split: option.splits)
  from 1 2 show ?thesis by auto
qed

theorem startup_percent_witness:
  "mi_send_commands (Some ''gdbinit'') ((started fresh_h [] [])\<lparr>c_os := bare_os\<lparr>text_file := (\<lambda>f.
     if f = ''gdbinit'' then Some ''set prompt 100%d'' else None)\<rparr>\<rparr>) = Inl Bad_format"
  using startup_percent [of "(started fresh_h [] [])\<lparr>c_os := bare_os\<lparr>text_file := (\<lambda>f.
     if f = ''gdbinit'' then Some ''set prompt 100%d'' else None)\<rparr>\<rparr>" "''set prompt 100''" "CHR ''d''" "''gdbinit''" "[]"]
  by (simp add: started_def fresh_h_def)

end
