(* ===== verification/MI_Numbers.thy ===== *)
theory MI_Numbers
  imports MI_Prelude
begin

text \<open>
  The directives of \<open>printf\<close> the library uses for numbers, \<open>%d\<close> and \<open>%p\<close>, and that \<open>atoi\<close> and \<open>strtoul\<close>
  read back what they print.
\<close>

definition digit_char :: "nat \<Rightarrow> char" where
  "digit_char d = ''0123456789abcdef'' ! d"

fun digits :: "nat \<Rightarrow> nat \<Rightarrow> string" where
  "digits b n = (if n < b \<or> b < 2 then [digit_char n] else digits b (n div b) @ [digit_char (n mod b)])"

declare digits.simps [simp del]

definition dec :: "int \<Rightarrow> string" where
  "dec i = (if i < 0 then CHR ''-'' # digits 10 (nat (- i)) else digits 10 (nat i))"

text \<open>\<open>%p\<close> of the GNU C library.\<close>

definition ptr :: "64 word \<Rightarrow> string" where
  "ptr a = (if a = 0 then ''(nil)'' else ''0x'' @ digits 16 (unat a))"

lemma digit_chars: "\<forall>d\<in>set [0..<16]. digit_val (digit_char d) = int d \<and> \<not> is_space (digit_char d) \<and>
    digit_char d \<notin> {CHR ''-'', CHR ''+'', NEWLINE}"
  by (simp add: upt_rec digit_char_def digit_val_def is_space_def)

lemma digit_char_facts:
  assumes "d < 16"
  shows "digit_val (digit_char d) = int d" and "\<not> is_space (digit_char d)"
    and "digit_char d \<noteq> CHR ''-''" and "digit_char d \<noteq> CHR ''+''" and "digit_char d \<noteq> NEWLINE"
  using bspec [OF digit_chars, of d] assms by auto

lemma read_digits_append:
  "list_all (\<lambda>c. digit_val c < b) s \<Longrightarrow> read_digits b acc (s @ t) = read_digits b (read_digits b acc s) t"
  by (induction s arbitrary: acc) auto

lemma digits_spec:
  assumes "2 \<le> b" and "b \<le> 16"
  shows "read_digits (int b) 0 (digits b n) = int n \<and> list_all (\<lambda>c. digit_val c < int b) (digits b n) \<and>
    (\<forall>c\<in>set (digits b n). \<exists>d<16. c = digit_char d) \<and> digits b n \<noteq> []"
  using assms
proof (induction b n rule: digits.induct)
  case (1 b n)
  show ?case
  proof (cases "n < b")
    case True
    then have "n < 16" using 1(3) by simp
    with True 1 show ?thesis by (auto simp: digits.simps [of b n] digit_char_facts intro!: exI [of _ n])
  next
    case False
    with 1 have ih: "read_digits (int b) 0 (digits b (n div b)) = int (n div b)"
        "list_all (\<lambda>c. digit_val c < int b) (digits b (n div b))"
        "\<forall>c\<in>set (digits b (n div b)). \<exists>d<16. c = digit_char d" by auto
    have m: "n mod b < b" "n mod b < 16" using 1 by (auto intro: less_le_trans [of _ b])
    have "int b * int (n div b) + int (n mod b) = int n"
      by (metis mult_div_mod_eq of_nat_add of_nat_mult)
    with ih m False 1(2) show ?thesis
      by (auto simp: digits.simps [of b n] read_digits_append digit_char_facts)
  qed
qed

lemma digits_start:
  assumes "2 \<le> b" and "b \<le> 16"
  obtains d s where "digits b n = digit_char d # s" "d < 16"
  using digits_spec [OF assms, of n] by (cases "digits b n") auto

lemma digits_clean: "2 \<le> b \<Longrightarrow> b \<le> 16 \<Longrightarrow> NEWLINE \<notin> set (digits b n)"
  using digits_spec [of b n] digit_char_facts(5) by fastforce

lemma dec_clean: "NEWLINE \<notin> set (dec i)"
  using digits_clean [of 10] by (simp add: dec_def)

lemma ptr_clean: "NEWLINE \<notin> set (ptr a)"
  using digits_clean [of 16] by (simp add: ptr_def)

text \<open>\<open>atoi\<close> reads back every \<open>int\<close> that \<open>%d\<close> prints, and \<open>strtoul\<close> every address that \<open>%p\<close> prints.\<close>

lemma atoi_dec:
  assumes "- (2 ^ 31) \<le> i" and "i < 2 ^ 31"
  shows "atoi (dec i) = i"
proof -
  have b: "(2::nat) \<le> 10" "(10::nat) \<le> 16" by simp_all
  have pos: "strtol10 (digits 10 n) = clamp64 (int n)" for n
  proof -
    obtain d s where d: "digits 10 n = digit_char d # s" "d < 16" using digits_start [OF b] by blast
    then have "read_sign (dropWhile is_space (digits 10 n)) = (False, digits 10 n)"
      by (simp add: digit_char_facts)
    with digits_spec [OF b, of n] show ?thesis by (simp add: strtol10_def)
  qed
  have neg: "strtol10 (CHR ''-'' # digits 10 n) = clamp64 (- int n)" for n
    using digits_spec [OF b, of n] by (simp add: strtol10_def is_space_def)
  have "strtol10 (dec i) = clamp64 i" using pos [of "nat i"] neg [of "nat (- i)"] by (simp add: dec_def)
  moreover have "clamp64 i = i" using assms by (simp add: clamp64_def)
  moreover have "sint (word_of_int i :: 32 word) = i"
    using assms by (simp add: signed_take_bit_int_eq_self sint_sbintrunc')
  ultimately show ?thesis by (simp add: atoi_def)
qed

lemma strtoul0_ptr: "strtoul0 (ptr a) = a"
proof (cases "a = 0")
  case True
  then show ?thesis by (simp add: ptr_def) code_simp
next
  case False
  have b: "(2::nat) \<le> 16" "(16::nat) \<le> 16" by simp_all
  obtain d s where d: "digits 16 (unat a) = digit_char d # s" "d < 16" using digits_start [OF b] by blast
  have "read_base0 (''0x'' @ digits 16 (unat a)) = int (unat a)"
    using digits_spec [OF b, of "unat a"] d by (simp add: digit_char_facts)
  moreover have "int (unat a) < 2 ^ 64" using uint_lt2p [of a] by simp
  ultimately show ?thesis using False by (simp add: ptr_def strtoul0_def is_space_def)
qed

end
