(* ===== verification/MI_Commands.thy ===== *)
theory MI_Commands
  imports MI_Globals MI_Frames MI_Breaks MI_Vars MI_Data MI_Numbers
begin

text \<open>
  The commands: \<open>src/prg_control.c\<close>, \<open>src/breakpoint.c\<close>, \<open>src/data_man.c\<close>, \<open>src/stack_man.c\<close>,
  \<open>src/target_man.c\<close>, \<open>src/misc.c\<close>, \<open>src/thread.c\<close> and \<open>src/var_obj.c\<close>. A low level function \<open>mi_x\<close>
  sends one text; a high level function \<open>gmi_x\<close> sends it and waits for the answer.

  A \<open>const char *\<close> argument is a string, or an option where the code tests it for NULL. The name of a
  variable object may be NULL; to print it with \<open>%s\<close> is a fault.
\<close>

definition cmd :: "string \<Rightarrow> unit com" where
  "cmd s = seq (mi_send (s @ [NEWLINE])) (\<lambda>_. ret ())"

text \<open>A piece of a command: no newline at its end.\<close>

definition piece :: "string \<Rightarrow> unit com" where
  "piece s = seq (mi_send s) (\<lambda>_. ret ())"

definition with_name :: "string option \<Rightarrow> (string \<Rightarrow> unit com) \<Rightarrow> unit com" where
  "with_name name f = seq (ask c_h) (\<lambda>h.
     if died h then ret ()
     else case name of None \<Rightarrow> (\<lambda>c. Inl Null_deref) | Some n \<Rightarrow> f n)"

definition in_quotes :: "string \<Rightarrow> string" where
  "in_quotes s = QUOTE # s @ [QUOTE]"

section \<open>Program control\<close>

definition mi_file_exec_and_symbols :: "string \<Rightarrow> unit com" where
  "mi_file_exec_and_symbols file = seq (mi_get_workaround MI_PSYM_SEARCH) (\<lambda>wa.
     if wa then cmd (''file -readnow '' @ file) else cmd (''-file-exec-and-symbols '' @ file))"

definition mi_exec_arguments :: "string \<Rightarrow> unit com" where
  "mi_exec_arguments args = cmd (''-exec-arguments '' @ args)"

definition mi_exec_run :: "unit com" where
  "mi_exec_run = cmd ''-exec-run''"

definition mi_exec_continue :: "unit com" where
  "mi_exec_continue = cmd ''-exec-continue''"

definition mi_target_terminal :: "string \<Rightarrow> unit com" where
  "mi_target_terminal tty_name = cmd (''tty '' @ tty_name)"

definition mi_file_symbol_file :: "string \<Rightarrow> unit com" where
  "mi_file_symbol_file file = seq (mi_get_workaround MI_PSYM_SEARCH) (\<lambda>wa.
     if wa then cmd (''symbol-file -readnow '' @ file) else cmd (''-file-symbol-file '' @ file))"

definition mi_exec_finish :: "unit com" where
  "mi_exec_finish = cmd ''-exec-finish''"

definition mi_exec_interrupt :: "unit com" where
  "mi_exec_interrupt = cmd ''-exec-interrupt''"

definition mi_exec_next :: "int \<Rightarrow> unit com" where
  "mi_exec_next count = (if count > 1 then cmd (''-exec-next '' @ dec count) else cmd ''-exec-next'')"

definition mi_exec_next_instruction :: "unit com" where
  "mi_exec_next_instruction = cmd ''-exec-next-instruction''"

definition mi_exec_step :: "int \<Rightarrow> unit com" where
  "mi_exec_step count = (if count > 1 then cmd (''-exec-step '' @ dec count) else cmd ''-exec-step'')"

definition mi_exec_step_instruction :: "unit com" where
  "mi_exec_step_instruction = cmd ''-exec-step-instruction''"

definition mi_exec_until :: "string option \<Rightarrow> int \<Rightarrow> unit com" where
  "mi_exec_until file ln = (case file of
       None \<Rightarrow> cmd ''-exec-until''
     | Some f \<Rightarrow> cmd (''-exec-until '' @ f @ '':'' @ dec ln))"

definition mi_exec_until_addr :: "64 word \<Rightarrow> unit com" where
  "mi_exec_until_addr addr = cmd (''-exec-until *'' @ ptr addr)"

definition mi_exec_return :: "unit com" where
  "mi_exec_return = cmd ''-exec-return''"

definition mi_exec_kill :: "unit com" where
  "mi_exec_kill = cmd ''kill''"

definition gmi_set_exec :: "string \<Rightarrow> string option \<Rightarrow> bool com" where
  "gmi_set_exec file args = seq (mi_file_exec_and_symbols file) (\<lambda>_.
     seq mi_res_simple_done (\<lambda>ok.
     if \<not> ok then ret False
     else case args of
         None \<Rightarrow> ret True
       | Some a \<Rightarrow> seq (mi_exec_arguments a) (\<lambda>_. mi_res_simple_done)))"

definition gmi_exec_run :: "bool com" where
  "gmi_exec_run = seq mi_exec_run (\<lambda>_. mi_res_simple_running)"

definition gmi_exec_continue :: "bool com" where
  "gmi_exec_continue = seq mi_exec_continue (\<lambda>_. mi_res_simple_running)"

definition gmi_target_terminal :: "string \<Rightarrow> bool com" where
  "gmi_target_terminal tty_name = seq (mi_target_terminal tty_name) (\<lambda>_. mi_res_simple_done)"

definition gmi_file_symbol_file :: "string \<Rightarrow> bool com" where
  "gmi_file_symbol_file file = seq (mi_file_symbol_file file) (\<lambda>_. mi_res_simple_done)"

definition gmi_exec_finish :: "bool com" where
  "gmi_exec_finish = seq mi_exec_finish (\<lambda>_. mi_res_simple_running)"

text \<open>No command is sent: the child gets a \<open>SIGINT\<close>.\<close>

definition gmi_exec_interrupt :: "bool com" where
  "gmi_exec_interrupt = seq (ask c_h) (\<lambda>h. seq (emit (Interrupt (pid h))) (\<lambda>_. ret True))"

definition gmi_exec_next :: "bool com" where
  "gmi_exec_next = seq (mi_exec_next 1) (\<lambda>_. mi_res_simple_running)"

definition gmi_exec_next_cnt :: "int \<Rightarrow> bool com" where
  "gmi_exec_next_cnt count = seq (mi_exec_next count) (\<lambda>_. mi_res_simple_running)"

definition gmi_exec_next_instruction :: "bool com" where
  "gmi_exec_next_instruction = seq mi_exec_next_instruction (\<lambda>_. mi_res_simple_running)"

definition gmi_exec_step :: "bool com" where
  "gmi_exec_step = seq (mi_exec_step 1) (\<lambda>_. mi_res_simple_running)"

definition gmi_exec_step_cnt :: "int \<Rightarrow> bool com" where
  "gmi_exec_step_cnt count = seq (mi_exec_step count) (\<lambda>_. mi_res_simple_running)"

definition gmi_exec_step_instruction :: "bool com" where
  "gmi_exec_step_instruction = seq mi_exec_step_instruction (\<lambda>_. mi_res_simple_running)"

definition gmi_exec_until :: "string option \<Rightarrow> int \<Rightarrow> bool com" where
  "gmi_exec_until file ln = seq (mi_exec_until file ln) (\<lambda>_. mi_res_simple_running)"

definition gmi_exec_until_addr :: "64 word \<Rightarrow> bool com" where
  "gmi_exec_until_addr addr = seq (mi_exec_until_addr addr) (\<lambda>_. mi_res_simple_running)"

definition gmi_exec_return :: "mi_frame option com" where
  "gmi_exec_return = seq mi_exec_return (\<lambda>_. mi_res_frame)"

definition gmi_exec_kill :: "bool com" where
  "gmi_exec_kill = seq mi_exec_kill (\<lambda>_. mi_res_simple_done)"

section \<open>Breakpoints\<close>

definition mi_break_insert_fl :: "string \<Rightarrow> int \<Rightarrow> unit com" where
  "mi_break_insert_fl file ln = cmd (''-break-insert '' @ file @ '':'' @ dec ln)"

definition opt_flag :: "bool \<Rightarrow> string \<Rightarrow> string" where
  "opt_flag b s = (if b then s else [])"

text \<open>The condition goes between quotes here, and without quotes in \<open>mi_break_insert_flf\<close>.\<close>

definition mi_break_insert ::
    "bool \<Rightarrow> bool \<Rightarrow> string option \<Rightarrow> int \<Rightarrow> int \<Rightarrow> string \<Rightarrow> unit com" where
  "mi_break_insert temporary hard_assist cnd count thread where_to =
     (let s_count = dec count; s_thread = dec thread in
      case cnd of
        Some c \<Rightarrow> cmd (''-break-insert '' @ opt_flag temporary ''-t'' @ '' '' @ opt_flag hard_assist ''-h'' @
          '' -c '' @ in_quotes c @ '' '' @ opt_flag (0 \<le> count) ''-i'' @ '' '' @ opt_flag (0 \<le> count) s_count @
          '' '' @ opt_flag (0 \<le> thread) ''-p'' @ '' '' @ opt_flag (0 \<le> thread) s_thread @ '' '' @ where_to)
      | None \<Rightarrow> cmd (''-break-insert '' @ opt_flag temporary ''-t'' @ '' '' @ opt_flag hard_assist ''-h'' @
          '' '' @ opt_flag (0 \<le> count) ''-i'' @ '' '' @ opt_flag (0 \<le> count) s_count @
          '' '' @ opt_flag (0 \<le> thread) ''-p'' @ '' '' @ opt_flag (0 \<le> thread) s_thread @ '' '' @ where_to))"

definition mi_break_insert_flf ::
    "string \<Rightarrow> int \<Rightarrow> bool \<Rightarrow> bool \<Rightarrow> string option \<Rightarrow> int \<Rightarrow> int \<Rightarrow> unit com" where
  "mi_break_insert_flf file ln temporary hard_assist cnd count thread =
     cmd (''-break-insert '' @ opt_flag temporary ''-t'' @ '' '' @ opt_flag hard_assist ''-h'' @ '' '' @
       opt_flag (cnd \<noteq> None) ''-c'' @ '' '' @ (case cnd of Some c \<Rightarrow> c | None \<Rightarrow> []) @ '' '' @
       opt_flag (0 \<le> count) ''-i'' @ '' '' @ opt_flag (0 \<le> count) (dec count) @ '' '' @
       opt_flag (0 \<le> thread) ''-p'' @ '' '' @ opt_flag (0 \<le> thread) (dec thread) @ '' '' @
       file @ '':'' @ dec ln)"

definition mi_break_delete :: "int \<Rightarrow> unit com" where
  "mi_break_delete number = cmd (''-break-delete '' @ dec number)"

definition mi_break_after :: "int \<Rightarrow> int \<Rightarrow> unit com" where
  "mi_break_after number count = cmd (''-break-after '' @ dec number @ '' '' @ dec count)"

definition mi_break_condition :: "int \<Rightarrow> string \<Rightarrow> unit com" where
  "mi_break_condition number condition = cmd (''-break-condition '' @ dec number @ '' '' @ condition)"

definition mi_break_enable :: "int \<Rightarrow> unit com" where
  "mi_break_enable number = cmd (''-break-enable '' @ dec number)"

definition mi_break_disable :: "int \<Rightarrow> unit com" where
  "mi_break_disable number = cmd (''-break-disable '' @ dec number)"

definition mi_break_watch :: "mi_wp_mode \<Rightarrow> string \<Rightarrow> unit com" where
  "mi_break_watch mode exp =
     (if mode = wm_write then cmd (''-break-watch '' @ in_quotes exp)
      else cmd (''-break-watch -'' @ (if mode = wm_rw then ''a'' else ''r'') @ '' '' @ in_quotes exp))"

definition mi_break_list :: "unit com" where
  "mi_break_list = cmd ''-break-list''"

definition gmi_break_list :: "mi_results option com" where
  "gmi_break_list = seq mi_break_list (\<lambda>_. mi_res_done_var ''BreakpointTable'')"

definition gmi_break_insert :: "string \<Rightarrow> int \<Rightarrow> mi_bkpt option com" where
  "gmi_break_insert file ln = seq (mi_break_insert_fl file ln) (\<lambda>_. mi_res_bkpt)"

definition gmi_break_insert_full ::
    "bool \<Rightarrow> bool \<Rightarrow> string option \<Rightarrow> int \<Rightarrow> int \<Rightarrow> string \<Rightarrow> mi_bkpt option com" where
  "gmi_break_insert_full temporary hard_assist cnd count thread where_to =
     seq (mi_break_insert temporary hard_assist cnd count thread where_to) (\<lambda>_. mi_res_bkpt)"

definition gmi_break_insert_full_fl ::
    "string \<Rightarrow> int \<Rightarrow> bool \<Rightarrow> bool \<Rightarrow> string option \<Rightarrow> int \<Rightarrow> int \<Rightarrow> mi_bkpt option com" where
  "gmi_break_insert_full_fl file ln temporary hard_assist cnd count thread =
     seq (mi_break_insert_flf file ln temporary hard_assist cnd count thread) (\<lambda>_. mi_res_bkpt)"

definition gmi_break_delete :: "int \<Rightarrow> bool com" where
  "gmi_break_delete number = seq (mi_break_delete number) (\<lambda>_. mi_res_simple_done)"

definition gmi_break_set_times :: "int \<Rightarrow> int \<Rightarrow> bool com" where
  "gmi_break_set_times number count = seq (mi_break_after number count) (\<lambda>_. mi_res_simple_done)"

definition gmi_break_set_condition :: "int \<Rightarrow> string \<Rightarrow> bool com" where
  "gmi_break_set_condition number condition =
     seq (mi_break_condition number condition) (\<lambda>_. mi_res_simple_done)"

definition gmi_break_state :: "int \<Rightarrow> bool \<Rightarrow> bool com" where
  "gmi_break_state number enable =
     seq (if enable then mi_break_enable number else mi_break_disable number) (\<lambda>_. mi_res_simple_done)"

definition gmi_break_watch :: "mi_wp_mode \<Rightarrow> string \<Rightarrow> mi_wp option com" where
  "gmi_break_watch mode exp = seq (mi_break_watch mode exp) (\<lambda>_. mi_res_wp)"

section \<open>Stack\<close>

definition mi_stack_list_frames :: "int \<Rightarrow> int \<Rightarrow> unit com" where
  "mi_stack_list_frames fr to = (if fr < 0 then cmd ''-stack-list-frames''
     else cmd (''-stack-list-frames '' @ dec fr @ '' '' @ dec to))"

definition mi_stack_list_arguments :: "int \<Rightarrow> int \<Rightarrow> int \<Rightarrow> unit com" where
  "mi_stack_list_arguments shw fr to = (if fr < 0 then cmd (''-stack-list-arguments '' @ dec shw)
     else cmd (''-stack-list-arguments '' @ dec shw @ '' '' @ dec fr @ '' '' @ dec to))"

definition mi_stack_info_frame :: "unit com" where
  "mi_stack_info_frame = cmd ''frame''"

definition mi_stack_info_depth :: "int \<Rightarrow> unit com" where
  "mi_stack_info_depth depth = (if depth < 0 then cmd ''-stack-info-depth''
     else cmd (''-stack-info-depth '' @ dec depth))"

definition mi_stack_select_frame :: "int \<Rightarrow> unit com" where
  "mi_stack_select_frame framenum = cmd (''-stack-select-frame '' @ dec framenum)"

definition mi_stack_list_locals :: "int \<Rightarrow> unit com" where
  "mi_stack_list_locals shw = cmd (''-stack-list-locals '' @ dec shw)"

definition gmi_stack_list_frames :: "mi_frame list com" where
  "gmi_stack_list_frames = seq (mi_stack_list_frames (- 1) (- 1)) (\<lambda>_. mi_res_frames_array ''stack'')"

definition gmi_stack_list_frames_r :: "int \<Rightarrow> int \<Rightarrow> mi_frame list com" where
  "gmi_stack_list_frames_r fr to = seq (mi_stack_list_frames fr to) (\<lambda>_. mi_res_frames_array ''stack'')"

definition gmi_stack_list_arguments :: "int \<Rightarrow> mi_frame list com" where
  "gmi_stack_list_arguments shw =
     seq (mi_stack_list_arguments shw (- 1) (- 1)) (\<lambda>_. mi_res_frames_array ''stack-args'')"

definition gmi_stack_list_arguments_r :: "int \<Rightarrow> int \<Rightarrow> int \<Rightarrow> mi_frame list com" where
  "gmi_stack_list_arguments_r shw fr to =
     seq (mi_stack_list_arguments shw fr to) (\<lambda>_. mi_res_frames_array ''stack-args'')"

definition gmi_stack_info_frame :: "mi_frame option com" where
  "gmi_stack_info_frame = seq mi_stack_info_frame (\<lambda>_. mi_res_frame)"

text \<open>The answer is released only when it is a constant.\<close>

definition gmi_stack_info_depth :: "int \<Rightarrow> int com" where
  "gmi_stack_info_depth max_depth = seq (mi_stack_info_depth max_depth) (\<lambda>_.
     seq (mi_res_done_var ''depth'') (\<lambda>r. case r of
         None \<Rightarrow> ret (- 1)
       | Some x \<Rightarrow> if r_type x = t_const
           then seq (pure_run (c_str x)) (\<lambda>s. seq (heap (mi_free_results [x])) (\<lambda>_. ret (atoi s)))
           else ret (- 1)))"

definition gmi_stack_info_depth_get :: "int com" where
  "gmi_stack_info_depth_get = gmi_stack_info_depth (- 1)"

definition gmi_stack_select_frame :: "int \<Rightarrow> bool com" where
  "gmi_stack_select_frame framenum = seq (mi_stack_select_frame framenum) (\<lambda>_. mi_res_simple_done)"

definition gmi_stack_list_locals :: "int \<Rightarrow> mi_results option com" where
  "gmi_stack_list_locals shw = seq (mi_stack_list_locals shw) (\<lambda>_. mi_res_done_var ''locals'')"

section \<open>Target, threads and gdb itself\<close>

definition mi_target_select :: "string \<Rightarrow> string \<Rightarrow> unit com" where
  "mi_target_select type params = cmd (''-target-select '' @ type @ '' '' @ params)"

definition mi_target_attach :: "int \<Rightarrow> unit com" where
  "mi_target_attach p = cmd (''attach '' @ dec p)"

definition mi_target_detach :: "unit com" where
  "mi_target_detach = cmd ''-target-detach''"

definition mi_target_download :: "unit com" where
  "mi_target_download = cmd ''-target-download''"

definition gmi_target_select :: "string \<Rightarrow> string \<Rightarrow> bool com" where
  "gmi_target_select type params = seq (mi_target_select type params) (\<lambda>_.
     seq mi_res_simple_connected (\<lambda>ok.
     if \<not> ok then ret False else seq mi_send_target_commands (\<lambda>_. ret True)))"

definition gmi_target_attach :: "int \<Rightarrow> mi_frame option com" where
  "gmi_target_attach p = seq (mi_target_attach p) (\<lambda>_. mi_res_frame)"

definition gmi_target_detach :: "bool com" where
  "gmi_target_detach = seq mi_target_detach (\<lambda>_. mi_res_simple_done)"

definition gmi_target_download :: "bool com" where
  "gmi_target_download = seq mi_target_download (\<lambda>_. mi_res_simple_done)"

definition mi_thread_list_ids :: "unit com" where
  "mi_thread_list_ids = cmd ''-thread-list-ids''"

definition mi_thread_select :: "int \<Rightarrow> unit com" where
  "mi_thread_select tid = cmd (''-thread-select '' @ dec tid)"

definition mi_thread_list_all_threads :: "unit com" where
  "mi_thread_list_all_threads = cmd ''info threads''"

definition gmi_thread_list_ids :: "(int \<times> int list option) com" where
  "gmi_thread_list_ids = seq mi_thread_list_ids (\<lambda>_. mi_res_thread_ids)"

definition gmi_thread_select :: "int \<Rightarrow> mi_frame option com" where
  "gmi_thread_select tid = seq (mi_thread_select tid) (\<lambda>_. mi_res_frame)"

definition gmi_thread_list_all_threads :: "mi_frame list com" where
  "gmi_thread_list_all_threads = seq mi_thread_list_all_threads (\<lambda>_. mi_res_frames_list)"

definition mi_gdb_exit :: "unit com" where
  "mi_gdb_exit = cmd ''-gdb-exit''"

definition mi_gdb_version :: "unit com" where
  "mi_gdb_version = cmd ''-gdb-version''"

definition mi_gdb_set :: "string \<Rightarrow> string \<Rightarrow> unit com" where
  "mi_gdb_set var val = cmd (''-gdb-set '' @ var @ '' '' @ val)"

definition mi_gdb_show :: "string \<Rightarrow> unit com" where
  "mi_gdb_show var = (if var = ''architecture'' then cmd (''show '' @ var) else cmd (''-gdb-show '' @ var))"

definition gmi_gdb_exit :: "unit com" where
  "gmi_gdb_exit = seq mi_gdb_exit (\<lambda>_. seq mi_res_simple_exit (\<lambda>_. ret ()))"

definition gmi_gdb_version :: "bool com" where
  "gmi_gdb_version = seq mi_gdb_version (\<lambda>_. mi_res_simple_done)"

definition gmi_gdb_set :: "string \<Rightarrow> string \<Rightarrow> bool com" where
  "gmi_gdb_set var val = seq (mi_gdb_set var val) (\<lambda>_. mi_res_simple_done)"

definition gmi_gdb_show :: "string \<Rightarrow> string option com" where
  "gmi_gdb_show var = seq (mi_gdb_show var) (\<lambda>_. mi_res_value)"

section \<open>Data\<close>

definition mi_data_evaluate_expression :: "string \<Rightarrow> unit com" where
  "mi_data_evaluate_expression expression = cmd (''-data-evaluate-expression '' @ in_quotes expression)"

definition mi_dir :: "string option \<Rightarrow> unit com" where
  "mi_dir path = seq (ask c_h) (\<lambda>h.
     if MI_VERSION2U 2 0 0 \<le> version h
     then (case path of
             Some p \<Rightarrow> cmd (''-environment-directory '' @ in_quotes p)
           | None \<Rightarrow> cmd ''-environment-directory -r'')
     else cmd (''-environment-directory '' @ (case path of Some p \<Rightarrow> p | None \<Rightarrow> [])))"

text \<open>The sizes are unsigned and printed with \<open>%d\<close>.\<close>

definition mi_data_read_memory_hx :: "string \<Rightarrow> 32 word \<Rightarrow> 32 word \<Rightarrow> bool \<Rightarrow> unit com" where
  "mi_data_read_memory_hx exp ws c convAddr =
     cmd (''-data-read-memory '' @ in_quotes ((if convAddr then ''&'' else []) @ exp) @ '' x '' @ dec (sint ws) @
       '' 1 '' @ dec (sint c))"

definition mi_data_disassemble_se :: "string \<Rightarrow> string \<Rightarrow> int \<Rightarrow> unit com" where
  "mi_data_disassemble_se start stop mode =
     cmd (''-data-disassemble -s '' @ in_quotes start @ '' -e '' @ in_quotes stop @ '' -- '' @ dec mode)"

definition mi_data_disassemble_fl :: "string \<Rightarrow> int \<Rightarrow> int \<Rightarrow> int \<Rightarrow> unit com" where
  "mi_data_disassemble_fl file ln lns mode =
     cmd (''-data-disassemble -f '' @ in_quotes file @ '' -l '' @ dec ln @ '' -n '' @ dec lns @ '' -- '' @ dec mode)"

definition mi_data_list_register_names :: "unit com" where
  "mi_data_list_register_names = cmd ''-data-list-register-names''"

fun send_regs :: "mi_chg_reg list \<Rightarrow> unit com" where
  "send_regs [] = cmd []"
| "send_regs (l # ls) = seq (piece (dec (rg_reg l) @ '' '')) (\<lambda>_. send_regs ls)"

definition mi_data_list_register_names_l :: "mi_chg_reg list \<Rightarrow> unit com" where
  "mi_data_list_register_names_l l = seq (piece ''-data-list-register-names '') (\<lambda>_. send_regs l)"

definition mi_data_list_changed_registers :: "unit com" where
  "mi_data_list_changed_registers = cmd ''-data-list-changed-registers''"

definition mi_data_list_register_values :: "mi_gvar_fmt \<Rightarrow> mi_chg_reg list \<Rightarrow> unit com" where
  "mi_data_list_register_values fmt l =
     seq (piece (''-data-list-register-values '' @ [mi_format_enum_to_char fmt] @ '' '')) (\<lambda>_. send_regs l)"

definition gmi_data_evaluate_expression :: "string \<Rightarrow> string option com" where
  "gmi_data_evaluate_expression expression = seq (mi_data_evaluate_expression expression) (\<lambda>_. mi_res_value)"

definition gmi_dir :: "string option \<Rightarrow> bool com" where
  "gmi_dir path = seq (mi_dir path) (\<lambda>_. mi_res_simple_done)"

definition gmi_read_memory :: "string \<Rightarrow> 32 word \<Rightarrow> 8 word list \<Rightarrow> bool \<Rightarrow> bool \<Rightarrow> (bool \<times> mem_state) com" where
  "gmi_read_memory exp sz dest convAddr want =
     seq (mi_data_read_memory_hx exp 1 sz convAddr) (\<lambda>_. mi_get_read_memory dest 1 want)"

definition gmi_data_disassemble_se :: "string \<Rightarrow> string \<Rightarrow> int \<Rightarrow> mi_asm_insns list com" where
  "gmi_data_disassemble_se start stop mode = seq (mi_data_disassemble_se start stop mode) (\<lambda>_. mi_get_asm_insns)"

definition gmi_data_disassemble_fl :: "string \<Rightarrow> int \<Rightarrow> int \<Rightarrow> int \<Rightarrow> mi_asm_insns list com" where
  "gmi_data_disassemble_fl file ln lns mode =
     seq (mi_data_disassemble_fl file ln lns mode) (\<lambda>_. mi_get_asm_insns)"

definition gmi_data_list_register_names :: "mi_chg_reg list com" where
  "gmi_data_list_register_names = seq mi_data_list_register_names (\<lambda>_. mi_get_list_registers)"

definition gmi_data_list_register_names_l :: "mi_chg_reg list \<Rightarrow> (bool \<times> mi_chg_reg list) com" where
  "gmi_data_list_register_names_l l = seq (mi_data_list_register_names_l l) (\<lambda>_. mi_get_list_registers_l l)"

definition gmi_data_list_changed_registers :: "mi_chg_reg list com" where
  "gmi_data_list_changed_registers = seq (set_error MI_OK) (\<lambda>_.
     seq mi_data_list_changed_registers (\<lambda>_. mi_get_list_changed_regs))"

definition gmi_data_list_register_values ::
    "mi_gvar_fmt \<Rightarrow> mi_chg_reg list \<Rightarrow> (bool \<times> mi_chg_reg list) com" where
  "gmi_data_list_register_values fmt l = seq (mi_data_list_register_values fmt l) (\<lambda>_. mi_get_reg_values l)"

definition gmi_data_list_all_register_values :: "mi_gvar_fmt \<Rightarrow> (mi_chg_reg list \<times> int) com" where
  "gmi_data_list_all_register_values fmt = seq (mi_data_list_register_values fmt []) (\<lambda>_. mi_get_reg_values_l)"

section \<open>Variable objects\<close>

definition mi_var_create :: "string option \<Rightarrow> int \<Rightarrow> string \<Rightarrow> unit com" where
  "mi_var_create name frame exp =
     (let n = (case name of Some s \<Rightarrow> s | None \<Rightarrow> ''-'') in
      if frame < 0 then cmd (''-var-create '' @ n @ '' * '' @ exp)
      else cmd (''-var-create '' @ n @ '' '' @ dec frame @ '' '' @ exp))"

definition mi_var_delete :: "string option \<Rightarrow> unit com" where
  "mi_var_delete name = with_name name (\<lambda>n. cmd (''-var-delete '' @ n))"

definition mi_var_set_format :: "string option \<Rightarrow> string \<Rightarrow> unit com" where
  "mi_var_set_format name format = with_name name (\<lambda>n. cmd (''-var-set-format '' @ in_quotes n @ '' '' @ format))"

definition mi_var_show_format :: "string option \<Rightarrow> unit com" where
  "mi_var_show_format name = with_name name (\<lambda>n. cmd (''-var-show-format '' @ in_quotes n))"

definition mi_var_info_num_children :: "string option \<Rightarrow> unit com" where
  "mi_var_info_num_children name = with_name name (\<lambda>n. cmd (''-var-info-num-children '' @ in_quotes n))"

definition mi_var_info_type :: "string option \<Rightarrow> unit com" where
  "mi_var_info_type name = with_name name (\<lambda>n. cmd (''-var-info-type '' @ in_quotes n))"

definition mi_var_info_expression :: "string option \<Rightarrow> unit com" where
  "mi_var_info_expression name = with_name name (\<lambda>n. cmd (''-var-info-expression '' @ in_quotes n))"

definition mi_var_show_attributes :: "string option \<Rightarrow> unit com" where
  "mi_var_show_attributes name = with_name name (\<lambda>n. cmd (''-var-show-attributes '' @ in_quotes n))"

definition mi_var_update :: "string option \<Rightarrow> unit com" where
  "mi_var_update name = (case name of Some n \<Rightarrow> cmd (''-var-update '' @ n) | None \<Rightarrow> cmd ''-var-update *'')"

definition mi_var_assign :: "string option \<Rightarrow> string \<Rightarrow> unit com" where
  "mi_var_assign name expression =
     with_name name (\<lambda>n. cmd (''-var-assign '' @ in_quotes n @ '' '' @ in_quotes expression))"

definition mi_var_evaluate_expression :: "string option \<Rightarrow> unit com" where
  "mi_var_evaluate_expression name = with_name name (\<lambda>n. cmd (''-var-evaluate-expression '' @ in_quotes n))"

definition mi_var_list_children :: "string option \<Rightarrow> unit com" where
  "mi_var_list_children name = seq (ask c_h) (\<lambda>h.
     if MI_VERSION2U 2 0 0 \<le> version h
     then with_name name (\<lambda>n. cmd (''-var-list-children --all-values '' @ in_quotes n))
     else with_name name (\<lambda>n. cmd (''-var-list-children '' @ in_quotes n)))"

definition gmi_var_create_nm :: "string option \<Rightarrow> int \<Rightarrow> string \<Rightarrow> mi_gvar option com" where
  "gmi_var_create_nm name frame exp = seq (mi_var_create name frame exp) (\<lambda>_. mi_res_gvar None (Some exp))"

definition gmi_var_create :: "int \<Rightarrow> string \<Rightarrow> mi_gvar option com" where
  "gmi_var_create frame exp = gmi_var_create_nm None frame exp"

abbreviation var_name :: "mi_gvar \<Rightarrow> string option" where
  "var_name v \<equiv> gv_name (gv_own v)"

definition gmi_var_delete :: "mi_gvar \<Rightarrow> bool com" where
  "gmi_var_delete var = seq (mi_var_delete (var_name var)) (\<lambda>_. mi_res_simple_done)"

definition set_own :: "(gvar_fields \<Rightarrow> gvar_fields) \<Rightarrow> mi_gvar \<Rightarrow> mi_gvar" where
  "set_own f v = GVar (f (gv_own v)) (gv_child v)"

definition gmi_var_set_format :: "mi_gvar \<Rightarrow> mi_gvar_fmt \<Rightarrow> (bool \<times> mi_gvar) com" where
  "gmi_var_set_format var format =
     seq (mi_var_set_format (var_name var) (mi_format_enum_to_str format)) (\<lambda>_.
     seq mi_res_simple_done (\<lambda>r.
     ret (r, if r then set_own (\<lambda>g. g\<lparr>gv_format := format\<rparr>) var else var)))"

text \<open>\<open>mi_res_gvar(h, var, NULL) != NULL\<close>: the variable is updated in place when there is an answer.\<close>

definition refresh :: "mi_gvar \<Rightarrow> (bool \<times> mi_gvar) com" where
  "refresh var = seq (mi_res_gvar (Some var) None) (\<lambda>r. case r of
       None \<Rightarrow> ret (False, var) | Some v \<Rightarrow> ret (True, v))"

definition gmi_var_show_format :: "mi_gvar \<Rightarrow> (bool \<times> mi_gvar) com" where
  "gmi_var_show_format var = seq (mi_var_show_format (var_name var)) (\<lambda>_. refresh var)"

definition gmi_var_info_num_children :: "mi_gvar \<Rightarrow> (bool \<times> mi_gvar) com" where
  "gmi_var_info_num_children var = seq (mi_var_info_num_children (var_name var)) (\<lambda>_. refresh var)"

definition gmi_var_info_type :: "mi_gvar \<Rightarrow> (bool \<times> mi_gvar) com" where
  "gmi_var_info_type var = seq (mi_var_info_type (var_name var)) (\<lambda>_. refresh var)"

definition gmi_var_info_expression :: "mi_gvar \<Rightarrow> (bool \<times> mi_gvar) com" where
  "gmi_var_info_expression var = seq (mi_var_info_expression (var_name var)) (\<lambda>_. refresh var)"

definition gmi_var_show_attributes :: "mi_gvar \<Rightarrow> (bool \<times> mi_gvar) com" where
  "gmi_var_show_attributes var = seq (mi_var_show_attributes (var_name var)) (\<lambda>_. refresh var)"

definition gmi_full_var_create :: "int \<Rightarrow> string \<Rightarrow> mi_gvar option com" where
  "gmi_full_var_create frame exp = seq (gmi_var_create_nm None frame exp) (\<lambda>v. case v of
       None \<Rightarrow> ret None
     | Some var \<Rightarrow> seq (gmi_var_info_expression var) (\<lambda>(_, var1).
         seq (gmi_var_show_attributes var1) (\<lambda>(_, var2). ret (Some var2))))"

definition gmi_var_update :: "mi_gvar option \<Rightarrow> (int \<times> mi_gvar_chg list option) com" where
  "gmi_var_update var = seq (mi_var_update (case var of Some v \<Rightarrow> var_name v | None \<Rightarrow> None))
     (\<lambda>_. mi_res_changelist)"

text \<open>The value of the answer replaces the one the variable had.\<close>

definition take_value :: "mi_gvar \<Rightarrow> (bool \<times> mi_gvar) com" where
  "take_value var = seq mi_res_value (\<lambda>s. case s of
       None \<Rightarrow> ret (False, var)
     | Some t \<Rightarrow> seq (heap (c_free (gv_value (gv_own var)))) (\<lambda>_.
         ret (True, set_own (\<lambda>g. g\<lparr>gv_value := Some t\<rparr>) var)))"

definition gmi_var_assign :: "mi_gvar \<Rightarrow> string \<Rightarrow> (bool \<times> mi_gvar) com" where
  "gmi_var_assign var expression = seq (mi_var_assign (var_name var) expression) (\<lambda>_. take_value var)"

definition gmi_var_evaluate_expression :: "mi_gvar \<Rightarrow> (bool \<times> mi_gvar) com" where
  "gmi_var_evaluate_expression var = seq (mi_var_evaluate_expression (var_name var)) (\<lambda>_. take_value var)"

definition gmi_var_list_children :: "mi_gvar \<Rightarrow> (bool \<times> mi_gvar) com" where
  "gmi_var_list_children var = seq (mi_var_list_children (var_name var)) (\<lambda>_. mi_res_children var)"

section \<open>What a wait leaves alone\<close>

text \<open>A relation that every basic step of a wait keeps is kept by the whole wait.\<close>

locale across_wait = across +
  assumes R_handle: "R c (c\<lparr>c_h := h\<rparr>)" and R_world: "R c (c\<lparr>c_w := w\<rparr>)"
    and R_events: "R c (c\<lparr>events := es\<rparr>)" and R_message: "R c (c\<lparr>mi_error_from_gdb := m\<rparr>)"
    and R_waits: "R c (c\<lparr>waits := bs\<rparr>)" and R_reads: "R c (c\<lparr>reads := rs\<rparr>)"
    and R_selects: "R c (c\<lparr>selects := is\<rparr>)" and R_tm_rets: "R c (c\<lparr>tm_rets := is\<rparr>)"
begin

lemma holds_on_w: "holds (on_w l)"
  using R_world by (auto simp: holds_def on_w_def bnd_Inr_iff)

lemma basic: "holds (hand f)" "holds (heap k)" "holds (emit e)" "holds (set_msg m)" "holds wait_nohang"
    "holds mi_select"
  using R_refl R_handle R_world R_events R_message R_waits R_selects
  by (auto simp: holds_def hand_def heap_def emit_def set_msg_def wait_nohang_def mi_select_def split: list.splits)

lemma basic_line: "holds mi_getline"
proof -
  have "R c (c\<lparr>reads := rs, c_h := h, c_w := w\<rparr>)" for c rs h w
    by (rule R_trans [OF R_trans [OF R_reads R_handle] R_world])
  then show ?thesis by (auto simp: holds_def mi_getline_def bnd_Inr_iff)
qed

lemma basic_time: "holds call_time_out"
proof -
  have "R c (c\<lparr>events := es, tm_rets := rs\<rparr>)" for c es rs
    by (rule R_trans [OF R_events R_tm_rets])
  then show ?thesis
    using R_refl R_events by (auto simp: holds_def call_time_out_def Let_def split: option.splits list.splits)
qed

lemmas basics = holds_on_w basic basic_line basic_time

lemma holds_error: "holds (set_error n)"
  unfolding set_error_def by (rule basic)

lemma holds_stream: "holds (call_stream cb d s)"
  unfolding call_stream_def by (intro holds_intros basics)

lemma holds_record: "holds (mi_record r)"
  unfolding mi_record_def stream_line_def console_line_def async_line_def error_line_def
    add_record_def Let_def
  by (intro holds_intros basics holds_stream holds_error)

lemma holds_response: "holds mi_get_response"
  unfolding mi_get_response_def by (intro holds_intros basics holds_record)

lemma holds_running: "holds mi_check_running"
proof -
  have "holds (mi_check_running_pid p)" for p
    unfolding mi_check_running_pid_def by (intro holds_intros basics)
  then show ?thesis using R_refl by (auto simp: holds_def mi_check_running_def)
qed

lemma holds_turn: "holds blk_turn"
  unfolding blk_turn_def blk_idle_def set_died_def mi_retire_response_def
  by (intro holds_intros basics holds_response holds_running holds_error)

lemma holds_loop: "holds blk_loop"
proof -
  have "blk_loop c = Inr (l, c1) \<Longrightarrow> R c c1" for c l c1
  proof (induction c rule: blk_loop.induct)
    case (1 c)
    from "1.prems" obtain p c2 where t: "blk_turn c = Inr (p, c2)"
      by (simp add: blk_loop.simps [of c] split: sum.splits prod.splits)
    note turn = holdsD [OF holds_turn t]
    show ?case
    proof (cases p)
      case None
      with t "1.prems" have "blk_loop c2 = Inr (l, c1)" by (simp add: blk_loop.simps [of c])
      with None t have "R c2 c1" by (intro "1.IH") auto
      with turn show ?thesis by (rule R_trans)
    next
      case (Some rs)
      with t "1.prems" turn show ?thesis by (simp add: blk_loop.simps [of c])
    qed
  qed
  then show ?thesis by (auto simp: holds_def)
qed

lemma holds_blk: "holds mi_get_response_blk"
  unfolding mi_get_response_blk_def set_died_def
  by (intro holds_intros basics holds_running holds_loop holds_error)

end

definition same_sent :: "conn \<Rightarrow> conn \<Rightarrow> bool" where
  "same_sent c c1 \<longleftrightarrow> sent c1 = sent c \<and> c_g c1 = c_g c \<and> c_os c1 = c_os c"

interpretation mute: across same_sent
  by unfold_locales (simp_all add: same_sent_def)

interpretation mute: across_wait same_sent
  by unfold_locales (simp_all add: same_sent_def)

section \<open>Commands that are answered by a class alone\<close>

text \<open>What \<open>mi_send\<close> leaves behind when gdb has not died and memory is there.\<close>

definition after_send :: "string \<Rightarrow> conn \<Rightarrow> conn" where
  "after_send s c = c\<lparr>sent := sent c @ [s], events := events c @
     (case to_gdb_echo (c_h c) of None \<Rightarrow> [] | Some f \<Rightarrow> [Stream_call f (to_gdb_echo_data (c_h c)) (Some s)])\<rparr>"

lemma mi_send_run: "\<not> died (c_h c) \<Longrightarrow> oom (c_w c) = [] \<Longrightarrow>
    mi_send s c = Inr (int (length s), after_send s c)"
  by (auto simp: mi_send_def com_defs call_stream_def after_send_def c_free_live split: option.splits)

lemma mi_send_dead: "died (c_h c) \<Longrightarrow> mi_send s c = Inr (0, c)"
  by (simp add: mi_send_def com_defs)

lemma after_send_sel [simp]:
  "c_h (after_send s c) = c_h c" "reads (after_send s c) = reads c" "waits (after_send s c) = waits c"
  "selects (after_send s c) = selects c" "c_w (after_send s c) = c_w c" "sent (after_send s c) = sent c @ [s]"
  "tm_rets (after_send s c) = tm_rets c" "mi_error_from_gdb (after_send s c) = mi_error_from_gdb c"
  by (simp_all add: after_send_def)

lemma ready_after_send [simp]: "ready (after_send s c) = ready c"
  by (simp add: ready_def)

text \<open>A function that sends one line.\<close>

locale command =
  fixes low :: "unit com" and line_of :: "conn \<Rightarrow> string"
  assumes low_cmd: "low c = cmd (line_of c) c"
begin

lemma low_sends: "\<not> died (c_h c) \<Longrightarrow> oom (c_w c) = [] \<Longrightarrow> low c = Inr ((), after_send (line_of c @ [NEWLINE]) c)"
  by (simp add: low_cmd cmd_def seq_def mi_send_run ret_def)

lemma low_dead: "died (c_h c) \<Longrightarrow> low c = Inr ((), c)"
  by (simp add: low_cmd cmd_def seq_def mi_send_dead ret_def)

end

text \<open>A function that sends one line and returns whether the answer has a class.\<close>

locale simple_command = command +
  fixes high :: "bool com" and cls :: nat
  assumes high_low: "high = seq low (\<lambda>_. mi_res_simple cls)"
begin

lemma high_dead: "died (c_h c) \<Longrightarrow> \<exists>c1. high c = Inr (False, c1) \<and> sent c1 = sent c \<and>
    mi_error (c_w c1) = MI_GDB_DIED \<and> live (c_w c1) = live (c_w c)"
  by (simp add: high_low seq_def low_dead mi_res_simple_def mi_get_response_blk_def mi_check_running_def
      set_died_def com_defs mi_free_output_def)

lemma high_answer:
  assumes "\<not> died (c_h c)" and "oom (c_w c) = []"
    and "mi_get_response_blk (after_send (line_of c @ [NEWLINE]) c) = Inr (r, c1)"
  shows "high c = Inr (the_record r cls \<noteq> None, c1\<lparr>c_w := add_live (- blocks_os r) (c_w c1)\<rparr>)"
  using assms
  by (simp add: high_low seq_def low_sends mi_res_simple_def the_record_def heap_def ret_def Let_def
      mi_free_output_live split: option.splits)

end

text \<open>
  The table of these commands: the function, its low level part, the line it sends and the class it
  waits for. Only the two commands that load symbols look at the state.
\<close>

inductive simple_call :: "bool com \<Rightarrow> unit com \<Rightarrow> (conn \<Rightarrow> string) \<Rightarrow> nat \<Rightarrow> bool" where
  "simple_call gmi_exec_run mi_exec_run (\<lambda>_. ''-exec-run'') MI_CL_RUNNING"
| "simple_call gmi_exec_continue mi_exec_continue (\<lambda>_. ''-exec-continue'') MI_CL_RUNNING"
| "simple_call (gmi_target_terminal s) (mi_target_terminal s) (\<lambda>_. ''tty '' @ s) MI_CL_DONE"
| "simple_call (gmi_file_symbol_file s) (mi_file_symbol_file s)
     (\<lambda>c. (if disable_psym_search_workaround (c_g c) then ''-file-symbol-file '' else ''symbol-file -readnow '') @ s)
     MI_CL_DONE"
| "simple_call (gmi_set_exec s None) (mi_file_exec_and_symbols s)
     (\<lambda>c. (if disable_psym_search_workaround (c_g c) then ''-file-exec-and-symbols '' else ''file -readnow '') @ s)
     MI_CL_DONE"
| "simple_call gmi_exec_finish mi_exec_finish (\<lambda>_. ''-exec-finish'') MI_CL_RUNNING"
| "simple_call gmi_exec_next (mi_exec_next 1) (\<lambda>_. ''-exec-next'') MI_CL_RUNNING"
| "1 < n \<Longrightarrow> simple_call (gmi_exec_next_cnt n) (mi_exec_next n) (\<lambda>_. ''-exec-next '' @ dec n) MI_CL_RUNNING"
| "simple_call gmi_exec_next_instruction mi_exec_next_instruction (\<lambda>_. ''-exec-next-instruction'') MI_CL_RUNNING"
| "simple_call gmi_exec_step (mi_exec_step 1) (\<lambda>_. ''-exec-step'') MI_CL_RUNNING"
| "1 < n \<Longrightarrow> simple_call (gmi_exec_step_cnt n) (mi_exec_step n) (\<lambda>_. ''-exec-step '' @ dec n) MI_CL_RUNNING"
| "simple_call gmi_exec_step_instruction mi_exec_step_instruction (\<lambda>_. ''-exec-step-instruction'') MI_CL_RUNNING"
| "simple_call (gmi_exec_until None n) (mi_exec_until None n) (\<lambda>_. ''-exec-until'') MI_CL_RUNNING"
| "simple_call (gmi_exec_until (Some s) n) (mi_exec_until (Some s) n)
     (\<lambda>_. ''-exec-until '' @ s @ '':'' @ dec n) MI_CL_RUNNING"
| "simple_call (gmi_exec_until_addr a) (mi_exec_until_addr a) (\<lambda>_. ''-exec-until *'' @ ptr a) MI_CL_RUNNING"
| "simple_call gmi_exec_kill mi_exec_kill (\<lambda>_. ''kill'') MI_CL_DONE"
| "simple_call (gmi_break_delete n) (mi_break_delete n) (\<lambda>_. ''-break-delete '' @ dec n) MI_CL_DONE"
| "simple_call (gmi_break_set_times n m) (mi_break_after n m) (\<lambda>_. ''-break-after '' @ dec n @ '' '' @ dec m) MI_CL_DONE"
| "simple_call (gmi_break_set_condition n s) (mi_break_condition n s)
     (\<lambda>_. ''-break-condition '' @ dec n @ '' '' @ s) MI_CL_DONE"
| "simple_call (gmi_break_state n True) (mi_break_enable n) (\<lambda>_. ''-break-enable '' @ dec n) MI_CL_DONE"
| "simple_call (gmi_break_state n False) (mi_break_disable n) (\<lambda>_. ''-break-disable '' @ dec n) MI_CL_DONE"
| "simple_call (gmi_stack_select_frame n) (mi_stack_select_frame n) (\<lambda>_. ''-stack-select-frame '' @ dec n) MI_CL_DONE"
| "simple_call gmi_target_detach mi_target_detach (\<lambda>_. ''-target-detach'') MI_CL_DONE"
| "simple_call gmi_target_download mi_target_download (\<lambda>_. ''-target-download'') MI_CL_DONE"
| "simple_call gmi_gdb_version mi_gdb_version (\<lambda>_. ''-gdb-version'') MI_CL_DONE"
| "simple_call (gmi_gdb_set s t) (mi_gdb_set s t) (\<lambda>_. ''-gdb-set '' @ s @ '' '' @ t) MI_CL_DONE"
| "simple_call (gmi_dir None) (mi_dir None)
     (\<lambda>c. if MI_VERSION2U 2 0 0 \<le> version (c_h c) then ''-environment-directory -r'' else ''-environment-directory '')
     MI_CL_DONE"
| "simple_call (gmi_dir (Some s)) (mi_dir (Some s))
     (\<lambda>c. if MI_VERSION2U 2 0 0 \<le> version (c_h c) then ''-environment-directory '' @ in_quotes s
           else ''-environment-directory '' @ s) MI_CL_DONE"

inductive_cases simple_callE: "simple_call high low line_of cls"

lemmas res_simple_defs = mi_res_simple_done_def mi_res_simple_running_def mi_res_simple_connected_def
  mi_res_simple_exit_def

lemmas low_level_defs = mi_file_exec_and_symbols_def mi_exec_run_def mi_exec_continue_def mi_target_terminal_def
  mi_file_symbol_file_def mi_exec_finish_def mi_exec_next_def mi_exec_next_instruction_def mi_exec_step_def
  mi_exec_step_instruction_def mi_exec_until_def mi_exec_until_addr_def mi_exec_kill_def mi_break_delete_def
  mi_break_after_def mi_break_condition_def mi_break_enable_def mi_break_disable_def mi_stack_select_frame_def
  mi_target_detach_def mi_target_download_def mi_gdb_version_def mi_gdb_set_def mi_dir_def

lemmas high_level_defs = gmi_exec_run_def gmi_exec_continue_def gmi_target_terminal_def gmi_file_symbol_file_def
  gmi_exec_finish_def gmi_exec_next_def gmi_exec_next_cnt_def gmi_exec_next_instruction_def gmi_exec_step_def
  gmi_exec_step_cnt_def gmi_exec_step_instruction_def gmi_exec_until_def gmi_exec_until_addr_def gmi_exec_kill_def
  gmi_break_delete_def gmi_break_set_times_def gmi_break_set_condition_def gmi_break_state_def
  gmi_stack_select_frame_def gmi_target_detach_def gmi_target_download_def gmi_gdb_version_def gmi_gdb_set_def
  gmi_dir_def

lemma seq_ask: "seq (ask f) k = (\<lambda>c. k (f c) c)"
  by (rule ext) (simp add: seq_def ask_def)

lemma seq_bool: "seq m (\<lambda>ok. if \<not> ok then ret False else ret True) = m"
  by (rule ext) (auto simp: seq_def ret_def bnd_def split: sum.splits)

lemma set_exec_simple: "gmi_set_exec s None = seq (mi_file_exec_and_symbols s) (\<lambda>_. mi_res_simple MI_CL_DONE)"
  unfolding gmi_set_exec_def option.case seq_bool mi_res_simple_done_def ..

lemma simple_call_command: "simple_call high low line_of cls \<Longrightarrow> simple_command low line_of high cls"
  by (induction rule: simple_call.induct; unfold_locales)
    (simp_all add: low_level_defs high_level_defs res_simple_defs set_exec_simple seq_ask getg_def
      mi_get_workaround_def MI_PSYM_SEARCH_def split: option.splits)

interpretation exec_run: simple_command mi_exec_run "\<lambda>_. ''-exec-run''" gmi_exec_run MI_CL_RUNNING
  by (intro simple_call_command simple_call.intros)

interpretation break_delete: simple_command "mi_break_delete n" "\<lambda>_. ''-break-delete '' @ dec n"
    "gmi_break_delete n" MI_CL_DONE for n
  by (intro simple_call_command simple_call.intros)

text \<open>The class of the first result record of an answer.\<close>

definition result_class :: "mi_output list \<Rightarrow> nat option" where
  "result_class rs = (case filter (\<lambda>r. o_type r = MI_T_RESULT_RECORD) rs of
       [] \<Rightarrow> None | r # _ \<Rightarrow> Some (o_tclass r))"

lemma the_record_class: "(the_record rs cls \<noteq> None) = (result_class rs = Some cls)"
proof (induction rs)
  case (Cons r rs)
  then show ?case
    by (auto simp: the_record_def result_class_def split: option.splits list.splits if_splits)
qed (simp add: the_record_def result_class_def)

lemma result_class_filter: "result_class (filter (\<lambda>r. \<not> is_stream r) rs) = result_class rs"
proof -
  have "filter (\<lambda>r. o_type r = MI_T_RESULT_RECORD) (filter (\<lambda>r. \<not> is_stream r) rs) =
      filter (\<lambda>r. o_type r = MI_T_RESULT_RECORD) rs"
    by (induction rs) (auto simp: is_stream_def record_codes)
  then show ?thesis by (simp add: result_class_def)
qed


definition running_answer :: "mi_output list" where
  "running_answer = [\<lparr>o_type = 1, o_stype = 0, o_sstype = 0, o_tclass = 3, o_c = []\<rparr>]"


text \<open>
  Once gdb has died every one of these commands fails in the same way: it returns false, sends
  nothing, waits for nothing and leaves the heap as it was, and \<open>mi_error\<close> says that gdb died.
\<close>

theorem simple_call_dead:
  assumes "simple_call high low line_of cls" and "died (c_h c)"
  shows "\<exists>c1. high c = Inr (False, c1) \<and> sent c1 = sent c \<and>
    mi_error (c_w c1) = MI_GDB_DIED \<and> live (c_w c1) = live (c_w c)"
  using simple_command.high_dead [OF simple_call_command [OF assms(1)] assms(2)] .

theorem simple_call_dead_witness:
  "\<exists>c1. gmi_exec_kill ((started (fresh_h\<lparr>died := True\<rparr>) [] [])) = Inr (False, c1) \<and> sent c1 = [] \<and>
     mi_error (c_w c1) = MI_GDB_DIED"
  using simple_call_dead [of gmi_exec_kill mi_exec_kill "\<lambda>_. ''kill''" MI_CL_DONE
      "started (fresh_h\<lparr>died := True\<rparr>) [] []"]
  by (auto simp: started_def intro: simple_call.intros)

section \<open>Numbers and versions in commands\<close>

text \<open>
  Addresses and numbers survive the text of a command. The address \<open>gmi_exec_until_addr\<close> sends
  reads back, by the reading the library itself applies to addresses, as the address it was given,
  NULL included; a breakpoint number reads back by \<open>atoi\<close> over the whole range of \<open>int\<close>. Neither text
  can end the line early.
\<close>

theorem command_numbers:
  assumes "\<not> died (c_h c)" and "oom (c_w c) = []" and "- (2 ^ 31) \<le> n" and "n < 2 ^ 31"
  shows "\<exists>t d. mi_exec_until_addr a c = Inr ((), after_send (''-exec-until *'' @ t @ [NEWLINE]) c) \<and>
    strtoul0 t = a \<and> NEWLINE \<notin> set t \<and>
    mi_break_delete n c = Inr ((), after_send (''-break-delete '' @ d @ [NEWLINE]) c) \<and>
    atoi d = n \<and> NEWLINE \<notin> set d"
proof -
  have "mi_exec_until_addr a c = Inr ((), after_send ((''-exec-until *'' @ ptr a) @ [NEWLINE]) c)"
      "mi_break_delete n c = Inr ((), after_send ((''-break-delete '' @ dec n) @ [NEWLINE]) c)"
    using assms(1,2) by (simp_all add: mi_exec_until_addr_def mi_break_delete_def cmd_def seq_def mi_send_run ret_def)
  then show ?thesis
    using strtoul0_ptr [of a] atoi_dec [OF assms(3,4)] ptr_clean dec_clean
    by (intro exI [of _ "ptr a"] exI [of _ "dec n"]) simp
qed

theorem command_numbers_witness:
  "\<exists>t d. mi_exec_until_addr 0x8048000 (started fresh_h [] []) =
      Inr ((), after_send (''-exec-until *'' @ t @ [NEWLINE]) (started fresh_h [] [])) \<and> strtoul0 t = 0x8048000 \<and>
    mi_break_delete (- 5) (started fresh_h [] []) =
      Inr ((), after_send (''-break-delete '' @ d @ [NEWLINE]) (started fresh_h [] [])) \<and> atoi d = - 5"
  using command_numbers [of "started fresh_h [] []" "- 5" "0x8048000"]
  by (auto simp: started_def fresh_h_def)

lemma version_nat:
  assumes "unat mid < 256" and "unat mnr < 65536" and "unat maj < 256"
  shows "unat (MI_VERSION2U maj mid mnr) = unat maj * 0x1000000 + unat mid * 0x10000 + unat mnr"
proof -
  have "unat maj * 0x1000000 + unat mid * 0x10000 + unat mnr < 2 ^ 32" using assms by simp
  moreover have "unat (MI_VERSION2U maj mid mnr) =
      (unat maj * 0x1000000 + unat mid * 0x10000 + unat mnr) mod 2 ^ 32"
    unfolding MI_VERSION2U_def
    by (simp add: unat_word_ariths unat_numeral mod_simps)
  ultimately show ?thesis by simp
qed

text \<open>
  The commands that exist in two dialects follow the version the application forced: for
  version numbers that fit their fields, the form of MI version 2 is used exactly when the major
  number is at least 2, for the directory command as for the list of children.
\<close>

theorem version_selects:
  assumes "unat maj < 256" and "unat mid < 256" and "unat mnr < 65536"
    and "\<not> died (c_h c)" and "oom (c_w c) = []"
  shows "\<exists>c1. mi_force_version maj mid mnr c = Inr ((), c1) \<and>
    mi_dir (Some p) c1 = Inr ((), after_send
      (''-environment-directory '' @ (if 2 \<le> maj then in_quotes p else p) @ [NEWLINE]) c1) \<and>
    mi_var_list_children (Some n) c1 = Inr ((), after_send
      (''-var-list-children '' @ (if 2 \<le> maj then ''--all-values '' else []) @ in_quotes n @ [NEWLINE]) c1)"
proof -
  let ?c = "c\<lparr>c_h := (c_h c)\<lparr>version := MI_VERSION2U maj mid mnr\<rparr>\<rparr>"
  have "unat (MI_VERSION2U 2 0 0) = 0x2000000" by (simp add: MI_VERSION2U_def)
  then have v: "(MI_VERSION2U 2 0 0 \<le> MI_VERSION2U maj mid mnr) = (2 \<le> maj)"
    using version_nat [OF assms(2,3,1)] assms(1-3) by (auto simp: word_le_nat_alt)
  have "mi_force_version maj mid mnr c = Inr ((), ?c)" by (simp add: mi_force_version_def hand_def)
  moreover have "mi_dir (Some p) ?c = Inr ((), after_send
      (''-environment-directory '' @ (if 2 \<le> maj then in_quotes p else p) @ [NEWLINE]) ?c)"
    using assms(4,5) by (simp add: mi_dir_def seq_ask v cmd_def seq_def mi_send_run ret_def)
  moreover have "mi_var_list_children (Some n) ?c = Inr ((), after_send
      (''-var-list-children '' @ (if 2 \<le> maj then ''--all-values '' else []) @ in_quotes n @ [NEWLINE]) ?c)"
    using assms(4,5) by (simp add: mi_var_list_children_def with_name_def seq_ask v cmd_def seq_def mi_send_run ret_def)
  ultimately show ?thesis by blast
qed

theorem version_selects_witness:
  "\<exists>c1. mi_force_version 1 255 9 (started fresh_h [] []) = Inr ((), c1) \<and>
     mi_dir (Some ''src'') c1 = Inr ((), after_send (''-environment-directory src'' @ [NEWLINE]) c1)"
proof -
  have "\<not> (2 \<le> (1::32 word))" by (simp add: word_le_nat_alt)
  then show ?thesis
    using version_selects [of 1 255 9 "started fresh_h [] []" "''src''" "[]"]
    by (auto simp: started_def fresh_h_def)
qed

section \<open>Values of variables\<close>

definition value_record :: "string \<Rightarrow> mi_output" where
  "value_record v = \<lparr>o_type = MI_T_RESULT_RECORD, o_stype = 0, o_sstype = 0, o_tclass = MI_CL_DONE,
     o_c = [MiRes (Some ''value'') (VConst (Some v))]\<rparr>"

lemma res_value_run:
  assumes "mi_get_response_blk c = Inr ([value_record v], c1)" and "record_ok (value_record v)"
  shows "mi_res_value c = Inr (Some v, c1\<lparr>c_w := add_live (- 3) (c_w c1)\<rparr>)"
proof -
  have "list_all record_ok [value_record v]" using assms(2) by simp
  moreover have "lookup [value_record v] MI_CL_DONE ''value'' = Some (MiRes (Some ''value'') (VConst (Some v)))"
    by (simp add: lookup_def the_record_def value_record_def)
  moreover have "blocks_os [value_record v] = 4" by (simp add: value_record_def blocks_o_def)
  ultimately have "mi_res_done_var ''value'' c =
      Inr (Some (MiRes (Some ''value'') (VConst (Some v))), c1\<lparr>c_w := add_live (- 1) (c_w c1)\<rparr>)"
    using res_var_find [OF assms(1)] by (simp add: mi_res_done_var_def blocks_opt_def)
  then show ?thesis
    by (simp add: mi_res_value_def seq_def pure_run_def c_cstr_def take_cstr_def heap_def ret_def mi_free_results_live)
qed

text \<open>
  C27: Assigning to a variable, from end to end. One line with the name and the expression between
  quotes goes to gdb; when it answers with a value, the variable has that value and keeps all its
  other fields, its old value is released, and of the answer only the new value stays on the heap.
\<close>

theorem var_assign_value:
  assumes "ready c" and "sendable (value_record v)" and "catch_console (c_h c) = 0" and "po (c_h c) = []"
    and "\<not> died (c_h c)" and "0 < pid (c_h c)" and "waits c = []"
    and "reads c = wire [value_record v] @ rest" and "selects c = 1 # sel"
    and "gv_name (gv_own var) = Some n"
  shows "\<exists>c1. gmi_var_assign var e c = Inr ((True, GVar ((gv_own var)\<lparr>gv_value := Some v\<rparr>) (gv_child var)), c1) \<and>
    sent c1 = sent c @ [''-var-assign '' @ in_quotes n @ '' '' @ in_quotes e @ [NEWLINE]] \<and>
    live (c_w c1) = live (c_w c) + (1 - own (line (c_h c))) + 1 - own (gv_value (gv_own var))"
proof -
  let ?s = "''-var-assign '' @ in_quotes n @ '' '' @ in_quotes e @ [NEWLINE]"
  have one: "\<not> is_stream (value_record v)" "blocks_o (value_record v) = 4"
    by (simp_all add: is_stream_def value_record_def record_codes blocks_o_def)
  obtain c1 where c1: "mi_get_response_blk (after_send ?s c) = Inr ([value_record v], c1)"
      "live (c_w c1) = live (c_w c) + (1 - own (line (c_h c))) + 4"
    using response_wire [of "after_send ?s c" "[value_record v]" rest sel] assms(1-9) one by auto
  have "sent c1 = sent c @ [?s]"
    using mute.holdsD [OF mute.holds_blk c1(1)] by (simp add: same_sent_def)
  moreover have "mi_var_assign (Some n) e c = Inr ((), after_send ?s c)"
    using assms(1,5) by (simp add: mi_var_assign_def with_name_def seq_ask cmd_def seq_def mi_send_run ret_def ready_def)
  moreover have "record_ok (value_record v)" using assms(2) by (simp add: sendable_def solid_output_def)
  note rv = res_value_run [OF c1(1) this]
  ultimately show ?thesis
    using c1 assms(10)
    by (simp add: gmi_var_assign_def seq_def take_value_def rv heap_def ret_def c_free_live set_own_def)
qed

theorem var_assign_value_witness:
  "\<exists>c1. gmi_var_assign (GVar ((gv_own zero_gvar)\<lparr>gv_name := Some ''var1'', gv_value := Some ''1''\<rparr>) []) ''2''
      (started fresh_h (wire [value_record ''2'']) [1]) =
     Inr ((True, GVar ((gv_own zero_gvar)\<lparr>gv_name := Some ''var1'', gv_value := Some ''2''\<rparr>) []), c1) \<and>
    sent c1 = [''-var-assign '' @ in_quotes ''var1'' @ '' '' @ in_quotes ''2'' @ [NEWLINE]]"
  using var_assign_value [of "started fresh_h (wire [value_record ''2'']) [1]" "''2''" "[]" "[]"
      "GVar ((gv_own zero_gvar)\<lparr>gv_name := Some ''var1'', gv_value := Some ''1''\<rparr>) []" "''var1''" "''2''"]
  by (simp add: started_def fresh_h_def ready_def buf_ok_def value_record_def sendable_def solid_output_def
      record_ok_def record_codes plain_def print_output_def text_of_def class_text_def print_results_def
      good_name_def mi_is_var_name_char_def isalnum_def is_digit_def) auto

end
