(* ===== verification/MI_Error.thy ===== *)
theory MI_Error
  imports MI_Alloc
begin

text \<open>The messages of \<open>src/error.c\<close>, one for each error number.\<close>

definition error_strs :: "string list" where
  "error_strs = [''Ok'', ''Out of memory'', ''Pipe creation'', ''Fork failed'', ''GDB not running'',
     ''Parser failed'', ''Unknown asyn response'', ''Unknown result response'', ''Error from gdb'',
     ''Time out in gdb response'', ''GDB suddenly died'', [CHR ''C'', CHR ''a'', CHR ''n'', CHR 0x27, CHR ''t''] @
     '' execute X terminal'', ''Failed to create temporal'',
     [CHR ''C'', CHR ''a'', CHR ''n'', CHR 0x27, CHR ''t''] @ '' execute the debugger'']"

text \<open>An error number is not negative in the model.\<close>

definition mi_get_error_str :: "world \<Rightarrow> string" where
  "mi_get_error_str w = (if mi_error w > MI_LAST_ERROR then ''Unknown'' else error_strs ! mi_error w)"

text \<open>
  The table of messages and the error numbers fit: the table has an entry for every number up to
  \<open>MI_LAST_ERROR\<close>, so no index is out of range, two errors have the same message only when both are
  outside the table, and inside it none reads \<open>Unknown\<close>.
\<close>

theorem error_messages:
  "length error_strs = MI_LAST_ERROR + 1 \<and>
   (mi_get_error_str w = mi_get_error_str w1) =
     (mi_error w = mi_error w1 \<or> (mi_error w > MI_LAST_ERROR \<and> mi_error w1 > MI_LAST_ERROR)) \<and>
   (mi_get_error_str w = ''Unknown'') = (mi_error w > MI_LAST_ERROR)"
proof -
  have len: "length error_strs = MI_LAST_ERROR + 1"
    by (simp add: error_strs_def MI_LAST_ERROR_def)
  have "distinct error_strs" and un: "''Unknown'' \<notin> set error_strs"
    by (simp_all add: error_strs_def)
  then have "(error_strs ! i = error_strs ! j) = (i = j)" if "i \<le> MI_LAST_ERROR" "j \<le> MI_LAST_ERROR" for i j
    using that len by (intro nth_eq_iff_index_eq) auto
  moreover have "error_strs ! i \<noteq> ''Unknown''" if "i \<le> MI_LAST_ERROR" for i
    using that len un nth_mem [of i error_strs] by (metis Suc_eq_plus1 le_imp_less_Suc)
  ultimately show ?thesis using len
    by (auto simp: mi_get_error_str_def not_less) metis+
qed

end
