(* ===== verification/MI_XTerm.thy ===== *)
theory MI_XTerm
  imports MI_Globals
begin

text \<open>
  The X terminal of \<open>src/connect.c\<close> lines 717 to 850: two temporary files, a script that tells which
  terminal it runs on, and the terminal itself as a child. The descriptors and files it opens are in
  the log when they are closed and deleted.
\<close>

section \<open>Start and end of a terminal\<close>

record mi_aux_term =
  at_pid :: int
  at_tty :: "string option"

definition shell_file :: string where "shell_file = ''/tmp/shXXXXXX''"
definition tty_file :: string where "tty_file = ''/tmp/ttXXXXXX''"

definition os_mkstemp :: "int com" where
  "os_mkstemp = sys (\<lambda>s. case mkstemps s of [] \<Rightarrow> (- 1, s) | d # ds \<Rightarrow> (d, s\<lparr>mkstemps := ds\<rparr>))"

text \<open>An early return: what is closed and deleted first, and the error.\<close>

definition no_term :: "nat \<Rightarrow> event list \<Rightarrow> mi_aux_term option com" where
  "no_term e es = seq (\<lambda>c. Inr ((), c\<lparr>events := events c @ es\<rparr>)) (\<lambda>_.
     seq (set_error e) (\<lambda>_. ret None))"

text \<open>\<open>while (stat(nsh, &st) == 0)\<close>: the results of \<open>stat\<close> until the file is gone.\<close>

definition wait_deleted :: "unit com" where
  "wait_deleted = sys (\<lambda>s. ((), s\<lparr>stats := tl (dropWhile id (stats s))\<rparr>))"

definition read_tty :: "int \<Rightarrow> mi_aux_term option com" where
  "read_tty p = seq (ask (\<lambda>c. text_file (c_os c) tty_file)) (\<lambda>t.
     case t of
       None \<Rightarrow> ret None
     | Some s \<Rightarrow> (case fgets_all (PATH_MAX - 1) [] s of
           [] \<Rightarrow> ret None
         | b # _ \<Rightarrow> seq (on_w (\<lambda>w. Inr (c_malloc w))) (\<lambda>ok.
             if \<not> ok then ret None
             else seq (dup (takeWhile (\<lambda>c. c \<noteq> NEWLINE) (line_str b))) (\<lambda>d.
               ret (Some \<lparr>at_pid = p, at_tty = d\<rparr>)))))"

text \<open>
  The names \<open>mkstemp\<close> makes stand for themselves. The child that runs the terminal is again an
  entry \<open>Spawn\<close>; its argument is \<open>mi_get_xterm_exe\<close>, which is \<open>xterm\<close> once more.
\<close>

definition gmi_start_xterm :: "mi_aux_term option com" where
  "gmi_start_xterm =
     seq mi_get_xterm_exe (\<lambda>xterm.
     seq (ask (\<lambda>c. is_exec (c_os c) xterm)) (\<lambda>runs.
     if \<not> runs then no_term MI_MISSING_XTERM []
     else seq os_mkstemp (\<lambda>hsh.
     if hsh = - 1 then no_term MI_CREATE_TEMPORAL []
     else seq os_mkstemp (\<lambda>htt.
     if htt = - 1 then no_term MI_CREATE_TEMPORAL [Close hsh, Unlink shell_file]
     else seq (emit (Close htt)) (\<lambda>_.
     seq os_fdopen (\<lambda>f.
     if \<not> f then no_term MI_CREATE_TEMPORAL [Close hsh, Unlink shell_file, Unlink tty_file]
     else seq (emit (Script shell_file [''#!/bin/sh'', ''tty > '' @ tty_file, ''rm '' @ shell_file, ''sleep 365d''])) (\<lambda>_.
     seq (emit (Fclose hsh)) (\<lambda>_.
     seq os_fork (\<lambda>p.
     if p = - 1 then no_term MI_FORK [Unlink shell_file, Unlink tty_file]
     else seq (emit (Spawn [xterm, ''-e'', ''/bin/sh'', shell_file])) (\<lambda>_.
     seq wait_deleted (\<lambda>_.
     seq (read_tty p) (\<lambda>t.
     seq (emit (Unlink tty_file)) (\<lambda>_. ret t)))))))))))))"

definition mi_free_aux_term :: "mi_aux_term option \<Rightarrow> unit com" where
  "mi_free_aux_term t = (case t of
       None \<Rightarrow> ret ()
     | Some x \<Rightarrow> seq (heap (c_free (at_tty x))) (\<lambda>_. heap (c_free (Some ()))))"

definition gmi_end_aux_term :: "mi_aux_term option \<Rightarrow> unit com" where
  "gmi_end_aux_term t = (case t of
       None \<Rightarrow> ret ()
     | Some x \<Rightarrow>
         seq (if at_pid x \<noteq> - 1
              then seq (mi_check_running_pid (at_pid x)) (\<lambda>r. if r then mi_kill_child (at_pid x) else ret ())
              else ret ()) (\<lambda>_. mi_free_aux_term t))"

section \<open>Nothing is left behind\<close>

fun unlinks :: "event list \<Rightarrow> string list" where
  "unlinks [] = []"
| "unlinks (Unlink f # es) = f # unlinks es"
| "unlinks (_ # es) = unlinks es"

lemma unlinks_append [simp]: "unlinks (es @ es') = unlinks es @ unlinks es'"
  by (induction es rule: unlinks.induct) simp_all

definition blocks_term :: "mi_aux_term option \<Rightarrow> int" where
  "blocks_term t = (case t of None \<Rightarrow> 0 | Some x \<Rightarrow> 1 + own (at_tty x))"

lemma get_xterm_exe_frame:
  assumes "mi_get_xterm_exe c = Inr (x, c1)"
  shows "events c1 = events c \<and> c_os c1 = c_os c \<and>
    live (c_w c1) - conf_blocks (c_g c1) = live (c_w c) - conf_blocks (c_g c)"
proof -
  have "c_os c1 = c_os c \<and> events c1 = events c"
  proof (cases "xterm_exe (c_g c)")
    case None
    with assms obtain r c2 where f: "mi_search_in_path ''xterm'' c = Inr (r, c2)"
        "c1 = c2\<lparr>c_g := (c_g c2)\<lparr>xterm_exe := r\<rparr>\<rparr>"
      by (auto simp: mi_get_xterm_exe_def getg_def ask_def seq_Inr setg_def ret_def split: option.splits)
    with search_in_path_live [OF f(1)] search_in_path_frame [OF f(1)] show ?thesis by simp
  qed (use assms in \<open>simp add: mi_get_xterm_exe_def getg_def ask_def seq_def ret_def\<close>)
  with get_xterm_exe_settled [OF assms] show ?thesis by (simp add: settled_def)
qed

lemma mkstemp_run: "os_mkstemp c = Inr (if mkstemps (c_os c) = [] then - 1 else hd (mkstemps (c_os c)),
    c\<lparr>c_os := (c_os c)\<lparr>mkstemps := tl (mkstemps (c_os c))\<rparr>\<rparr>)"
  by (cases "mkstemps (c_os c)") (simp_all add: os_mkstemp_def sys_def)

lemma read_tty_run:
  assumes "read_tty p c = Inr (t, c1)"
  shows "events c1 = events c \<and> c_os c1 = c_os c \<and> c_g c1 = c_g c \<and> live (c_w c1) = live (c_w c) + blocks_term t"
  using assms
  by (auto simp: read_tty_def blocks_term_def com_defs bnd_Inr_iff c_malloc_def dup_def c_strdup_def
      split: option.splits list.splits if_splits prod.splits)

lemma end_aux_exact: "\<exists>c1. gmi_end_aux_term t c = Inr ((), c1)"
  by (cases t) (simp_all add: gmi_end_aux_term_def mi_free_aux_term_def com_defs kill_child_run check_pid_run)

lemma end_aux_live: "gmi_end_aux_term t c = Inr ((), c1) \<Longrightarrow> live (c_w c1) = live (c_w c) - blocks_term t \<and> c_g c1 = c_g c"
  by (cases t) (auto simp: gmi_end_aux_term_def mi_free_aux_term_def blocks_term_def com_defs c_free_live
      kill_child_run check_pid_run bnd_Inr_iff split: if_splits)

text \<open>What a start leaves behind, from the state in which the terminal is known.\<close>

definition cleaned :: "conn \<Rightarrow> mi_aux_term option \<Rightarrow> conn \<Rightarrow> int list \<Rightarrow> event list \<Rightarrow> bool" where
  "cleaned c t c1 used new \<longleftrightarrow>
     mkstemps (c_os c) = used @ mkstemps (c_os c1) \<and> events c1 = events c @ new \<and>
     closes new = rev (filter (\<lambda>n. n \<noteq> - 1) used) \<and>
     (if \<exists>a. Spawn a \<in> set new
      then unlinks new = [tty_file] \<and> (\<exists>ls. Script shell_file ls \<in> set new \<and> ''rm '' @ shell_file \<in> set ls)
      else t = None \<and> unlinks new = take (length (filter (\<lambda>n. n \<noteq> - 1) used)) [shell_file, tty_file] \<and>
        mi_error (c_w c1) \<in> {MI_MISSING_XTERM, MI_CREATE_TEMPORAL, MI_FORK}) \<and>
     c_g c1 = c_g c \<and> live (c_w c1) = live (c_w c) + blocks_term t"

lemma no_term_run: "no_term e es c = Inr (None, c\<lparr>events := events c @ es, c_w := (c_w c)\<lparr>mi_error := e\<rparr>\<rparr>)"
  by (simp add: no_term_def com_defs)

lemma xterm_started:
  assumes "mkstemps (c_os c) = hsh # htt # ds" and "hsh \<noteq> - 1" and "htt \<noteq> - 1" and "fdopens (c_os c) = True # fs"
    and "forks (c_os c) = p # ps" and "p \<noteq> - 1" and "mi_get_xterm_exe c0 = Inr (x, c)" and "is_exec (c_os c) x"
    and "gmi_start_xterm c0 = Inr (t, c1)"
  shows "\<exists>new. cleaned c t c1 [hsh, htt] new"
proof -
  let ?new = "[Close htt, Script shell_file [''#!/bin/sh'', ''tty > '' @ tty_file, ''rm '' @ shell_file, ''sleep 365d''],
    Fclose hsh, Spawn [x, ''-e'', ''/bin/sh'', shell_file]]"
  let ?s = "c\<lparr>events := events c @ ?new,
    c_os := (c_os c)\<lparr>mkstemps := ds, fdopens := fs, forks := ps, stats := tl (dropWhile id (stats (c_os c)))\<rparr>\<rparr>"
  obtain c2 where c2: "read_tty p ?s = Inr (t, c2)" "c1 = c2\<lparr>events := events c2 @ [Unlink tty_file]\<rparr>"
    using assms
    by (auto simp: gmi_start_xterm_def seq_Inr mkstemp_run fdopen_run fork_run ask_def emit_def ret_def
        wait_deleted_def sys_def seq_def bnd_Inr_iff)
  from read_tty_run [OF c2(1)] c2(2) assms(1-3) show ?thesis
    by (intro exI [of _ "?new @ [Unlink tty_file]"]) (simp add: cleaned_def)
qed

text \<open>The early returns: how far the start comes before it fails.\<close>

lemma xterm_stages:
  assumes "\<not> (e \<and> (\<exists>hsh htt ds fs p ps. m = hsh # htt # ds \<and> hsh \<noteq> - 1 \<and> htt \<noteq> - 1 \<and>
    f = True # fs \<and> k = p # ps \<and> p \<noteq> - 1))"
  shows "\<not> e \<or> e \<and> (m = [] \<or> hd m = (- 1 :: int)) \<or> e \<and> (\<exists>h. m = [h] \<and> h \<noteq> - 1) \<or>
    e \<and> (\<exists>h ds. m = h # - 1 # ds \<and> h \<noteq> - 1) \<or>
    e \<and> (\<exists>h g ds. m = h # g # ds \<and> h \<noteq> - 1 \<and> g \<noteq> - 1 \<and> (f = [] \<or> \<not> hd f)) \<or>
    e \<and> (\<exists>h g ds fs. m = h # g # ds \<and> h \<noteq> - 1 \<and> g \<noteq> - 1 \<and> f = True # fs \<and> (k = [] \<or> hd k = (- 1 :: int)))"
  using assms by (cases m; cases "tl m"; cases f; cases k) auto

lemma xterm_not_started:
  assumes "mi_get_xterm_exe c0 = Inr (x, c)"
    and "\<not> (is_exec (c_os c) x \<and> (\<exists>hsh htt ds fs p ps. mkstemps (c_os c) = hsh # htt # ds \<and> hsh \<noteq> - 1 \<and>
      htt \<noteq> - 1 \<and> fdopens (c_os c) = True # fs \<and> forks (c_os c) = p # ps \<and> p \<noteq> - 1))"
    and "gmi_start_xterm c0 = Inr (t, c1)"
  shows "\<exists>used new. cleaned c t c1 used new"
proof -
  let ?m = "mkstemps (c_os c)"
  consider "\<not> is_exec (c_os c) x"
    | "is_exec (c_os c) x" "?m = [] \<or> hd ?m = - 1"
    | h where "is_exec (c_os c) x" "?m = [h]" "h \<noteq> - 1"
    | h ds where "is_exec (c_os c) x" "?m = h # - 1 # ds" "h \<noteq> - 1"
    | h g ds where "is_exec (c_os c) x" "?m = h # g # ds" "h \<noteq> - 1" "g \<noteq> - 1"
        "fdopens (c_os c) = [] \<or> \<not> hd (fdopens (c_os c))"
    | h g ds fs where "is_exec (c_os c) x" "?m = h # g # ds" "h \<noteq> - 1" "g \<noteq> - 1" "fdopens (c_os c) = True # fs"
        "forks (c_os c) = [] \<or> hd (forks (c_os c)) = - 1"
    using xterm_stages [OF assms(2)] by blast
  then show ?thesis
  proof cases
    case 1
    with assms(1,3) show ?thesis
      by (intro exI [of _ "[]"]) (auto simp: gmi_start_xterm_def seq_def ask_def no_term_run cleaned_def blocks_term_def)
  next
    case 2
    with assms(1,3) show ?thesis
      by (intro exI [of _ "take 1 ?m"] exI [of _ "[]"])
        (cases ?m, auto simp: gmi_start_xterm_def seq_def ask_def no_term_run mkstemp_run cleaned_def blocks_term_def)
  next
    case 3
    with assms(1,3) show ?thesis
      by (intro exI [of _ ?m] exI [of _ "[Close h, Unlink shell_file]"])
        (auto simp: gmi_start_xterm_def seq_def ask_def no_term_run mkstemp_run cleaned_def blocks_term_def)
  next
    case 4
    with assms(1,3) show ?thesis
      by (intro exI [of _ "take 2 ?m"] exI [of _ "[Close h, Unlink shell_file]"])
        (auto simp: gmi_start_xterm_def seq_def ask_def no_term_run mkstemp_run cleaned_def blocks_term_def)
  next
    case 5
    with assms(1,3) show ?thesis
      by (intro exI [of _ "take 2 ?m"] exI [of _ "[Close g, Close h, Unlink shell_file, Unlink tty_file]"])
        (auto simp: gmi_start_xterm_def seq_def ask_def emit_def no_term_run mkstemp_run fdopen_run cleaned_def blocks_term_def)
  next
    case 6
    let ?ls = "[''#!/bin/sh'', ''tty > '' @ tty_file, ''rm '' @ shell_file, ''sleep 365d'']"
    from 6 assms(1,3) show ?thesis
      by (intro exI [of _ "take 2 ?m"] exI [of _ "[Close g, Script shell_file ?ls, Fclose h, Unlink shell_file, Unlink tty_file]"])
        (cases "forks (c_os c)"; auto simp: gmi_start_xterm_def seq_def ask_def emit_def no_term_run mkstemp_run fdopen_run fork_run cleaned_def blocks_term_def)
  qed
qed



end
