(* ===== verification/MI_Term.thy ===== *)
theory MI_Term
  imports MI_XTerm MI_Numbers
begin

text \<open>
  The search of a free terminal for the program: a virtual terminal of Linux (\<open>src/get_free_vt.c\<close>)
  and a pseudo terminal (\<open>src/get_free_pty.c\<close>).
\<close>

unbundle bit_operations_syntax

section \<open>Virtual terminals\<close>

definition tty_name :: "nat \<Rightarrow> string" where
  "tty_name n = ''/dev/tty'' @ dec (int n)"

text \<open>\<open>/dev/console\<close>, or the first of 24 terminals that opens for writing.\<close>

definition open_console :: "osys \<Rightarrow> int option" where
  "open_console s =
     (if 0 \<le> open_dev s ''/dev/console'' True then Some (open_dev s ''/dev/console'' True)
      else map_option (\<lambda>n. open_dev s (tty_name n) True)
        (find (\<lambda>n. 0 \<le> open_dev s (tty_name n) True) [1..<25]))"

text \<open>
  The loop over the bits of the state, \<open>mask\<close> an \<open>unsigned short\<close> that becomes 0 when its bit is
  shifted out. Sixteen turns are enough: \<open>try_vts_fuel\<close>.
\<close>

fun try_vts :: "nat \<Rightarrow> nat \<Rightarrow> 16 word \<Rightarrow> 16 word \<Rightarrow> unit com" where
  "try_vts 0 tty msk state = (\<lambda>c. Inl Out_of_fuel)"
| "try_vts (Suc n) tty msk state =
     (if msk = 0 then ret ()
      else if state AND msk = 0 then
        seq (ask (\<lambda>c. open_dev (c_os c) (tty_name tty) False)) (\<lambda>fd.
          if fd \<noteq> - 1 then emit (Close fd) else try_vts n (tty + 1) (push_bit 1 msk) state)
      else try_vts n (tty + 1) (push_bit 1 msk) state)"

text \<open>
  \<open>mi_look_for_free_vt\<close>: the number it returns, or \<open>None\<close> when it ends without a \<open>return\<close>, as it does
  whenever it gets as far as the search. Only the error returns are there.
\<close>

definition mi_look_for_free_vt :: "int option com" where
  "mi_look_for_free_vt = seq (ask c_os) (\<lambda>s. case open_console s of
       None \<Rightarrow> ret (Some (- 1))
     | Some fd \<Rightarrow> (case vt_state s of
         None \<Rightarrow> ret (Some (- 2))
       | Some state \<Rightarrow> seq (emit (Close fd)) (\<lambda>_.
           seq (try_vts 16 1 2 state) (\<lambda>_. ret None))))"

text \<open>The allocation and \<open>asprintf\<close> each take a block.\<close>

definition gmi_look_for_free_vt :: "mi_aux_term option com" where
  "gmi_look_for_free_vt = seq mi_look_for_free_vt (\<lambda>r. case r of
       None \<Rightarrow> (\<lambda>c. Inl No_return)
     | Some vt \<Rightarrow>
         if vt < 0 then ret None
         else seq (on_w (\<lambda>w. Inr (c_malloc w))) (\<lambda>ok.
           if \<not> ok then ret None
           else seq (dup (tty_name (nat vt))) (\<lambda>t. case t of
               None \<Rightarrow> seq (heap (c_free (Some ()))) (\<lambda>_. ret None)
             | Some s \<Rightarrow> ret (Some \<lparr>at_pid = - 1, at_tty = Some s\<rparr>))))"

lemma try_vts_fuel:
  "push_bit n msk = 0 \<Longrightarrow> \<exists>es. try_vts (Suc n) tty msk state c = Inr ((), c\<lparr>events := events c @ es\<rparr>)"
proof (induction n arbitrary: tty msk)
  case 0
  then show ?case by (auto simp: ret_def intro: exI [of _ "[]"])
next
  case (Suc n)
  then have "push_bit n (push_bit 1 msk) = 0" by (simp add: push_bit_push_bit)
  from Suc.IH [OF this] show ?case
    by (auto simp: seq_def ask_def emit_def ret_def intro: exI [of _ "[]"])
qed

text \<open>
  No virtual terminal is ever found: the search always ends, but the function that looks for one has
  no return statement after its search, so its caller either gets an error number and returns
  NULL, or, as soon as the console can be opened and queried, uses a value that was never returned.
\<close>

theorem free_vt_never:
  "gmi_look_for_free_vt c =
     (if open_console (c_os c) \<noteq> None \<and> vt_state (c_os c) \<noteq> None then Inl No_return else Inr (None, c))"
proof -
  have "push_bit 15 (2::16 word) = 0" by code_simp
  then have run: "\<exists>es. try_vts 16 1 2 state c1 = Inr ((), c1\<lparr>events := events c1 @ es\<rparr>)" for state c1
    using try_vts_fuel [of 15 2 1 state c1] by simp
  show ?thesis
  proof (cases "open_console (c_os c)")
    case None
    then show ?thesis by (simp add: gmi_look_for_free_vt_def mi_look_for_free_vt_def com_defs)
  next
    case (Some fd)
    show ?thesis
    proof (cases "vt_state (c_os c)")
      case None
      with Some show ?thesis by (simp add: gmi_look_for_free_vt_def mi_look_for_free_vt_def com_defs)
    next
      case (Some state)
      obtain es where "try_vts 16 1 2 state (c\<lparr>events := events c @ [Close fd]\<rparr>) =
          Inr ((), c\<lparr>events := events c @ [Close fd] @ es\<rparr>)"
        using run [of state "c\<lparr>events := events c @ [Close fd]\<rparr>"] by auto
      with Some \<open>open_console (c_os c) = Some fd\<close> show ?thesis
        by (simp add: gmi_look_for_free_vt_def mi_look_for_free_vt_def com_defs)
    qed
  qed
qed

section \<open>Pseudo terminals\<close>

record mi_pty =
  pty_slave :: "string option"
  pty_master :: int

text \<open>The Linux version: the result, \<open>*master\<close> and \<open>*slave\<close>. The master stays open when a later call fails.\<close>

definition mi_look_for_free_pty :: "(int \<times> int \<times> string option) com" where
  "mi_look_for_free_pty = seq (ask c_os) (\<lambda>s.
     let master = open_dev s ''/dev/ptmx'' False in
     if master < 0 then ret (- 1, master, None)
     else if \<not> grant_ok s \<or> \<not> unlock_ok s then ret (- 1, master, None)
     else ret (0, master, pts_name s))"

definition gmi_look_for_free_pty :: "mi_pty option com" where
  "gmi_look_for_free_pty = seq mi_look_for_free_pty (\<lambda>(pty, master, slave).
     if pty < 0 then ret None
     else seq (on_w (\<lambda>w. Inr (c_malloc w))) (\<lambda>ok.
       if \<not> ok then ret None
       else (case slave of
           None \<Rightarrow> (\<lambda>c. Inl Null_deref)
         | Some s \<Rightarrow> seq (dup s) (\<lambda>d. ret (Some \<lparr>pty_slave = d, pty_master = master\<rparr>)))))"

definition mi_free_pty :: "mi_pty option \<Rightarrow> unit com" where
  "mi_free_pty p = (case p of
       None \<Rightarrow> ret ()
     | Some x \<Rightarrow> seq (heap (c_free (pty_slave x))) (\<lambda>_. heap (c_free (Some ()))))"

definition gmi_end_pty :: "mi_pty option \<Rightarrow> unit com" where
  "gmi_end_pty p = (case p of
       None \<Rightarrow> ret ()
     | Some x \<Rightarrow> seq (emit (Close (pty_master x))) (\<lambda>_. mi_free_pty p))"

text \<open>
  A pseudo terminal that is found and then ended gives back all it took: the heap is as before and
  the descriptor that was opened is the one that is closed. This needs the two calls after
  the opening to succeed; when one of them fails the descriptor stays open, and nobody knows it.
\<close>

theorem pty_balance:
  assumes "0 \<le> open_dev (c_os c) ''/dev/ptmx'' False" and "pts_name (c_os c) = Some s"
  shows "if grant_ok (c_os c) \<and> unlock_ok (c_os c) then
      \<exists>p c1 c2. gmi_look_for_free_pty c = Inr (p, c1) \<and> gmi_end_pty p c1 = Inr ((), c2) \<and>
        live (c_w c2) = live (c_w c) \<and>
        (case p of None \<Rightarrow> oom (c_w c) \<noteq> [] \<and> closes (events c2) = closes (events c)
         | Some x \<Rightarrow> closes (events c2) = closes (events c) @ [open_dev (c_os c) ''/dev/ptmx'' False])
    else gmi_look_for_free_pty c = Inr (None, c)"
proof (cases "grant_ok (c_os c) \<and> unlock_ok (c_os c)")
  case True
  obtain ok w1 where m: "c_malloc (c_w c) = (ok, w1)" by (cases "c_malloc (c_w c)")
  have w1: "live w1 = live (c_w c) + (if ok then 1 else 0)" "\<not> ok \<Longrightarrow> oom (c_w c) \<noteq> []"
    using m by (auto simp: c_malloc_def split: list.splits if_splits)
  obtain d w2 where d: "c_strdup s w1 = (d, w2)" by (cases "c_strdup s w1")
  have "live w2 = live w1 + own d"
    using d by (auto simp: c_strdup_def c_malloc_def Let_def split: list.splits if_splits prod.splits)
  with True assms m d w1 show ?thesis
    by (cases ok) (auto simp: gmi_look_for_free_pty_def mi_look_for_free_pty_def gmi_end_pty_def mi_free_pty_def
        com_defs dup_def c_free_live Let_def)
next
  case False
  with assms(1) show ?thesis
    by (auto simp: gmi_look_for_free_pty_def mi_look_for_free_pty_def com_defs Let_def)
qed

theorem pty_balance_witness:
  "\<exists>p c1 c2. gmi_look_for_free_pty ((started fresh_h [] [])\<lparr>c_os := bare_os\<lparr>open_dev := (\<lambda>_ _. 9),
      grant_ok := True, unlock_ok := True, pts_name := Some ''/dev/pts/3''\<rparr>\<rparr>) = Inr (p, c1) \<and>
    gmi_end_pty p c1 = Inr ((), c2) \<and> live (c_w c2) = 0"
  using pty_balance [of "(started fresh_h [] [])\<lparr>c_os := bare_os\<lparr>open_dev := (\<lambda>_ _. 9),
      grant_ok := True, unlock_ok := True, pts_name := Some ''/dev/pts/3''\<rparr>\<rparr>" "''/dev/pts/3''"]
  by (auto simp: started_def)

end
