(* ===== verification/MI_Endings.thy ===== *)
theory MI_Endings
  imports MI_Commands
begin

text \<open>
  The two other endings of a wait: gdb answers with an error, and gdb is slow, so that the wait times out
  in the middle of a response and a later wait goes on with it.
\<close>

section \<open>An error as the answer\<close>

definition error_record :: "string \<Rightarrow> mi_output" where
  "error_record m = \<lparr>o_type = MI_T_RESULT_RECORD, o_stype = 0, o_sstype = 0, o_tclass = MI_CL_ERROR,
     o_c = [MiRes (Some ''msg'') (VConst (Some m))]\<rparr>"

lemma error_record_basic:
  "\<not> is_stream (error_record m)" "blocks_o (error_record m) = 4"
  by (simp_all add: is_stream_def error_record_def record_codes blocks_o_def)

lemma record_of_error:
  assumes "oom (c_w c) = []" and "has_last (c_h c) \<longleftrightarrow> po (c_h c) \<noteq> []"
  shows "mi_record (error_record m) c = Inr (0, c\<lparr>c_h := push_record (error_record m) (c_h c),
    mi_error_from_gdb := Some m,
    c_w := (c_w c)\<lparr>mi_error := MI_FROM_GDB, live := live (c_w c) + 1 - own (mi_error_from_gdb c)\<rparr>\<rparr>)"
proof -
  have "add_record r c1 = Inr ((), c1\<lparr>c_h := push_record r (c_h c1)\<rparr>)" if "c_h c1 = c_h c" for r c1
    using assms(2) that by (simp add: add_record_def hand_def push_record_def)
  moreover have "error_line (error_record m) c = Inr ((), c\<lparr>mi_error_from_gdb := Some m,
      c_w := (c_w c)\<lparr>mi_error := MI_FROM_GDB, live := live (c_w c) + 1 - own (mi_error_from_gdb c)\<rparr>\<rparr>)"
    using assms(1)
    by (simp add: error_line_def com_defs set_msg_def free_live c_strdup_def c_free_live error_record_def)
  moreover have "o_type (error_record m) = MI_T_RESULT_RECORD" "o_tclass (error_record m) = MI_CL_ERROR"
    "MI_T_RESULT_RECORD \<noteq> MI_T_OUT_OF_BAND" "MI_CL_ERROR \<noteq> MI_CL_EXIT"
    by (simp_all add: error_record_def record_codes)
  ultimately show ?thesis by (simp add: mi_record_def seq_def ret_def)
qed

lemma response_of_error:
  assumes "ready c" and "solid_output (error_record m)" and "CRET \<notin> set (print_output (error_record m))"
    and "reads c = map Some (print_output (error_record m) @ [NEWLINE]) @ rs"
  obtains c1 where "mi_get_response c = Inr (0, c1)" "ready c1" "reads c1 = rs"
    "po (c_h c1) = po (c_h c) @ [error_record m]" "callbacks (c_h c1) = callbacks (c_h c)"
    "selects c1 = selects c" "waits c1 = waits c" "own (line (c_h c1)) = 1"
    "mi_error (c_w c1) = MI_FROM_GDB" "mi_error_from_gdb c1 = Some m"
    "live (c_w c1) = live (c_w c) + (1 - own (line (c_h c))) + 5 - own (mi_error_from_gdb c)"
proof -
  let ?r = "error_record m"
  obtain tail where 1: "mi_get_response c = mi_record ?r
    (got_line c rs (print_output ?r) tail\<lparr>
       events := events c @ echo (c_h c) (print_output ?r),
       c_w := add_live (1 - own (line (c_h c)) + blocks_o ?r) (c_w c)\<rparr>)" (is "_ = mi_record ?r ?c")
    using response_of_line [OF assms(1-4)] by blast
  have "oom (c_w ?c) = []" and "has_last (c_h ?c) \<longleftrightarrow> po (c_h ?c) \<noteq> []"
    using assms(1) by (simp_all add: got_line_def ready_def line_upd_def)
  note 2 = record_of_error [OF this, of m]
  show thesis
    by (rule that [OF trans [OF 1 2]])
      (use assms(1) in \<open>auto simp: ready_def got_line_def push_record_def ready_line_upd callbacks_same
        buf_ok_def line_upd_def callbacks_def error_record_basic\<close>)
qed

lemma error_blk:
  assumes "ready c" and "solid_output (error_record m)" and "CRET \<notin> set (print_output (error_record m))"
    and "\<not> died (c_h c)" and "0 < pid (c_h c)" and "waits c = []" and "po (c_h c) = []"
    and "reads c = wire [error_record m] @ rest" and "selects c = 1 # sel"
  shows "\<exists>c1. mi_get_response_blk c = Inr ([error_record m], c1) \<and> reads c1 = rest \<and> selects c1 = sel \<and>
    waits c1 = [] \<and> ready c1 \<and> callbacks (c_h c1) = callbacks (c_h c) \<and> po (c_h c1) = [] \<and>
    own (line (c_h c1)) = 1 \<and> mi_error (c_w c1) = MI_FROM_GDB \<and> mi_error_from_gdb c1 = Some m \<and>
    live (c_w c1) = live (c_w c) + (1 - own (line (c_h c))) + 5 - own (mi_error_from_gdb c)"
proof -
  obtain c1 where c1: "mi_get_response c = Inr (0, c1)" "ready c1" "reads c1 = wire [] @ rest"
    "po (c_h c1) = [error_record m]" "callbacks (c_h c1) = callbacks (c_h c)"
    "selects c1 = selects c" "waits c1 = waits c" "own (line (c_h c1)) = 1"
    "mi_error (c_w c1) = MI_FROM_GDB" "mi_error_from_gdb c1 = Some m"
    "live (c_w c1) = live (c_w c) + (1 - own (line (c_h c))) + 5 - own (mi_error_from_gdb c)"
    using response_of_error [OF assms(1-3), of "wire [] @ rest"] assms(7,8) by (auto simp: wire_def)
  let ?c = "c1\<lparr>selects := sel\<rparr>"
  have turn: "blk_turn c = Inr (None, ?c)"
    using c1 assms(9) by (simp add: blk_turn_def seq_def mi_select_def ret_def)
  have "ready ?c" using c1(2) by (simp add: ready_def)
  then obtain c2 where c2: "blk_turn ?c = Inr (Some [error_record m], c2)" "ready c2" "reads c2 = rest"
    "po (c_h c2) = []" "callbacks (c_h c2) = callbacks (c_h c1)" "selects c2 = sel" "waits c2 = waits c1"
    "own (line (c_h c2)) = 1" "mi_error (c_w c2) = MI_FROM_GDB" "mi_error_from_gdb c2 = Some m"
    "live (c_w c2) = live (c_w c1)"
    using response_of_end [of ?c rest] c1 by (auto simp: wire_def)
  have "mi_check_running c = Inr (True, c)"
    using assms(4-6) by (simp add: mi_check_running_def mi_check_running_pid_def wait_nohang_def com_defs)
  then have "mi_get_response_blk c = Inr ([error_record m], c2)"
    using turn c2(1) by (simp add: mi_get_response_blk_def seq_def blk_loop.simps)
  with c1 c2 assms(6) show ?thesis by auto
qed

text \<open>
  C30: When gdb answers one of the simple commands with an error, the command fails, \<open>mi_error\<close> says that the
  error comes from gdb, and the global message is gdb's text: the old message is released, and of the
  answer nothing else stays on the heap.
\<close>

theorem simple_call_error:
  assumes "simple_call high low line_of cls" and "cls \<noteq> MI_CL_ERROR"
    and "ready c" and "solid_output (error_record m)" and "CRET \<notin> set (print_output (error_record m))"
    and "\<not> died (c_h c)" and "0 < pid (c_h c)" and "waits c = []" and "po (c_h c) = []"
    and "reads c = wire [error_record m] @ rest" and "selects c = 1 # sel"
  shows "\<exists>c1. high c = Inr (False, c1) \<and> sent c1 = sent c @ [line_of c @ [NEWLINE]] \<and> reads c1 = rest \<and>
    mi_error (c_w c1) = MI_FROM_GDB \<and> mi_error_from_gdb c1 = Some m \<and>
    live (c_w c1) = live (c_w c) + (1 - own (line (c_h c))) + 1 - own (mi_error_from_gdb c)"
proof -
  from assms(1) have cmd: "simple_command low line_of high cls" by (rule simple_call_command)
  let ?c = "after_send (line_of c @ [NEWLINE]) c"
  obtain c1 where c1: "mi_get_response_blk ?c = Inr ([error_record m], c1)" "reads c1 = rest"
    "mi_error (c_w c1) = MI_FROM_GDB" "mi_error_from_gdb c1 = Some m"
    "live (c_w c1) = live (c_w c) + (1 - own (line (c_h c))) + 5 - own (mi_error_from_gdb c)"
    using error_blk [of ?c m rest sel] assms(3-11) by auto
  have "sent c1 = sent ?c" using mute.holdsD [OF mute.holds_blk c1(1)] by (simp add: same_sent_def)
  moreover have "the_record [error_record m] cls = None"
    using assms(2) by (simp add: the_record_def error_record_def)
  ultimately show ?thesis
    using simple_command.high_answer [OF cmd _ _ c1(1)] assms(3,6) c1 error_record_basic(2) by (simp add: ready_def)
qed

theorem simple_call_error_witness:
  "\<exists>c1. gmi_break_delete 7 (started fresh_h (wire [error_record ''No breakpoint number 7.'']) [1]) = Inr (False, c1) \<and>
     mi_error_from_gdb c1 = Some ''No breakpoint number 7.''"
  using simple_call_error [of "gmi_break_delete 7" "mi_break_delete 7" "\<lambda>_. ''-break-delete '' @ dec 7" MI_CL_DONE
      "started fresh_h (wire [error_record ''No breakpoint number 7.'']) [1]" "''No breakpoint number 7.''" "[]" "[]",
      OF simple_call.intros(17)]
  by (auto simp: started_def fresh_h_def ready_def buf_ok_def error_record_def solid_output_def record_ok_def
      record_codes print_output_def text_of_def class_text_def print_results_def good_name_def
      mi_is_var_name_char_def isalnum_def is_digit_def)

section \<open>A wait that times out in the middle of a response\<close>

definition record_lines :: "mi_output list \<Rightarrow> char option list" where
  "record_lines rs = concat (map (\<lambda>r. map Some (print_output r @ [NEWLINE])) rs)"

lemma blk_loop_part:
  assumes "ready c" and "\<forall>r\<in>set rs. sendable r" and "catch_console (c_h c) = 0"
    and "reads c = record_lines rs @ rest" and "selects c = replicate (length rs) 1 @ sel"
  shows "\<exists>c1. blk_loop c = blk_loop c1 \<and> ready c1 \<and> reads c1 = rest \<and> selects c1 = sel \<and> waits c1 = waits c \<and>
    po (c_h c1) = po (c_h c) @ filter (\<lambda>r. \<not> is_stream r) rs \<and> callbacks (c_h c1) = callbacks (c_h c) \<and>
    live (c_w c1) - own (line (c_h c1)) =
      live (c_w c) - own (line (c_h c)) + blocks_os (filter (\<lambda>r. \<not> is_stream r) rs)"
  using assms
proof (induction rs arbitrary: c)
  case Nil
  then show ?case by (intro exI [of _ c]) (simp add: record_lines_def)
next
  case (Cons r rs)
  obtain c1 where c1: "mi_get_response c = Inr (0, c1)" "ready c1" "reads c1 = record_lines rs @ rest"
    "po (c_h c1) = po (c_h c) @ (if is_stream r then [] else [r])"
    "callbacks (c_h c1) = callbacks (c_h c)" "selects c1 = selects c" "waits c1 = waits c"
    "own (line (c_h c1)) = 1"
    "live (c_w c1) = live (c_w c) + (1 - own (line (c_h c))) + (if is_stream r then 0 else blocks_o r)"
    using response_of_record [OF Cons.prems(1) _ Cons.prems(3), of r "record_lines rs @ rest"] Cons.prems(2,4)
    by (auto simp: record_lines_def)
  let ?c = "c1\<lparr>selects := replicate (length rs) 1 @ sel\<rparr>"
  have turn: "blk_turn c = Inr (None, ?c)"
    using c1 Cons.prems(5) by (simp add: blk_turn_def seq_def mi_select_def ret_def)
  then have loop: "blk_loop c = blk_loop ?c" by (simp add: blk_loop.simps [of c])
  have "ready ?c" using c1(2) by (simp add: ready_def)
  moreover have "catch_console (c_h ?c) = 0" using events_of_callbacks(4) [OF c1(5)] Cons.prems(3) by simp
  ultimately show ?case
    using Cons.IH [of ?c] Cons.prems(2) c1 unfolding loop by (cases "is_stream r") (simp_all add: algebra_simps)
qed

lemma blk_loop_gives_up:
  assumes "reads c = None # rs" and "selects c = 0 # sel" and "\<not> died (c_h c)" and "0 < pid (c_h c)"
    and "waits c = []" and "time_out_cb (c_h c) = None"
  shows "blk_loop c = Inr ([], c\<lparr>reads := rs, selects := sel, c_w := (c_w c)\<lparr>mi_error := MI_GDB_TIME_OUT\<rparr>\<rparr>)"
  using assms
  by (simp add: blk_loop.simps [of c] blk_turn_def mi_get_response_def mi_getline_def com_defs mi_select_def blk_idle_def
      mi_check_running_def mi_check_running_pid_def wait_nohang_def call_time_out_def)



end
