(* ===== verification/MI_Debugger.thy ===== *)
theory MI_Debugger
  imports MI_Commands MI_Term MI_Stop MI_Error
begin

text \<open>
  The class \<open>MIDebugger\<close>: \<open>src/cpp_int.cc\<close> and its inline methods in \<open>src/mi_gdb.h\<close>. An object is a
  state machine in front of the C interface: its state says which methods may act, and each method
  moves the state along. A method is a function of the object and of the connection.

  The C interface is used through a handle that is NULL before \<open>Connect\<close> and freed after
  \<open>Disconnect\<close>; \<open>mode\<close> and \<open>preRun\<close> are not set by the constructor. To use a handle or a field in
  these states is a misuse of the object, which is kept apart from a fault of the C code.
\<close>

section \<open>The object\<close>

datatype eState = disconnected | connected | target_specified | running | stopped
datatype dMode = dmX11 | dmLinux | dmRemote | dmPID
datatype endianType = enUnknown | enLittle | enBig
datatype archType = arUnknown | arIA32 | arSPARC | arPIC14 | arAVR | arUnsupported

text \<open>The states are ordered as the enumeration is: the deeper, the more there is to undo.\<close>

primrec eState_num :: "eState \<Rightarrow> nat" where
  "eState_num disconnected = 0"
| "eState_num connected = 1"
| "eState_num target_specified = 2"
| "eState_num running = 3"
| "eState_num stopped = 4"

instantiation eState :: linorder
begin

definition less_eq_eState :: "eState \<Rightarrow> eState \<Rightarrow> bool" where
  "less_eq_eState s t = (eState_num s \<le> eState_num t)"

definition less_eState :: "eState \<Rightarrow> eState \<Rightarrow> bool" where
  "less_eState s t = (eState_num s < eState_num t)"

instance
proof
  fix s t :: eState
  assume "s \<le> t" and "t \<le> s"
  then show "s = t" by (cases s; cases t) (simp_all add: less_eq_eState_def)
qed (auto simp: less_eq_eState_def less_eState_def)

end

datatype handle = Null_h | Live_h | Freed_h

record debugger =
  d_state :: eState
  d_mode :: "dMode option"
  d_endian :: endianType
  d_arch :: archType
  d_preRun :: "bool option"
  d_h :: handle
  d_aux_tty :: "mi_aux_term option"
  d_waiting :: bool

datatype misuse = Library fault | Null_handle | Freed_handle | Unset_field

type_synonym 'a dbg = "debugger \<Rightarrow> conn \<Rightarrow> misuse + (('a \<times> debugger) \<times> conn)"

definition dret :: "'a \<Rightarrow> 'a dbg" where
  "dret x d c = Inr ((x, d), c)"

definition dseq :: "'a dbg \<Rightarrow> ('a \<Rightarrow> 'b dbg) \<Rightarrow> 'b dbg" where
  "dseq m f d c = (case m d c of Inl e \<Rightarrow> Inl e | Inr ((x, d1), c1) \<Rightarrow> f x d1 c1)"

definition getd :: "(debugger \<Rightarrow> 'a) \<Rightarrow> 'a dbg" where
  "getd f d c = Inr ((f d, d), c)"

definition setd :: "(debugger \<Rightarrow> debugger) \<Rightarrow> unit dbg" where
  "setd f d c = Inr (((), f d), c)"

text \<open>A part of the C interface that does not use the handle of the object, and one that does.\<close>

definition call :: "'a com \<Rightarrow> 'a dbg" where
  "call m d c = (case m c of Inl f \<Rightarrow> Inl (Library f) | Inr (x, c1) \<Rightarrow> Inr ((x, d), c1))"

definition on_h :: "'a com \<Rightarrow> 'a dbg" where
  "on_h m d c = (case d_h d of
       Null_h \<Rightarrow> Inl Null_handle
     | Freed_h \<Rightarrow> Inl Freed_handle
     | Live_h \<Rightarrow> call m d c)"

text \<open>The test most methods begin with: return \<open>no\<close> unless the state is one of these.\<close>

definition only :: "eState list \<Rightarrow> 'a \<Rightarrow> 'a dbg \<Rightarrow> 'a dbg" where
  "only S no m d c = (if d_state d \<in> set S then m d c else Inr ((no, d), c))"

definition field :: "(debugger \<Rightarrow> 'a option) \<Rightarrow> 'a dbg" where
  "field f d c = (case f d of None \<Rightarrow> Inl Unset_field | Some x \<Rightarrow> Inr ((x, d), c))"

definition to_state :: "eState \<Rightarrow> unit dbg" where
  "to_state s = setd (\<lambda>d. d\<lparr>d_state := s\<rparr>)"

text \<open>\<open>if (res) state = s; return res;\<close>\<close>

definition moving :: "eState \<Rightarrow> bool dbg \<Rightarrow> bool dbg" where
  "moving s m = dseq m (\<lambda>res. dseq (if res then to_state s else dret ()) (\<lambda>_. dret res))"

lemmas dbg_defs = dret_def dseq_def getd_def setd_def call_def only_def field_def to_state_def moving_def

section \<open>Connection and target\<close>

definition MIDebugger :: debugger where
  "MIDebugger = \<lparr>d_state = disconnected, d_mode = None, d_endian = enUnknown, d_arch = arUnknown,
     d_preRun = None, d_h = Null_h, d_aux_tty = None, d_waiting = False\<rparr>"

definition Connect :: "bool dbg" where
  "Connect = only [disconnected] False (dseq (call mi_connect_local) (\<lambda>ok.
     if ok then dseq (setd (\<lambda>d. d\<lparr>d_h := Live_h, d_state := connected\<rparr>)) (\<lambda>_. dret True)
     else dseq (setd (\<lambda>d. d\<lparr>d_h := Null_h\<rparr>)) (\<lambda>_. dret False)))"

definition Disconnect :: "bool dbg" where
  "Disconnect = only [connected] False (dseq (on_h gmi_gdb_exit) (\<lambda>_.
     dseq (on_h mi_disconnect) (\<lambda>_.
     dseq (setd (\<lambda>d. d\<lparr>d_h := Freed_h, d_state := disconnected\<rparr>)) (\<lambda>_. dret True))))"

definition forget_target :: "dMode \<Rightarrow> debugger \<Rightarrow> debugger" where
  "forget_target m d = d\<lparr>d_endian := enUnknown, d_arch := arUnknown, d_mode := Some m\<rparr>"

text \<open>The terminal for the program: \<open>None\<close> when there is none, otherwise its name, which may be NULL.\<close>

definition find_tty :: "string option \<Rightarrow> dMode \<Rightarrow> string option option dbg" where
  "find_tty auxtty m = (case auxtty of
       Some t \<Rightarrow> dret (Some (Some t))
     | None \<Rightarrow>
         dseq (call (if m = dmLinux then gmi_look_for_free_vt else gmi_start_xterm)) (\<lambda>t.
         dseq (setd (\<lambda>d. d\<lparr>d_aux_tty := t\<rparr>)) (\<lambda>_. dret (map_option at_tty t))))"

definition SelectTargetTTY :: "string \<Rightarrow> string option \<Rightarrow> string option \<Rightarrow> dMode \<Rightarrow> bool dbg" where
  "SelectTargetTTY exec args auxtty m = only [connected] False (
     dseq (setd (forget_target m)) (\<lambda>_.
     dseq (on_h (gmi_set_exec exec args)) (\<lambda>ok.
     if \<not> ok then dret False
     else dseq (find_tty auxtty m) (\<lambda>t. case t of
         None \<Rightarrow> dret False
       | Some tty \<Rightarrow>
           dseq (on_h (seq (with_name tty mi_target_terminal) (\<lambda>_. mi_res_simple_done))) (\<lambda>ok1.
           if \<not> ok1 then dret False
           else dseq (setd (\<lambda>d. d\<lparr>d_state := target_specified, d_preRun := Some False\<rparr>)) (\<lambda>_. dret True))))))"

definition SelectTargetX11 :: "string \<Rightarrow> string option \<Rightarrow> string option \<Rightarrow> bool dbg" where
  "SelectTargetX11 exec args auxtty = SelectTargetTTY exec args auxtty dmX11"

definition SelectTargetLinux :: "string \<Rightarrow> string option \<Rightarrow> string option \<Rightarrow> bool dbg" where
  "SelectTargetLinux exec args auxtty = SelectTargetTTY exec args auxtty dmLinux"

definition SelectTargetRemote :: "string \<Rightarrow> string \<Rightarrow> string option \<Rightarrow> bool \<Rightarrow> bool dbg" where
  "SelectTargetRemote exec rparams rtype download = only [connected] False (
     dseq (setd (\<lambda>d. (forget_target dmRemote d)\<lparr>d_preRun := Some True\<rparr>)) (\<lambda>_.
     dseq (on_h (if download then gmi_set_exec exec None else gmi_file_symbol_file exec)) (\<lambda>ok.
     if \<not> ok then dret False
     else dseq (on_h (gmi_target_select (case rtype of None \<Rightarrow> ''extended-remote'' | Some t \<Rightarrow> t) rparams)) (\<lambda>ok1.
     if \<not> ok1 then dret False
     else dseq (if download then on_h gmi_target_download else dret True) (\<lambda>ok2.
     if \<not> ok2 then dret False
     else dseq (to_state target_specified) (\<lambda>_. dret True))))))"

definition SelectTargetPID :: "string \<Rightarrow> int \<Rightarrow> mi_frame option dbg" where
  "SelectTargetPID exec p = only [connected] None (
     dseq (setd (\<lambda>d. (forget_target dmPID d)\<lparr>d_preRun := Some False\<rparr>)) (\<lambda>_.
     dseq (on_h (gmi_target_attach p)) (\<lambda>res. case res of
         None \<Rightarrow> dret None
       | Some f \<Rightarrow> dseq (to_state stopped) (\<lambda>_.
           dseq (on_h (gmi_file_symbol_file exec)) (\<lambda>ok.
           if \<not> ok then dseq (call (heap (mi_free_frames [f]))) (\<lambda>_. dret None)
           else dret (Some f))))))"

definition end_aux_tty :: "unit dbg" where
  "end_aux_tty = dseq (getd d_aux_tty) (\<lambda>t. case t of
       None \<Rightarrow> dret ()
     | Some _ \<Rightarrow> dseq (call (gmi_end_aux_term t)) (\<lambda>_. setd (\<lambda>d. d\<lparr>d_aux_tty := None\<rparr>)))"

definition TargetUnselect :: "bool dbg" where
  "TargetUnselect = dseq (field d_mode) (\<lambda>m. dseq (getd d_state) (\<lambda>s.
     dseq (if m = dmX11 \<or> m = dmLinux
           then (if s \<noteq> target_specified then dret False else dseq end_aux_tty (\<lambda>_. dret True))
           else if s \<noteq> target_specified
           then (if s \<noteq> stopped then dret False else on_h gmi_target_detach)
           else dret True) (\<lambda>ok.
     if \<not> ok then dret False else dseq (to_state connected) (\<lambda>_. dret True))))"

section \<open>Execution\<close>

definition Run :: "bool dbg" where
  "Run = only [target_specified] False (moving running (dseq (field d_preRun) (\<lambda>p.
     if p then on_h gmi_exec_continue else on_h gmi_exec_run)))"

definition Stop :: "bool dbg" where
  "Stop = only [running] False (on_h gmi_exec_interrupt)"

definition is_exit :: "mi_stop_reason \<Rightarrow> bool" where
  "is_exit r \<longleftrightarrow> r = sr_exited_signalled \<or> r = sr_exited \<or> r = sr_exited_normally"

text \<open>
  What \<open>Poll\<close> makes of the stop it read. A \<open>NULL\<close> means an error: the program is taken to be stopped.
\<close>

definition take_stop :: "mi_stop option \<Rightarrow> mi_stop option dbg" where
  "take_stop res = (case res of
       Some s \<Rightarrow>
         dseq (if is_exit (st_reason s)
               then dseq (field d_mode) (\<lambda>m. to_state (if m = dmPID then connected else target_specified))
               else to_state stopped) (\<lambda>_.
         dseq (getd d_waiting) (\<lambda>waiting.
         if st_reason s = sr_unknown \<and> waiting
         then dseq (setd (\<lambda>d. d\<lparr>d_waiting := False\<rparr>)) (\<lambda>_. dret (Some (s\<lparr>st_reason := sr_bkpt_hit\<rparr>)))
         else dret (Some s)))
     | None \<Rightarrow>
         dseq (setd (\<lambda>d. if d_state d = running then d\<lparr>d_state := stopped\<rparr> else d)) (\<lambda>_. dret None))"

text \<open>\<open>None\<close> when there is no response yet, otherwise what \<open>rs\<close> is set to.\<close>

definition Poll :: "mi_stop option option dbg" where
  "Poll = only [connected, target_specified, running, stopped] None (dseq (on_h mi_get_response) (\<lambda>r.
     if r = 0 then dret None
     else dseq (on_h mi_res_stop) (\<lambda>res. dseq (take_stop res) (\<lambda>rs. dret (Some rs)))))"

definition Continue :: "bool dbg" where
  "Continue = only [stopped] False (moving running (on_h gmi_exec_continue))"

definition RunOrContinue :: "bool dbg" where
  "RunOrContinue = dseq (getd d_state) (\<lambda>s. if s = target_specified then Run else Continue)"

text \<open>The body of \<open>Kill\<close>: \<open>confirm\<close> is off while the program is killed, and set back after that.\<close>

definition kill_quietly :: "bool com" where
  "kill_quietly = seq (gmi_gdb_show ''confirm'') (\<lambda>prev. case prev of
       None \<Rightarrow> ret False
     | Some p \<Rightarrow>
         if p \<noteq> ''off'' then
           seq (gmi_gdb_set ''confirm'' ''off'') (\<lambda>ok.
           if \<not> ok then seq (heap (c_free (Some p))) (\<lambda>_. ret False)
           else seq gmi_exec_kill (\<lambda>res.
             seq (gmi_gdb_set ''confirm'' p) (\<lambda>_. seq (heap (c_free (Some p))) (\<lambda>_. ret res))))
         else seq (heap (c_free (Some p))) (\<lambda>_. gmi_exec_kill))"

definition Kill_program :: "bool dbg" where
  "Kill_program = only [stopped, running] False (moving target_specified (on_h kill_quietly))"

section \<open>Breakpoints and steps\<close>

definition Breakpoint_line :: "string \<Rightarrow> int \<Rightarrow> mi_bkpt option dbg" where
  "Breakpoint_line file ln = only [stopped, target_specified] None (on_h (gmi_break_insert file ln))"

definition Breakpoint_where ::
    "string \<Rightarrow> bool \<Rightarrow> string option \<Rightarrow> int \<Rightarrow> int \<Rightarrow> bool \<Rightarrow> mi_bkpt option dbg" where
  "Breakpoint_where where_to temporary cnd count thread hard_assist =
     only [stopped, target_specified] None
       (on_h (gmi_break_insert_full temporary hard_assist cnd count thread where_to))"

definition maxWhere :: nat where "maxWhere = PATH_MAX + 256"

definition named_string :: "string option \<Rightarrow> string dbg" where
  "named_string s d c = (case s of None \<Rightarrow> Inl (Library Null_deref) | Some t \<Rightarrow> Inr ((t, d), c))"

text \<open>Where a breakpoint was, in the form its mode asks for.\<close>

definition bkpt_where :: "mi_bkpt \<Rightarrow> string dbg" where
  "bkpt_where b = (case bk_mode b of
       m_file_line \<Rightarrow> dseq (named_string (bk_file b)) (\<lambda>f. dret (f @ '':'' @ dec (bk_line b)))
     | m_function \<Rightarrow> named_string (bk_func b)
     | m_file_function \<Rightarrow> dseq (named_string (bk_file b)) (\<lambda>f.
         dseq (named_string (bk_func b)) (\<lambda>g. dret (f @ '':'' @ g)))
     | m_address \<Rightarrow> dret (''*'' @ ptr (bk_addr b)))"

definition Breakpoint_again :: "mi_bkpt \<Rightarrow> mi_bkpt option dbg" where
  "Breakpoint_again b = only [stopped, target_specified] None (dseq (bkpt_where b) (\<lambda>buf.
     Breakpoint_where (take (maxWhere - 1) buf) (bk_disp b = d_del) (bk_cond b) (bk_ignore b)
       (bk_thread b) (bk_type b = t_hw)))"

definition BreakpointFull ::
    "string \<Rightarrow> int \<Rightarrow> bool \<Rightarrow> string option \<Rightarrow> int \<Rightarrow> int \<Rightarrow> bool \<Rightarrow> mi_bkpt option dbg" where
  "BreakpointFull file ln temporary cnd count thread hard_assist =
     only [stopped, target_specified] None
       (on_h (gmi_break_insert_full_fl file ln temporary hard_assist cnd count thread))"

definition BreakDelete :: "mi_bkpt option \<Rightarrow> bool dbg" where
  "BreakDelete b = only [stopped, target_specified] False (case b of
       None \<Rightarrow> dret False | Some x \<Rightarrow> on_h (gmi_break_delete (bk_number x)))"

definition BreakAfter :: "mi_bkpt \<Rightarrow> bool dbg" where
  "BreakAfter b = only [target_specified, stopped] False (on_h (gmi_break_set_times (bk_number b) (bk_ignore b)))"

definition Watchpoint :: "mi_wp_mode \<Rightarrow> string \<Rightarrow> mi_wp option dbg" where
  "Watchpoint mode exp = only [stopped, target_specified] None (on_h (gmi_break_watch mode exp))"

definition WatchDelete :: "mi_wp option \<Rightarrow> bool dbg" where
  "WatchDelete w = only [stopped, target_specified] False (case w of
       None \<Rightarrow> dret False | Some x \<Rightarrow> on_h (gmi_break_delete (wp_number x)))"

text \<open>A temporary breakpoint, and off: what \<open>RunToMain\<close> and both versions of \<open>GoTo\<close> do before the program runs.\<close>

definition run_to :: "string \<Rightarrow> bool dbg" where
  "run_to place = dseq (Breakpoint_where place True None (- 1) (- 1) False) (\<lambda>b. case b of
       None \<Rightarrow> dret False
     | Some x \<Rightarrow> dseq (call (heap (mi_free_bkpt [x]))) (\<lambda>_.
         dseq (setd (\<lambda>d. d\<lparr>d_waiting := True\<rparr>)) (\<lambda>_. Run)))"

definition RunToMain :: "bool dbg" where
  "RunToMain = only [target_specified] False (dseq (call mi_get_main_func) run_to)"

text \<open>One thing when the program has not started, another when it is stopped, else fail.\<close>

definition by_state :: "bool dbg \<Rightarrow> bool dbg \<Rightarrow> bool dbg" where
  "by_state fresh halted = dseq (getd d_state) (\<lambda>s.
     if s = target_specified then fresh else if s = stopped then halted else dret False)"

definition StepOver :: "bool \<Rightarrow> bool dbg" where
  "StepOver inst = by_state RunToMain
     (moving running (on_h (if inst then gmi_exec_next_instruction else gmi_exec_next)))"

definition TraceInto :: "bool \<Rightarrow> bool dbg" where
  "TraceInto inst = by_state RunToMain
     (moving running (on_h (if inst then gmi_exec_step_instruction else gmi_exec_step)))"

definition GoTo_line :: "string \<Rightarrow> int \<Rightarrow> bool dbg" where
  "GoTo_line file ln = by_state (run_to (file @ '':'' @ dec ln))
     (moving running (on_h (gmi_exec_until (Some file) ln)))"

definition GoTo_addr :: "64 word \<Rightarrow> bool dbg" where
  "GoTo_addr addr = by_state (run_to (''*'' @ ptr addr)) (moving running (on_h (gmi_exec_until_addr addr)))"

definition FinishFun :: "bool dbg" where
  "FinishFun = only [stopped] False (moving running (on_h gmi_exec_finish))"

definition ReturnNow :: "mi_frame option dbg" where
  "ReturnNow = only [stopped] None (on_h gmi_exec_return)"

section \<open>Data\<close>

text \<open>The arguments of the second list go to the frames of the first, as far as both reach.\<close>

fun move_args :: "mi_frame list \<Rightarrow> mi_frame list \<Rightarrow> mi_frame list \<times> mi_frame list" where
  "move_args (p # ps) (q # qs) = (let (ps1, qs1) = move_args ps qs in
     (p\<lparr>fr_args := fr_args q\<rparr> # ps1, q\<lparr>fr_args := []\<rparr> # qs1))"
| "move_args ps qs = (ps, qs)"

text \<open>NULL, the empty list, is no error of the caller here.\<close>

definition CallStack :: "bool \<Rightarrow> mi_frame list dbg" where
  "CallStack args = only [stopped] [] (dseq (on_h gmi_stack_list_frames) (\<lambda>fr1.
     if fr1 \<noteq> [] \<and> args
     then dseq (on_h (gmi_stack_list_arguments 1)) (\<lambda>fr2.
       if fr2 \<noteq> []
       then (let (fr1', fr2') = move_args fr1 fr2 in
             dseq (call (heap (mi_free_frames fr2'))) (\<lambda>_. dret fr1'))
       else dret fr1)
     else dret fr1))"

abbreviation idle :: "eState list" where
  "idle \<equiv> [connected, target_specified, stopped]"

text \<open>The value, or the message of gdb when there is none.\<close>

definition value_or_message :: "string \<Rightarrow> string option com" where
  "value_or_message exp = seq (gmi_data_evaluate_expression exp) (\<lambda>res.
     seq (ask mi_error_from_gdb) (\<lambda>m. case (res, m) of
         (None, Some s) \<Rightarrow> dup s
       | _ \<Rightarrow> ret res))"

definition EvalExpression :: "string \<Rightarrow> string option dbg" where
  "EvalExpression exp = only idle None (dseq (call (set_error MI_OK)) (\<lambda>_. on_h (value_or_message exp)))"

definition ModifyExpression :: "string \<Rightarrow> string \<Rightarrow> string option dbg" where
  "ModifyExpression exp newVal = only idle None (on_h (value_or_message (exp @ ''='' @ newVal)))"

definition Send :: "string \<Rightarrow> bool dbg" where
  "Send s = only idle False (on_h (seq (cmd s) (\<lambda>_. mi_res_simple_done)))"

definition fill_type :: "mi_gvar \<Rightarrow> (bool \<times> mi_gvar) dbg" where
  "fill_type v = (if gv_type (gv_own v) = None then on_h (gmi_var_info_type v) else dret (True, v))"

definition fill_value :: "mi_gvar \<Rightarrow> (bool \<times> mi_gvar) dbg" where
  "fill_value v = (if gv_value (gv_own v) = None then on_h (gmi_var_evaluate_expression v) else dret (True, v))"

text \<open>The list is the chain of \<open>next\<close> pointers. There is no test of the state.\<close>

fun FillTypeVal :: "mi_gvar list \<Rightarrow> (bool \<times> mi_gvar list) dbg" where
  "FillTypeVal [] = dret (True, [])"
| "FillTypeVal (v # vs) = dseq (fill_type v) (\<lambda>(ok, v1).
     if \<not> ok then dret (False, v1 # vs)
     else dseq (fill_value v1) (\<lambda>(ok1, v2).
     if \<not> ok1 then dret (False, v2 # vs)
     else dseq (FillTypeVal vs) (\<lambda>(ok2, vs1). dret (ok2, v2 # vs1))))"

definition FillOneTypeVal :: "mi_gvar option \<Rightarrow> (bool \<times> mi_gvar option) dbg" where
  "FillOneTypeVal var = (case var of
       None \<Rightarrow> dret (False, None)
     | Some v \<Rightarrow>
         dseq (fill_type v) (\<lambda>(ok, v1).
         dseq (if ok then dret v1 else dseq (call (dup [])) (\<lambda>t. dret (set_own (\<lambda>g. g\<lparr>gv_type := t\<rparr>) v1))) (\<lambda>v2.
         dseq (fill_value v2) (\<lambda>(ok1, v3).
         dseq (if ok1 then dret v3 else dseq (call (dup [])) (\<lambda>t. dret (set_own (\<lambda>g. g\<lparr>gv_value := t\<rparr>) v3))) (\<lambda>v4.
         dret (ok \<and> ok1, Some v4))))))"

text \<open>A method that changes a variable returns it with the result; refused, it returns the one it got.\<close>

definition on_var :: "mi_gvar \<Rightarrow> (bool \<times> mi_gvar) com \<Rightarrow> (bool \<times> mi_gvar) dbg" where
  "on_var var m = only [stopped] (False, var) (on_h m)"

definition AssigngVar :: "mi_gvar \<Rightarrow> string \<Rightarrow> (bool \<times> mi_gvar) dbg" where
  "AssigngVar var exp = on_var var (gmi_var_assign var exp)"

definition AddgVar :: "string \<Rightarrow> int \<Rightarrow> mi_gvar option dbg" where
  "AddgVar exp frame = only [stopped] None (on_h (gmi_full_var_create frame exp))"

definition DelgVar :: "mi_gvar \<Rightarrow> bool dbg" where
  "DelgVar var = only [stopped] False (on_h (gmi_var_delete var))"

definition EvalgVar :: "mi_gvar \<Rightarrow> (bool \<times> mi_gvar) dbg" where
  "EvalgVar var = on_var var (gmi_var_evaluate_expression var)"

definition GetChildgVar :: "mi_gvar \<Rightarrow> (bool \<times> mi_gvar) dbg" where
  "GetChildgVar var = on_var var (gmi_var_list_children var)"

definition FillAttr :: "mi_gvar \<Rightarrow> (bool \<times> mi_gvar) dbg" where
  "FillAttr var = on_var var (gmi_var_show_attributes var)"

definition FillFormat :: "mi_gvar \<Rightarrow> (bool \<times> mi_gvar) dbg" where
  "FillFormat var = on_var var (gmi_var_show_format var)"

definition SetFormatgVar :: "mi_gvar \<Rightarrow> mi_gvar_fmt \<Rightarrow> (bool \<times> mi_gvar) dbg" where
  "SetFormatgVar var format = on_var var (gmi_var_set_format var format)"

definition ListChangedgVar :: "(int \<times> mi_gvar_chg list option) dbg" where
  "ListChangedgVar = only [stopped] (0, None) (on_h (gmi_var_update None))"

definition Version :: "bool dbg" where
  "Version = only idle False (on_h gmi_gdb_version)"

definition PathSources :: "string option \<Rightarrow> bool dbg" where
  "PathSources path = only idle False (on_h (gmi_dir path))"

text \<open>\<open>None\<close>: refused, nothing is written.\<close>

definition ReadMemory :: "string \<Rightarrow> 32 word \<Rightarrow> 8 word list \<Rightarrow> bool \<Rightarrow> bool \<Rightarrow> (bool \<times> mem_state) option dbg" where
  "ReadMemory exp sz dest convAddr want = only [stopped] None
     (dseq (on_h (gmi_read_memory exp sz dest convAddr want)) (\<lambda>r. dret (Some r)))"

text \<open>The answer to \<open>show\<close>, or what gdb wrote on its console instead.\<close>

definition show_caught :: "string \<Rightarrow> string option com" where
  "show_caught var =
     seq (hand (\<lambda>h. h\<lparr>catch_console := 1\<rparr>)) (\<lambda>_.
     seq (ask (\<lambda>c. catched_console (c_h c))) (\<lambda>old.
     seq (heap (c_free old)) (\<lambda>_.
     seq (hand (\<lambda>h. h\<lparr>catched_console := None\<rparr>)) (\<lambda>_.
     seq (gmi_gdb_show var) (\<lambda>res.
     seq (hand (\<lambda>h. h\<lparr>catch_console := 0\<rparr>)) (\<lambda>_.
     seq (ask (\<lambda>c. catched_console (c_h c))) (\<lambda>caught.
     if res = None \<and> caught \<noteq> None
     then seq (hand (\<lambda>h. h\<lparr>catched_console := None\<rparr>)) (\<lambda>_. ret caught)
     else ret res)))))))"

definition Show :: "string \<Rightarrow> string option dbg" where
  "Show var = only idle None (on_h (show_caught var))"

fun strstr :: "string \<Rightarrow> string \<Rightarrow> bool" where
  "strstr [] p = (p = [])"
| "strstr (c # s) p = (take (length p) (c # s) = p \<or> strstr s p)"

definition endian_of :: "string \<Rightarrow> endianType" where
  "endian_of s = (if strstr s ''big'' then enBig else if strstr s ''little'' then enLittle else enUnknown)"

definition arch_of :: "string \<Rightarrow> archType" where
  "arch_of s = (if strstr s ''i386'' then arIA32 else if strstr s ''sparc'' then arSPARC
     else if strstr s ''pic14'' then arPIC14 else if strstr s ''avr'' then arAVR else arUnknown)"

definition GetTargetEndian :: "endianType dbg" where
  "GetTargetEndian = dseq (getd d_endian) (\<lambda>e.
     if e \<noteq> enUnknown then dret e
     else only [stopped, target_specified] enUnknown (dseq (Show ''endian'') (\<lambda>r. case r of
         None \<Rightarrow> dret enUnknown
       | Some s \<Rightarrow> dseq (setd (\<lambda>d. d\<lparr>d_endian := endian_of s\<rparr>)) (\<lambda>_.
           dseq (call (heap (c_free (Some s)))) (\<lambda>_. dret (endian_of s))))))"

definition GetTargetArchitecture :: "archType dbg" where
  "GetTargetArchitecture = dseq (getd d_arch) (\<lambda>a.
     if a \<noteq> arUnknown then dret a
     else only [stopped, target_specified] arUnknown (dseq (Show ''architecture'') (\<lambda>r. case r of
         None \<Rightarrow> dret arUnknown
       | Some s \<Rightarrow> dseq (setd (\<lambda>d. d\<lparr>d_arch := arch_of s\<rparr>)) (\<lambda>_.
           dseq (call (heap (c_free (Some s)))) (\<lambda>_. dret (arch_of s))))))"

definition ThreadListIDs :: "(int \<times> int list option) dbg" where
  "ThreadListIDs = only [stopped] (0, None) (on_h gmi_thread_list_ids)"

definition ThreadList :: "mi_frame list dbg" where
  "ThreadList = only [stopped] [] (on_h gmi_thread_list_all_threads)"

definition ThreadSelect :: "int \<Rightarrow> mi_frame option dbg" where
  "ThreadSelect tid = only [stopped] None (on_h (gmi_thread_select tid))"

definition Disassemble_range :: "string \<Rightarrow> string \<Rightarrow> int \<Rightarrow> mi_asm_insns list dbg" where
  "Disassemble_range start stop mode = only [stopped] [] (on_h (gmi_data_disassemble_se start stop mode))"

definition Disassemble_lines :: "string \<Rightarrow> int \<Rightarrow> int \<Rightarrow> int \<Rightarrow> mi_asm_insns list dbg" where
  "Disassemble_lines file ln lns mode = only [stopped] [] (on_h (gmi_data_disassemble_fl file ln lns mode))"

definition GetRegisterNames :: "mi_chg_reg list dbg" where
  "GetRegisterNames = only [target_specified, stopped] [] (on_h gmi_data_list_register_names)"

definition GetRegisterNames_of :: "mi_chg_reg list \<Rightarrow> (bool \<times> mi_chg_reg list) dbg" where
  "GetRegisterNames_of chg = only [target_specified, stopped] (False, chg) (on_h (gmi_data_list_register_names_l chg))"

definition GetRegisterValues_of :: "mi_chg_reg list \<Rightarrow> (bool \<times> mi_chg_reg list) dbg" where
  "GetRegisterValues_of chg = only [stopped] (False, chg) (on_h (gmi_data_list_register_values fm_natural chg))"

definition GetRegisterValues :: "(mi_chg_reg list \<times> int) option dbg" where
  "GetRegisterValues = only [stopped] None
     (dseq (on_h (gmi_data_list_all_register_values fm_natural)) (\<lambda>r. dret (Some r)))"

definition GetChangedRegisters :: "mi_chg_reg list dbg" where
  "GetChangedRegisters = only [stopped] [] (dseq (on_h gmi_data_list_changed_registers) (\<lambda>chg.
     if chg = [] then dret []
     else dseq (on_h (gmi_data_list_register_values fm_natural chg)) (\<lambda>(ok, chg1).
       if ok then dret chg1 else dseq (call (heap (mi_free_chg_reg chg1))) (\<lambda>_. dret []))))"

text \<open>The first of the changed registers with a number gives its value away.\<close>

fun give_value :: "int \<Rightarrow> mi_chg_reg list \<Rightarrow> (string option \<times> mi_chg_reg list) option" where
  "give_value n [] = None"
| "give_value n (c # cs) = (if rg_reg c = n then Some (rg_val c, c\<lparr>rg_val := None\<rparr> # cs)
     else map_option (\<lambda>(v, cs1). (v, c # cs1)) (give_value n cs))"

fun update_all :: "mi_chg_reg list \<Rightarrow> mi_chg_reg list \<Rightarrow> world \<Rightarrow> int \<times> mi_chg_reg list \<times> world" where
  "update_all [] chg w = (0, [], w)"
| "update_all (r # rs) chg w = (case give_value (rg_reg r) chg of
       None \<Rightarrow> (let (n, rs1, w1) = update_all rs chg w in (n, r\<lparr>rg_updated := False\<rparr> # rs1, w1))
     | Some (v, chg1) \<Rightarrow> (let (n, rs1, w1) = update_all rs chg1 (c_free (rg_val r) w) in
         (n + 1, r\<lparr>rg_updated := True, rg_val := v\<rparr> # rs1, w1)))"

text \<open>The list of the changed registers is not released.\<close>

definition UpdateRegisters :: "mi_chg_reg list \<Rightarrow> (int \<times> mi_chg_reg list) dbg" where
  "UpdateRegisters regs = dseq GetChangedRegisters (\<lambda>chg.
     if chg = [] then dret (0, regs)
     else call (on_w (\<lambda>w. let (n, regs1, w1) = update_all regs chg w in Inr ((n, regs1), w1))))"

section \<open>Methods with no test of the state\<close>

definition GetState :: "eState dbg" where
  "GetState = getd d_state"

definition GetAuxTTY :: "string option dbg" where
  "GetAuxTTY = dseq (getd d_aux_tty) (\<lambda>t. dret (case t of None \<Rightarrow> None | Some x \<Rightarrow> at_tty x))"

definition SetGDBExe :: "string option \<Rightarrow> unit dbg" where "SetGDBExe name = call (mi_set_gdb_exe name)"
definition GetGDBExe :: "string dbg" where "GetGDBExe = call mi_get_gdb_exe"
definition SetXTermExe :: "string option \<Rightarrow> unit dbg" where "SetXTermExe name = call (mi_set_xterm_exe name)"
definition GetXTermExe :: "string dbg" where "GetXTermExe = call mi_get_xterm_exe"
definition SetGDBStartFile :: "string option \<Rightarrow> unit dbg" where "SetGDBStartFile name = call (mi_set_gdb_start name)"
definition GetGDBStartFile :: "string option dbg" where "GetGDBStartFile = call mi_get_gdb_start"
definition SetGDBConnFile :: "string option \<Rightarrow> unit dbg" where "SetGDBConnFile name = call (mi_set_gdb_conn name)"
definition GetGDBConnFile :: "string option dbg" where "GetGDBConnFile = call mi_get_gdb_conn"
definition SetMainFunc :: "string option \<Rightarrow> unit dbg" where "SetMainFunc name = call (mi_set_main_func name)"
definition GetMainFunc :: "string dbg" where "GetMainFunc = call mi_get_main_func"

definition GetErrorStr :: "string dbg" where "GetErrorStr = call (ask (\<lambda>c. mi_get_error_str (c_w c)))"
definition GetGDBError :: "string option dbg" where "GetGDBError = call (ask mi_error_from_gdb)"
definition GetErrorNumber :: "nat dbg" where "GetErrorNumber = call (ask (\<lambda>c. mi_error (c_w c)))"

definition SetConsoleCB :: "nat option \<Rightarrow> nat \<Rightarrow> unit dbg" where
  "SetConsoleCB cb data = on_h (mi_set_console_cb cb data)"

definition SetTargetCB :: "nat option \<Rightarrow> nat \<Rightarrow> unit dbg" where
  "SetTargetCB cb data = on_h (mi_set_target_cb cb data)"

definition SetLogCB :: "nat option \<Rightarrow> nat \<Rightarrow> unit dbg" where
  "SetLogCB cb data = on_h (mi_set_log_cb cb data)"

definition SetAsyncCB :: "nat option \<Rightarrow> nat \<Rightarrow> unit dbg" where
  "SetAsyncCB cb data = on_h (mi_set_async_cb cb data)"

definition SetToGDBCB :: "nat option \<Rightarrow> nat \<Rightarrow> unit dbg" where
  "SetToGDBCB cb data = on_h (mi_set_to_gdb_cb cb data)"

definition SetFromGDBCB :: "nat option \<Rightarrow> nat \<Rightarrow> unit dbg" where
  "SetFromGDBCB cb data = on_h (mi_set_from_gdb_cb cb data)"

definition SetTimeOutCB :: "nat option \<Rightarrow> nat \<Rightarrow> unit dbg" where
  "SetTimeOutCB cb data = on_h (mi_set_time_out_cb cb data)"

definition SetTimeOut :: "int \<Rightarrow> unit dbg" where
  "SetTimeOut n = on_h (mi_set_time_out n)"

definition ForceMIVersion :: "32 word \<Rightarrow> 32 word \<Rightarrow> 32 word \<Rightarrow> unit dbg" where
  "ForceMIVersion vMajor vMiddle vMinor = on_h (mi_force_version vMajor vMiddle vMinor)"

text \<open>When gdb has died the target and the connection are given up, whatever the state is.\<close>

definition GetErrorNumberSt :: "nat dbg" where
  "GetErrorNumberSt = dseq GetErrorNumber (\<lambda>e.
     dseq (if e = MI_GDB_DIED
           then dseq (to_state target_specified) (\<lambda>_. dseq TargetUnselect (\<lambda>_.
                dseq (to_state connected) (\<lambda>_. dseq Disconnect (\<lambda>_. dret ()))))
           else dret ()) (\<lambda>_. GetErrorNumber))"

section \<open>The destructor\<close>

text \<open>
  \<open>while (!Poll(rs));\<close> Nothing bounds the number of turns: a run that does not end is \<open>None\<close>.
\<close>

partial_function (option) poll_until ::
    "debugger \<Rightarrow> conn \<Rightarrow> (misuse + ((mi_stop option \<times> debugger) \<times> conn)) option" where
  "poll_until d c = (case Poll d c of
       Inl e \<Rightarrow> Some (Inl e)
     | Inr ((None, d1), c1) \<Rightarrow> poll_until d1 c1
     | Inr ((Some rs, d1), c1) \<Rightarrow> Some (Inr ((rs, d1), c1)))"

text \<open>The first step of the destructor, for a program that still runs.\<close>

definition halt_program :: "debugger \<Rightarrow> conn \<Rightarrow> (misuse + ((unit \<times> debugger) \<times> conn)) option" where
  "halt_program d c =
     (if d_state d \<noteq> running then Some (dret () d c)
      else case Stop d c of
        Inl e \<Rightarrow> Some (Inl e)
      | Inr ((_, d1), c1) \<Rightarrow>
          map_option (\<lambda>r. case r of
              Inl e \<Rightarrow> Inl e
            | Inr ((rs, d2), c2) \<Rightarrow>
                dseq (call (heap (mi_free_stop rs))) (\<lambda>_. to_state stopped) d2 c2) (poll_until d1 c1))"

definition in_state :: "eState \<Rightarrow> unit dbg \<Rightarrow> unit dbg" where
  "in_state s m = dseq (getd d_state) (\<lambda>t. if t = s then m else dret ())"

text \<open>The other steps: each undoes one state, whether its method succeeds or not.\<close>

definition wind_down :: "unit dbg" where
  "wind_down =
     dseq (in_state stopped (dseq Kill_program (\<lambda>_. to_state target_specified))) (\<lambda>_.
     dseq (in_state target_specified (dseq TargetUnselect (\<lambda>_. to_state connected))) (\<lambda>_.
     in_state connected (dseq Disconnect (\<lambda>_. dret ()))))"

definition destroy :: "debugger \<Rightarrow> conn \<Rightarrow> (misuse + ((unit \<times> debugger) \<times> conn)) option" where
  "destroy d c = map_option (\<lambda>r. case r of Inl e \<Rightarrow> Inl e | Inr ((_, d1), c1) \<Rightarrow> wind_down d1 c1)
     (halt_program d c)"

end
