(* ===== verification/MI_Methods.thy ===== *)
theory MI_Methods
  imports MI_Debugger
begin

text \<open>
  What the methods of \<open>MIDebugger\<close> have in common: each has the states in which it acts and the moves of
  the state it can make. An object that is used as its documentation says is always well wired,
  and then no method uses a handle that is not there or a field that was never set.
\<close>

section \<open>Methods that leave the object alone\<close>

definition steady :: "'a dbg \<Rightarrow> bool" where
  "steady m \<longleftrightarrow> (\<forall>d c. d_h d = Live_h \<longrightarrow>
     (case m d c of Inl e \<Rightarrow> \<exists>f. e = Library f | Inr ((x, d1), c1) \<Rightarrow> d1 = d))"

lemma steadyI:
  assumes "\<And>d c e. d_h d = Live_h \<Longrightarrow> m d c = Inl e \<Longrightarrow> \<exists>f. e = Library f"
    and "\<And>d c x d1 c1. d_h d = Live_h \<Longrightarrow> m d c = Inr ((x, d1), c1) \<Longrightarrow> d1 = d"
  shows "steady m"
  using assms unfolding steady_def by (fastforce split: sum.split)

lemma steadyD:
  "steady m \<Longrightarrow> d_h d = Live_h \<Longrightarrow> m d c = Inl e \<Longrightarrow> \<exists>f. e = Library f"
  "steady m \<Longrightarrow> d_h d = Live_h \<Longrightarrow> m d c = Inr ((x, d1), c1) \<Longrightarrow> d1 = d"
proof -
  have "case m d c of Inl e \<Rightarrow> \<exists>f. e = Library f | Inr ((x, d1), c1) \<Rightarrow> d1 = d"
    if "steady m" "d_h d = Live_h"
    using that by (simp add: steady_def)
  then show "steady m \<Longrightarrow> d_h d = Live_h \<Longrightarrow> m d c = Inl e \<Longrightarrow> \<exists>f. e = Library f"
    "steady m \<Longrightarrow> d_h d = Live_h \<Longrightarrow> m d c = Inr ((x, d1), c1) \<Longrightarrow> d1 = d"
    by auto
qed

lemma dseq_Inl: "dseq m f d c = Inl e \<longleftrightarrow>
    m d c = Inl e \<or> (\<exists>x d1 c1. m d c = Inr ((x, d1), c1) \<and> f x d1 c1 = Inl e)"
  by (auto simp: dseq_def split: sum.splits prod.splits)

lemma dseq_Inr: "dseq m f d c = Inr y \<longleftrightarrow> (\<exists>x d1 c1. m d c = Inr ((x, d1), c1) \<and> f x d1 c1 = Inr y)"
  by (auto simp: dseq_def split: sum.splits prod.splits)

lemma steady_dret: "steady (dret x)" and steady_getd: "steady (getd g)"
  by (auto simp: steady_def dbg_defs)

lemma steady_call: "steady (call k)" and steady_on_h: "steady (on_h k)"
  by (auto simp: steady_def call_def on_h_def split: sum.splits)

lemma steady_only: "steady m \<Longrightarrow> steady (only S no m)"
  by (auto simp: steady_def only_def)

lemma steady_dseq:
  assumes "steady m" and "\<And>x. steady (f x)"
  shows "steady (dseq m f)"
proof (rule steadyI)
  fix d c e assume d: "d_h d = Live_h" and "dseq m f d c = Inl e"
  then consider "m d c = Inl e" | x d1 c1 where "m d c = Inr ((x, d1), c1)" "f x d1 c1 = Inl e"
    by (auto simp: dseq_Inl)
  then show "\<exists>g. e = Library g"
  proof cases
    case 1
    with assms(1) d show ?thesis by (rule steadyD)
  next
    case (2 x d1 c1)
    from steadyD(2) [OF assms(1) d 2(1)] have "d1 = d" .
    with 2(2) steadyD(1) [OF assms(2) d] show ?thesis by blast
  qed
next
  fix d c y d2 c2 assume d: "d_h d = Live_h" and "dseq m f d c = Inr ((y, d2), c2)"
  then obtain x d1 c1 where 1: "m d c = Inr ((x, d1), c1)" "f x d1 c1 = Inr ((y, d2), c2)"
    by (auto simp: dseq_Inr)
  from steadyD(2) [OF assms(1) d 1(1)] have "d1 = d" .
  with 1(2) steadyD(2) [OF assms(2) d] show "d2 = d" by blast
qed

lemma steady_if: "(b \<Longrightarrow> steady m) \<Longrightarrow> (\<not> b \<Longrightarrow> steady m') \<Longrightarrow> steady (if b then m else m')"
  by simp

lemma steady_option:
  "(p = None \<Longrightarrow> steady m) \<Longrightarrow> (\<And>x. p = Some x \<Longrightarrow> steady (f x)) \<Longrightarrow>
     steady (case p of None \<Rightarrow> m | Some x \<Rightarrow> f x)"
  by (cases p) simp_all

lemma steady_prod: "(\<And>x y. p = (x, y) \<Longrightarrow> steady (f x y)) \<Longrightarrow> steady (case p of (x, y) \<Rightarrow> f x y)"
  by (cases p) simp

lemma steady_let: "steady (f x) \<Longrightarrow> steady (Let x f)"
  by simp

lemma steady_named: "steady (named_string s)"
  by (auto simp: steady_def named_string_def split: option.splits)

lemma steady_where: "steady (bkpt_where b)"
  unfolding bkpt_where_def
  by (cases "bk_mode b") (simp_all add: steady_dseq steady_named steady_dret)

lemmas steady_intros = steady_dret steady_getd steady_call steady_on_h steady_only steady_dseq
  steady_if steady_option steady_prod steady_let steady_named steady_where

lemma steady_types: "steady (fill_type v)" "steady (fill_value v)" "steady (FillTypeVal vs)"
  "steady (FillOneTypeVal var)"
proof -
  show one: "steady (fill_type v)" "steady (fill_value v)" for v
    unfolding fill_type_def fill_value_def by (intro steady_intros)+
  show "steady (FillTypeVal vs)"
    by (induction vs) (auto intro!: steady_intros one)
  show "steady (FillOneTypeVal var)"
    unfolding FillOneTypeVal_def by (intro steady_intros one)
qed

section \<open>What every method keeps\<close>

text \<open>The handle is there exactly when the object is connected; a target has a mode and \<open>preRun\<close>.\<close>

definition wired :: "debugger \<Rightarrow> bool" where
  "wired d \<longleftrightarrow> (connected \<le> d_state d \<longleftrightarrow> d_h d = Live_h) \<and>
     (target_specified \<le> d_state d \<longrightarrow> d_mode d \<noteq> None \<and> d_preRun d \<noteq> None)"

lemmas state_order = less_eq_eState_def less_eState_def

definition acts_well :: "(eState \<times> eState) list \<Rightarrow> debugger \<Rightarrow> misuse + (('a \<times> debugger) \<times> conn) \<Rightarrow> bool" where
  "acts_well M d r \<longleftrightarrow> (case r of
       Inl e \<Rightarrow> \<exists>f. e = Library f
     | Inr ((_, d1), _) \<Rightarrow> wired d1 \<and> (d_state d1 = d_state d \<or> (d_state d, d_state d1) \<in> set M))"

lemma acts_well_simps [simp]:
  "acts_well M d (Inl e) \<longleftrightarrow> (\<exists>f. e = Library f)"
  "acts_well M d (Inr ((x, d1), c1)) \<longleftrightarrow> wired d1 \<and> (d_state d1 = d_state d \<or> (d_state d, d_state d1) \<in> set M)"
  by (simp_all add: acts_well_def)

lemma acts_well_from: "d_state d = d_state d1 \<Longrightarrow> acts_well M d r = acts_well M d1 r"
  by (cases r) (auto simp: acts_well_def)

locale operation =
  fixes m :: "bool dbg" and S :: "eState list" and M :: "(eState \<times> eState) list"
  assumes refused: "d_state d \<notin> set S \<Longrightarrow> m d c = Inr ((False, d), c)"
    and acts: "wired d \<Longrightarrow> d_state d \<in> set S \<Longrightarrow> acts_well M d (m d c)"
begin

lemma well: "wired d \<Longrightarrow> acts_well M d (m d c)"
  using acts refused by (cases "d_state d \<in> set S") simp_all

lemma no_misuse: "wired d \<Longrightarrow> m d c = Inl e \<Longrightarrow> \<exists>f. e = Library f"
  using well [of d c] by simp

lemma keeps_wired: "wired d \<Longrightarrow> m d c = Inr ((x, d1), c1) \<Longrightarrow> wired d1"
  using well [of d c] by simp

lemma move: "wired d \<Longrightarrow> m d c = Inr ((x, d1), c1) \<Longrightarrow>
    d_state d1 = d_state d \<or> (d_state d, d_state d1) \<in> set M"
  using well [of d c] by simp

end

text \<open>A result as the method's documentation reads it: 0 and NULL are failures.\<close>

definition worked :: "('a \<Rightarrow> bool) \<Rightarrow> 'a dbg \<Rightarrow> bool dbg" where
  "worked f m = dseq m (\<lambda>x. dret (f x))"

lemma acts_dseq:
  assumes "acts_well M d (m d c)"
    and "\<And>x d1 c1. m d c = Inr ((x, d1), c1) \<Longrightarrow> wired d1 \<Longrightarrow> d_state d1 = d_state d \<or> (d_state d, d_state d1) \<in> set M
      \<Longrightarrow> acts_well M d (f x d1 c1)"
  shows "acts_well M d (dseq m f d c)"
  using assms by (auto simp: dseq_def split: sum.splits)

lemma worked_acts: "acts_well M d (m d c) \<Longrightarrow> acts_well M d (worked f m d c)"
  unfolding worked_def by (rule acts_dseq) (simp_all add: dret_def)

lemma steady_acts: "steady m \<Longrightarrow> wired d \<Longrightarrow> connected \<le> d_state d \<Longrightarrow> acts_well M d (m d c)"
  using steadyD [of m d c] by (cases "m d c") (auto simp: wired_def)

lemma worked_id [simp]: "worked (\<lambda>x. x) m = m"
  by (intro ext) (auto simp: worked_def dseq_def dret_def split: sum.splits)

lemma moving_acts:
  assumes "steady m" and "wired d" and "target_specified \<le> d_state d" and "target_specified \<le> s"
    and "(d_state d, s) \<in> set M"
  shows "acts_well M d (moving s m d c)"
proof -
  have live: "d_h d = Live_h" using assms(2,3) by (cases "d_state d") (auto simp: wired_def state_order)
  show ?thesis
    using steadyD [OF assms(1) live, of c] assms(2-5)
    by (cases "m d c") (auto simp: moving_def dseq_def dret_def to_state_def setd_def wired_def state_order)
qed

lemma worked_operation:
  assumes "\<not> f no" and "\<And>d c. wired d \<Longrightarrow> d_state d \<in> set S \<Longrightarrow> acts_well M d (m d c)"
  shows "operation (worked f (only S no m)) S M"
proof
  fix d :: debugger and c :: conn
  show "worked f (only S no m) d c = Inr ((False, d), c)" if "d_state d \<notin> set S"
    using that assms(1) by (simp add: worked_def only_def dseq_def dret_def)
  show "acts_well M d (worked f (only S no m) d c)" if "wired d" "d_state d \<in> set S"
    using that assms(2) by (intro worked_acts) (simp add: only_def)
qed

lemmas only_operation = worked_operation [where f = "\<lambda>x. x" and no = False, unfolded worked_id, simplified]

lemma query_operation:
  assumes "steady m" and "\<not> f no" and "\<forall>s\<in>set S. connected \<le> s"
  shows "operation (worked f (only S no m)) S []"
  using assms by (intro worked_operation steady_acts) auto

lemma moving_operation:
  assumes "steady m" and "\<forall>s\<in>set S. target_specified \<le> s" and "target_specified \<le> t"
  shows "operation (only S False (moving t m)) S (map (\<lambda>s. (s, t)) S)"
  using assms by (intro only_operation moving_acts) auto

section \<open>The methods one by one\<close>

lemma Run_acts:
  assumes "wired d" and "d_state d = target_specified"
  shows "acts_well [(target_specified, running)] d (Run d c)"
proof -
  obtain p where p: "d_preRun d = Some p" and live: "d_h d = Live_h"
    using assms by (auto simp: wired_def state_order)
  have "Run d c = moving running (if p then on_h gmi_exec_continue else on_h gmi_exec_run) d c"
    by (simp add: Run_def only_def moving_def dseq_def field_def p assms(2))
  then show ?thesis
    using assms by (auto intro!: moving_acts steady_intros simp: state_order)
qed

lemma steady_break: "steady (Breakpoint_where place temporary cnd count thread hard_assist)"
  unfolding Breakpoint_where_def by (intro steady_intros)

lemma run_to_acts:
  assumes "wired d" and "d_state d = target_specified"
  shows "acts_well [(target_specified, running)] d (run_to place d c)"
  unfolding run_to_def
proof (rule acts_dseq)
  show "acts_well [(target_specified, running)] d (Breakpoint_where place True None (- 1) (- 1) False d c)"
    using assms by (intro steady_acts steady_break) (auto simp: state_order)
next
  fix b d1 c1
  assume b: "Breakpoint_where place True None (- 1) (- 1) False d c = Inr ((b, d1), c1)"
  have "d_h d = Live_h" using assms by (auto simp: wired_def state_order)
  from steadyD(2) [OF steady_break this b] have d1: "d1 = d" .
  have "acts_well [(target_specified, running)] d (Run (d\<lparr>d_waiting := True\<rparr>) c2)" for c2
    using Run_acts [of "d\<lparr>d_waiting := True\<rparr>" c2] assms
    by (simp add: wired_def acts_well_from [of "d\<lparr>d_waiting := True\<rparr>" d])
  then show "acts_well [(target_specified, running)] d
     ((case b of None \<Rightarrow> dret False
       | Some x \<Rightarrow> dseq (call (heap (mi_free_bkpt [x]))) (\<lambda>_.
           dseq (setd (\<lambda>d. d\<lparr>d_waiting := True\<rparr>)) (\<lambda>_. Run))) d1 c1)"
    using assms unfolding d1
    by (cases b) (simp_all add: dret_def dseq_def call_def heap_def setd_def)
qed

lemma by_state_operation:
  assumes "\<And>d c. wired d \<Longrightarrow> d_state d = target_specified \<Longrightarrow> acts_well [(target_specified, running)] d (fresh d c)"
    and "steady m"
  shows "operation (by_state fresh (moving running m)) [target_specified, stopped]
    [(target_specified, running), (stopped, running)]"
proof
  fix d :: debugger and c :: conn
  show "by_state fresh (moving running m) d c = Inr ((False, d), c)" if "d_state d \<notin> set [target_specified, stopped]"
    using that by (simp add: by_state_def dseq_def getd_def dret_def)
  show "acts_well [(target_specified, running), (stopped, running)] d (by_state fresh (moving running m) d c)"
    if "wired d" "d_state d \<in> set [target_specified, stopped]"
    using that assms(1) [of d c] moving_acts [where s = running and M = "[(stopped, running)]" and c = c, OF assms(2) that(1)]
    by (auto simp: by_state_def dseq_def getd_def acts_well_def state_order split: sum.splits)
qed

lemma Connect_operation: "operation Connect [disconnected] [(disconnected, connected)]"
  unfolding Connect_def
  by (rule only_operation) (auto simp: dseq_def call_def setd_def dret_def wired_def state_order split: sum.splits)

lemma Disconnect_operation: "operation Disconnect [connected] [(connected, disconnected)]"
  unfolding Disconnect_def
  by (rule only_operation)
    (auto simp: dseq_def call_def on_h_def setd_def dret_def wired_def state_order split: sum.splits)

text \<open>What the methods that select a target do first does not touch the wiring of a connected object.\<close>

definition loose :: "'a dbg \<Rightarrow> bool" where
  "loose m \<longleftrightarrow> (\<forall>d c. d_h d = Live_h \<longrightarrow> d_state d = connected \<longrightarrow> d_mode d \<noteq> None \<longrightarrow>
     (case m d c of Inl e \<Rightarrow> \<exists>f. e = Library f | Inr ((x, d1), c1) \<Rightarrow>
        d_h d1 = Live_h \<and> d_state d1 = connected \<and> d_mode d1 = d_mode d \<and> d_preRun d1 = d_preRun d))"

lemma loose_steady: "steady m \<Longrightarrow> loose m"
  unfolding loose_def steady_def by (auto split: sum.splits) fastforce+

lemma loose_find_tty: "loose (find_tty auxtty m)"
  unfolding loose_def find_tty_def
  by (auto simp: dret_def dseq_def call_def setd_def split: option.splits sum.splits)

text \<open>\<open>d\<close> is the object before the target was chosen, \<open>d1\<close> what it has become on the way.\<close>

lemma loose_acts:
  assumes "loose m" and "d_h d1 = Live_h" "d_state d1 = connected" "d_mode d1 \<noteq> None" "d_state d = connected"
    and "\<And>x d2 c2. m d1 c = Inr ((x, d2), c2) \<Longrightarrow> d_h d2 = Live_h \<Longrightarrow> d_state d2 = connected \<Longrightarrow>
      d_mode d2 \<noteq> None \<Longrightarrow> d_preRun d2 = d_preRun d1 \<Longrightarrow> acts_well M d (f x d2 c2)"
  shows "acts_well M d (dseq m f d1 c)"
proof (cases "m d1 c")
  case (Inl e)
  with assms show ?thesis by (auto simp: dseq_def loose_def split: sum.splits)
next
  case (Inr y)
  obtain x d2 c2 where y: "y = ((x, d2), c2)" by (metis prod.collapse)
  have "d_h d2 = Live_h \<and> d_state d2 = connected \<and> d_mode d2 = d_mode d1 \<and> d_preRun d2 = d_preRun d1"
  proof -
    have "case m d1 c of Inl e \<Rightarrow> \<exists>f. e = Library f | Inr ((x, d2), c2) \<Rightarrow>
        d_h d2 = Live_h \<and> d_state d2 = connected \<and> d_mode d2 = d_mode d1 \<and> d_preRun d2 = d_preRun d1"
      using assms(1-4) by (simp add: loose_def)
    with Inr y show ?thesis by simp
  qed
  with assms(4) assms(6) [of x d2 c2] Inr y show ?thesis by (simp add: dseq_def)
qed

lemma wired_connected: "d_h d = Live_h \<Longrightarrow> d_state d = connected \<Longrightarrow> wired d"
  by (simp add: wired_def state_order)

lemma acts_stay: "d_h d1 = Live_h \<Longrightarrow> d_state d1 = connected \<Longrightarrow> d_state d = connected \<Longrightarrow>
    acts_well M d (dret x d1 c)"
  by (simp add: dret_def wired_connected)

lemma acts_target:
  assumes "d_h d1 = Live_h" "d_state d1 = connected" "d_mode d1 \<noteq> None" "d_state d = connected"
    and "\<And>d. d_h (g d) = d_h d \<and> d_state (g d) = s \<and> d_mode (g d) = d_mode d" and "d_preRun (g d1) \<noteq> None"
    and "connected \<le> s" "(connected, s) \<in> set M"
  shows "acts_well M d (dseq (setd g) (\<lambda>_. dret x) d1 c)"
  using assms by (simp add: dseq_def setd_def dret_def wired_def)

lemma acts_if: "(b \<Longrightarrow> acts_well M d (m d1 c)) \<Longrightarrow> (\<not> b \<Longrightarrow> acts_well M d (m' d1 c)) \<Longrightarrow>
    acts_well M d ((if b then m else m') d1 c)"
  by simp

lemma acts_option: "(p = None \<Longrightarrow> acts_well M d (m d1 c)) \<Longrightarrow> (\<And>x. p = Some x \<Longrightarrow> acts_well M d (f x d1 c)) \<Longrightarrow>
    acts_well M d ((case p of None \<Rightarrow> m | Some x \<Rightarrow> f x) d1 c)"
  by (cases p) simp_all

lemmas select_intros = acts_if acts_option loose_acts loose_find_tty acts_stay

lemma select_operation:
  assumes "\<not> f no" and "\<And>d. d_h (g d) = d_h d \<and> d_state (g d) = d_state d \<and> d_mode (g d) \<noteq> None"
    and "\<And>d d1 c. d_state d = connected \<Longrightarrow> d_h d1 = Live_h \<Longrightarrow> d_state d1 = connected \<Longrightarrow>
      d_mode d1 \<noteq> None \<Longrightarrow> d_preRun d1 = d_preRun (g d) \<Longrightarrow> acts_well M d (body d1 c)"
  shows "operation (worked f (only [connected] no (dseq (setd g) (\<lambda>_. body)))) [connected] M"
proof (rule worked_operation, rule assms(1))
  fix d :: debugger and c :: conn
  assume d: "wired d" "d_state d \<in> set [connected]"
  then have "acts_well M d (body (g d) c)"
    using assms(2) [of d] by (intro assms(3)) (auto simp: wired_def state_order)
  then show "acts_well M d (dseq (setd g) (\<lambda>_. body) d c)"
    by (simp add: dseq_def setd_def)
qed

lemmas select_simple = select_operation [where f = "\<lambda>x. x" and no = False, unfolded worked_id, OF not_False_eq_True [THEN iffD2, OF TrueI]]

lemma SelectTargetTTY_operation:
  "operation (SelectTargetTTY exec args auxtty m) [connected] [(connected, target_specified)]"
  unfolding SelectTargetTTY_def
  by (rule select_simple, simp add: forget_target_def,
      intro select_intros loose_steady steady_on_h acts_target; simp add: state_order)

lemma SelectTargetRemote_operation:
  "operation (SelectTargetRemote exec rparams rtype download) [connected] [(connected, target_specified)]"
  unfolding SelectTargetRemote_def to_state_def
  by (rule select_simple, simp add: forget_target_def,
      intro select_intros loose_steady steady_on_h steady_if steady_dret acts_target; simp add: state_order)

lemma SelectTargetPID_operation:
  "operation (worked (\<lambda>r. r \<noteq> None) (SelectTargetPID exec p)) [connected] [(connected, stopped)]"
  unfolding SelectTargetPID_def
proof (rule select_operation, simp, simp add: forget_target_def)
  fix d d1 :: debugger and c :: conn
  assume d: "d_state d = connected" "d_h d1 = Live_h" "d_state d1 = connected" "d_mode d1 \<noteq> None"
    "d_preRun d1 = d_preRun ((forget_target dmPID d)\<lparr>d_preRun := Some False\<rparr>)"
  have attached: "acts_well [(connected, stopped)] d (dseq (to_state stopped) (\<lambda>_. m) d2 c2)"
    if "steady m" "d_h d2 = Live_h" "d_state d2 = connected" "d_mode d2 \<noteq> None" "d_preRun d2 = d_preRun d1"
    for d2 c2 and m :: "mi_frame option dbg"
  proof -
    let ?d = "d2\<lparr>d_state := stopped\<rparr>"
    have "wired ?d" and le: "connected \<le> d_state ?d" using that d(5) by (simp_all add: wired_def state_order)
    from steady_acts [OF that(1) this, of "[]" c2] d(1) this show ?thesis
      by (simp add: dseq_def to_state_def setd_def acts_well_def split: sum.splits prod.splits)
  qed
  show "acts_well [(connected, stopped)] d (dseq (on_h (gmi_target_attach p)) (\<lambda>res. case res of
         None \<Rightarrow> dret None
       | Some f \<Rightarrow> dseq (to_state stopped) (\<lambda>_.
           dseq (on_h (gmi_file_symbol_file exec)) (\<lambda>ok.
           if \<not> ok then dseq (call (heap (mi_free_frames [f]))) (\<lambda>_. dret None)
           else dret (Some f)))) d1 c)"
    using d by (intro acts_option loose_acts loose_steady steady_intros attached acts_stay) simp_all
qed

lemma RunOrContinue_operation:
  "operation RunOrContinue [target_specified, stopped] [(target_specified, running), (stopped, running)]"
proof -
  have "RunOrContinue = by_state Run (moving running (on_h gmi_exec_continue))"
    by (intro ext) (simp add: RunOrContinue_def Continue_def by_state_def dseq_def getd_def only_def dret_def)
  moreover have "operation (by_state Run (moving running (on_h gmi_exec_continue))) [target_specified, stopped]
      [(target_specified, running), (stopped, running)]"
    by (rule by_state_operation [OF Run_acts steady_on_h])
  ultimately show ?thesis by simp
qed

lemma Run_operation: "operation Run [target_specified] [(target_specified, running)]"
  by unfold_locales (simp_all add: Run_acts, simp add: Run_def only_def)

lemma RunToMain_acts:
  "wired d \<Longrightarrow> d_state d = target_specified \<Longrightarrow> acts_well [(target_specified, running)] d (RunToMain d c)"
  using run_to_acts [of d] by (auto simp: RunToMain_def only_def dseq_def call_def split: sum.splits)

lemma RunToMain_operation: "operation RunToMain [target_specified] [(target_specified, running)]"
  by unfold_locales (simp_all add: RunToMain_acts, simp add: RunToMain_def only_def)

lemma end_aux_run:
  "\<exists>c1. end_aux_tty d c = Inr (((), d\<lparr>d_aux_tty := None\<rparr>), c1) \<and> c_h c1 = c_h c \<and>
     mi_error (c_w c1) = mi_error (c_w c)"
proof -
  have "\<exists>c1. gmi_end_aux_term (Some x) c = Inr ((), c1) \<and> c_h c1 = c_h c \<and> mi_error (c_w c1) = mi_error (c_w c)" for x
    by (auto simp: gmi_end_aux_term_def mi_free_aux_term_def com_defs check_pid_run mi_kill_child_def c_free_live)
  then obtain f where "gmi_end_aux_term (Some x) c = Inr ((), f x)" "c_h (f x) = c_h c"
    "mi_error (c_w (f x)) = mi_error (c_w c)" for x by metis
  then show ?thesis
    by (cases "d_aux_tty d") (auto simp: end_aux_tty_def dseq_def getd_def dret_def call_def setd_def)
qed

lemma TargetUnselect_chosen:
  assumes "d_mode d \<noteq> None" and "d_state d = target_specified"
  shows "\<exists>t c1. TargetUnselect d c = Inr ((True, d\<lparr>d_state := connected, d_aux_tty := t\<rparr>), c1) \<and>
    c_h c1 = c_h c \<and> mi_error (c_w c1) = mi_error (c_w c)"
proof -
  obtain m where m: "d_mode d = Some m" using assms(1) by auto
  obtain c1 where "end_aux_tty d c = Inr (((), d\<lparr>d_aux_tty := None\<rparr>), c1)" "c_h c1 = c_h c"
    "mi_error (c_w c1) = mi_error (c_w c)"
    using end_aux_run by blast
  with m assms(2) show ?thesis
    by (cases m)
      (auto simp: TargetUnselect_def dseq_def field_def getd_def dret_def to_state_def setd_def
        intro: exI [of _ "d_aux_tty d"] exI [of _ None])
qed

lemma TargetUnselect_acts:
  assumes "wired d" and "d_state d \<in> {target_specified, stopped}"
  shows "acts_well [(target_specified, connected), (stopped, connected)] d (TargetUnselect d c)"
proof (cases "d_state d = target_specified")
  case True
  then obtain t c1 where "TargetUnselect d c = Inr ((True, d\<lparr>d_state := connected, d_aux_tty := t\<rparr>), c1)"
    using TargetUnselect_chosen [of d c] assms(1) by (auto simp: wired_def)
  with True assms(1) show ?thesis by (simp add: wired_def state_order)
next
  case False
  with assms have s: "d_state d = stopped" and h: "d_h d = Live_h" and m: "d_mode d \<noteq> None"
    by (auto simp: wired_def state_order)
  then show ?thesis
    using assms(1)
    by (auto simp: TargetUnselect_def dseq_def field_def getd_def dret_def to_state_def setd_def on_h_def call_def
        wired_def state_order split: sum.splits)
qed

lemma take_stop_acts:
  assumes "wired d" and "d_state d = running"
  shows "acts_well [(running, stopped), (running, target_specified), (running, connected)] d (take_stop res d c)"
proof -
  have h: "d_h d = Live_h" and m: "d_mode d \<noteq> None" "d_preRun d \<noteq> None"
    using assms by (auto simp: wired_def state_order)
  with assms(2) show ?thesis
    unfolding take_stop_def
    by (cases res) (auto simp: dseq_def getd_def dret_def to_state_def setd_def field_def wired_def state_order)
qed

lemma steady_then_acts:
  assumes "steady m" and "wired d" and "connected \<le> d_state d" and "\<And>x c1. acts_well M d (f x d c1)"
  shows "acts_well M d (dseq m f d c)"
proof (rule acts_dseq)
  show "acts_well M d (m d c)" using assms(1-3) by (rule steady_acts)
  have "d_h d = Live_h" using assms(2,3) by (simp add: wired_def)
  from steadyD(2) [OF assms(1) this] show "acts_well M d (f x d1 c1)" if "m d c = Inr ((x, d1), c1)" for x d1 c1
    using that assms(4) by blast
qed

lemma Poll_acts:
  assumes "wired d" and "d_state d = running"
  shows "acts_well [(running, stopped), (running, target_specified), (running, connected)] d (Poll d c)"
proof -
  have s: "connected \<le> d_state d" using assms(2) by (simp add: state_order)
  have last: "acts_well [(running, stopped), (running, target_specified), (running, connected)] d
      (dseq (take_stop res) (\<lambda>rs. dret (Some rs)) d c1)" for res c1
    using take_stop_acts [OF assms, of res c1] by (intro acts_dseq) (simp_all add: dret_def)
  have "Poll d c = dseq (on_h mi_get_response) (\<lambda>r. if r = 0 then dret None
      else dseq (on_h mi_res_stop) (\<lambda>res. dseq (take_stop res) (\<lambda>rs. dret (Some rs)))) d c"
    using assms(2) by (simp add: Poll_def only_def)
  then show ?thesis
    unfolding \<open>Poll d c = _\<close> using assms
    by (intro steady_then_acts [OF steady_on_h assms(1) s] acts_if last) (simp add: dret_def)
qed

lemma GetErrorNumberSt_acts:
  assumes "wired d" and "target_specified \<le> d_state d"
  shows "acts_well [(target_specified, disconnected), (running, disconnected), (stopped, disconnected)] d
    (GetErrorNumberSt d c)"
proof (cases "mi_error (c_w c) = MI_GDB_DIED")
  case False
  with assms(1) show ?thesis
    by (simp add: GetErrorNumberSt_def GetErrorNumber_def dseq_def call_def ask_def dret_def)
next
  case True
  have h: "d_h d = Live_h" and m: "d_mode d \<noteq> None" and s: "d_state d \<in> {target_specified, running, stopped}"
    using assms by (cases "d_state d"; auto simp: wired_def state_order)+
  obtain t c1 where "TargetUnselect (d\<lparr>d_state := target_specified\<rparr>) c =
      Inr ((True, d\<lparr>d_state := connected, d_aux_tty := t\<rparr>), c1)"
    using TargetUnselect_chosen [of "d\<lparr>d_state := target_specified\<rparr>" c] m by auto
  with True h s show ?thesis
    by (auto simp: GetErrorNumberSt_def GetErrorNumber_def dseq_def call_def ask_def dret_def to_state_def setd_def
        Disconnect_def only_def on_h_def wired_def state_order split: sum.splits)
qed

lemma steady_operation:
  assumes "steady m" and "\<forall>s\<in>set S. connected \<le> s"
    and "\<And>d c. d_state d \<notin> set S \<Longrightarrow> worked f m d c = Inr ((False, d), c)"
  shows "operation (worked f m) S []"
  using assms by unfold_locales (auto intro!: worked_acts steady_acts)

lemma steady_value: "steady (EvalExpression exp)" "steady (Show s)" "steady GetChangedRegisters"
  unfolding EvalExpression_def Show_def GetChangedRegisters_def
  by (intro steady_intros)+

lemma steady_update: "steady (UpdateRegisters regs)"
  unfolding UpdateRegisters_def by (intro steady_dseq steady_value steady_if steady_dret steady_call)

lemma UpdateRegisters_operation: "operation (worked (\<lambda>r. fst r \<noteq> 0) (UpdateRegisters regs)) [stopped] []"
  by (rule steady_operation [OF steady_update])
    (simp_all add: state_order worked_def UpdateRegisters_def GetChangedRegisters_def dseq_def only_def dret_def)

text \<open>The two methods that remember what gdb said about the target, in any state.\<close>

lemma remembered_operation:
  assumes "steady m" and "\<And>x d. d_state (g x d) = d_state d \<and> d_h (g x d) = d_h d \<and> d_mode (g x d) = d_mode d \<and>
      d_preRun (g x d) = d_preRun d"
  shows "operation (worked f (dseq (getd h) (\<lambda>e. if P e then dret e
       else only [stopped, target_specified] no (dseq m (\<lambda>r. case r of
           None \<Rightarrow> dret no
         | Some s \<Rightarrow> dseq (setd (g s)) (\<lambda>_. dseq (call (k s)) (\<lambda>_. dret (v s))))))))
    [disconnected, connected, target_specified, running, stopped] []"
proof
  fix d :: debugger and c :: conn
  show "d_state d \<notin> set [disconnected, connected, target_specified, running, stopped] \<Longrightarrow> worked f
     (dseq (getd h) (\<lambda>e. if P e then dret e
       else only [stopped, target_specified] no (dseq m (\<lambda>r. case r of
           None \<Rightarrow> dret no
         | Some s \<Rightarrow> dseq (setd (g s)) (\<lambda>_. dseq (call (k s)) (\<lambda>_. dret (v s))))))) d c = Inr ((False, d), c)"
    by (cases "d_state d") simp_all
  assume w: "wired d"
  have after: "acts_well [] d (dseq m (\<lambda>r. case r of
           None \<Rightarrow> dret no
         | Some s \<Rightarrow> dseq (setd (g s)) (\<lambda>_. dseq (call (k s)) (\<lambda>_. dret (v s)))) d c)"
    if "d_state d \<in> {stopped, target_specified}"
  proof (rule steady_then_acts [OF assms(1) w])
    show "connected \<le> d_state d" using that by (auto simp: state_order)
    have "wired (g s d)" for s using w assms(2) by (simp add: wired_def)
    then have "acts_well [] d (dseq (setd (g s)) (\<lambda>_. dseq (call (k s)) (\<lambda>_. dret (v s))) d c1)" for s c1
      using assms(2) by (auto simp: dseq_def setd_def call_def dret_def split: sum.splits)
    with w show "acts_well [] d ((case x of None \<Rightarrow> dret no
         | Some s \<Rightarrow> dseq (setd (g s)) (\<lambda>_. dseq (call (k s)) (\<lambda>_. dret (v s)))) d c1)" for x c1
      by (cases x) (simp_all add: dret_def)
  qed
  show "acts_well [] d (worked f
     (dseq (getd h) (\<lambda>e. if P e then dret e
       else only [stopped, target_specified] no (dseq m (\<lambda>r. case r of
           None \<Rightarrow> dret no
         | Some s \<Rightarrow> dseq (setd (g s)) (\<lambda>_. dseq (call (k s)) (\<lambda>_. dret (v s))))))) d c)"
    using w after by (intro worked_acts) (auto simp: dseq_def getd_def dret_def only_def)
qed

lemma Endian_operation:
  "operation (worked (\<lambda>e. e \<noteq> enUnknown) GetTargetEndian)
     [disconnected, connected, target_specified, running, stopped] []"
  unfolding GetTargetEndian_def by (rule remembered_operation) (simp_all add: steady_value)

lemma Arch_operation:
  "operation (worked (\<lambda>a. a \<noteq> arUnknown) GetTargetArchitecture)
     [disconnected, connected, target_specified, running, stopped] []"
  unfolding GetTargetArchitecture_def by (rule remembered_operation) (simp_all add: steady_value)

section \<open>The table of the methods\<close>

text \<open>
  Every method that tests the state: as a method that says whether it worked, the states in which it acts,
  and the moves of the state it can make.
\<close>

abbreviation resting :: "eState list" where
  "resting \<equiv> [stopped, target_specified]"

abbreviation every_state :: "eState list" where
  "every_state \<equiv> [disconnected, connected, target_specified, running, stopped]"

abbreviation found :: "'a option dbg \<Rightarrow> bool dbg" where "found \<equiv> worked (\<lambda>r. r \<noteq> None)"
abbreviation nonempty :: "'a list dbg \<Rightarrow> bool dbg" where "nonempty \<equiv> worked (\<lambda>r. r \<noteq> [])"
abbreviation changed :: "(bool \<times> 'a) dbg \<Rightarrow> bool dbg" where "changed \<equiv> worked fst"
abbreviation counted :: "(int \<times> 'a) dbg \<Rightarrow> bool dbg" where "counted \<equiv> worked (\<lambda>r. fst r \<noteq> 0)"

inductive guarded :: "bool dbg \<Rightarrow> eState list \<Rightarrow> (eState \<times> eState) list \<Rightarrow> bool" where
  "guarded Connect [disconnected] [(disconnected, connected)]"
| "guarded Disconnect [connected] [(connected, disconnected)]"
| "guarded (SelectTargetX11 exec args auxtty) [connected] [(connected, target_specified)]"
| "guarded (SelectTargetLinux exec args auxtty) [connected] [(connected, target_specified)]"
| "guarded (SelectTargetRemote exec rparams rtype download) [connected] [(connected, target_specified)]"
| "guarded (found (SelectTargetPID exec p)) [connected] [(connected, stopped)]"
| "guarded Run [target_specified] [(target_specified, running)]"
| "guarded Continue [stopped] [(stopped, running)]"
| "guarded RunOrContinue [target_specified, stopped] [(target_specified, running), (stopped, running)]"
| "guarded Kill_program [stopped, running] [(stopped, target_specified), (running, target_specified)]"
| "guarded RunToMain [target_specified] [(target_specified, running)]"
| "guarded (StepOver inst) [target_specified, stopped] [(target_specified, running), (stopped, running)]"
| "guarded (TraceInto inst) [target_specified, stopped]
     [(target_specified, running), (stopped, running)]"
| "guarded (GoTo_line file ln) [target_specified, stopped]
     [(target_specified, running), (stopped, running)]"
| "guarded (GoTo_addr addr) [target_specified, stopped]
     [(target_specified, running), (stopped, running)]"
| "guarded FinishFun [stopped] [(stopped, running)]"
| "guarded Stop [running] []"
| "guarded (found (Breakpoint_line file ln)) resting []"
| "guarded (found (Breakpoint_where place temporary cnd count thread hard)) resting []"
| "guarded (found (Breakpoint_again b)) resting []"
| "guarded (found (BreakpointFull file ln temporary cnd count thread hard)) resting []"
| "guarded (BreakDelete bp) resting []"
| "guarded (BreakAfter b) [target_specified, stopped] []"
| "guarded (found (Watchpoint wmode exp)) resting []"
| "guarded (WatchDelete w) resting []"
| "guarded (found ReturnNow) [stopped] []"
| "guarded (nonempty (CallStack with_args)) [stopped] []"
| "guarded (found (EvalExpression exp)) idle []"
| "guarded (found (ModifyExpression exp newVal)) idle []"
| "guarded (Send s) idle []"
| "guarded (changed (AssigngVar var exp)) [stopped] []"
| "guarded (found (AddgVar exp frame)) [stopped] []"
| "guarded (DelgVar var) [stopped] []"
| "guarded (changed (EvalgVar var)) [stopped] []"
| "guarded (changed (GetChildgVar var)) [stopped] []"
| "guarded (changed (FillAttr var)) [stopped] []"
| "guarded (changed (FillFormat var)) [stopped] []"
| "guarded (changed (SetFormatgVar var fmt)) [stopped] []"
| "guarded (counted ListChangedgVar) [stopped] []"
| "guarded Version idle []"
| "guarded (PathSources path) idle []"
| "guarded (found (ReadMemory exp sz dest conv want)) [stopped] []"
| "guarded (found (Show s)) idle []"
| "guarded (counted ThreadListIDs) [stopped] []"
| "guarded (nonempty ThreadList) [stopped] []"
| "guarded (found (ThreadSelect tid)) [stopped] []"
| "guarded (nonempty (Disassemble_range start stop dmode)) [stopped] []"
| "guarded (nonempty (Disassemble_lines file ln lns dmode)) [stopped] []"
| "guarded (nonempty GetRegisterNames) [target_specified, stopped] []"
| "guarded (changed (GetRegisterNames_of chg)) [target_specified, stopped] []"
| "guarded (changed (GetRegisterValues_of chg)) [stopped] []"
| "guarded (found GetRegisterValues) [stopped] []"
| "guarded (nonempty GetChangedRegisters) [stopped] []"
| "guarded (counted (UpdateRegisters regs)) [stopped] []"
| "guarded (worked (\<lambda>e. e \<noteq> enUnknown) GetTargetEndian) every_state []"
| "guarded (worked (\<lambda>a. a \<noteq> arUnknown) GetTargetArchitecture) every_state []"

lemmas query_simple = query_operation [where f = "\<lambda>x. x" and no = False, unfolded worked_id]

lemmas one_by_one = Connect_operation Disconnect_operation SelectTargetTTY_operation
  SelectTargetRemote_operation SelectTargetPID_operation Run_operation RunOrContinue_operation
  RunToMain_operation UpdateRegisters_operation Endian_operation Arch_operation

lemmas query_methods = Stop_def Breakpoint_line_def Breakpoint_where_def Breakpoint_again_def BreakpointFull_def
  BreakDelete_def BreakAfter_def Watchpoint_def WatchDelete_def ReturnNow_def CallStack_def
  EvalExpression_def ModifyExpression_def Send_def AssigngVar_def AddgVar_def DelgVar_def EvalgVar_def
  GetChildgVar_def FillAttr_def FillFormat_def SetFormatgVar_def on_var_def ListChangedgVar_def
  Version_def PathSources_def ReadMemory_def Show_def ThreadListIDs_def ThreadList_def ThreadSelect_def
  Disassemble_range_def Disassemble_lines_def GetRegisterNames_def GetRegisterNames_of_def
  GetRegisterValues_of_def GetRegisterValues_def GetChangedRegisters_def

lemma moving_methods:
  "operation Continue [stopped] [(stopped, running)]"
  "operation FinishFun [stopped] [(stopped, running)]"
  "operation Kill_program [stopped, running] [(stopped, target_specified), (running, target_specified)]"
proof -
  have rest: "operation (only [stopped] False (moving running (on_h k))) [stopped] [(stopped, running)]" for k
    using moving_operation [OF steady_on_h, of "[stopped]" running k] by (simp add: state_order)
  show "operation Continue [stopped] [(stopped, running)]" "operation FinishFun [stopped] [(stopped, running)]"
    unfolding Continue_def FinishFun_def by (rule rest)+
  show "operation Kill_program [stopped, running] [(stopped, target_specified), (running, target_specified)]"
    unfolding Kill_program_def
    using moving_operation [OF steady_on_h, of "[stopped, running]" target_specified kill_quietly]
    by (simp add: state_order)
qed

lemma two_way_methods:
  fixes inst :: bool
  shows "operation (StepOver inst) [target_specified, stopped] [(target_specified, running), (stopped, running)]"
    and "operation (TraceInto inst) [target_specified, stopped] [(target_specified, running), (stopped, running)]"
    and "operation (GoTo_line file ln) [target_specified, stopped] [(target_specified, running), (stopped, running)]"
    and "operation (GoTo_addr addr) [target_specified, stopped] [(target_specified, running), (stopped, running)]"
  unfolding StepOver_def TraceInto_def GoTo_line_def GoTo_addr_def
  by (intro by_state_operation RunToMain_acts run_to_acts steady_on_h; assumption)+

lemma break_methods:
  "operation (BreakDelete bp) resting []" "operation (WatchDelete w) resting []"
  unfolding BreakDelete_def WatchDelete_def
  by (rule query_simple; auto intro!: steady_intros simp: state_order)+

lemma method_operation: "guarded m S M \<Longrightarrow> operation m S M"
  by (induction rule: guarded.induct, unfold SelectTargetX11_def SelectTargetLinux_def;
      (rule one_by_one moving_methods two_way_methods break_methods |
       (unfold query_methods, rule query_operation query_simple, (intro steady_intros)[1], simp_all add: state_order)))



section \<open>What a client may do\<close>

text \<open>The methods that use the handle and test nothing.\<close>

inductive unguarded :: "bool dbg \<Rightarrow> bool" where
  "unguarded (changed (FillTypeVal vs))"
| "unguarded (changed (FillOneTypeVal var))"
| "unguarded (worked (\<lambda>_. True) (SetConsoleCB cb data))"
| "unguarded (worked (\<lambda>_. True) (SetTargetCB cb data))"
| "unguarded (worked (\<lambda>_. True) (SetLogCB cb data))"
| "unguarded (worked (\<lambda>_. True) (SetAsyncCB cb data))"
| "unguarded (worked (\<lambda>_. True) (SetToGDBCB cb data))"
| "unguarded (worked (\<lambda>_. True) (SetFromGDBCB cb data))"
| "unguarded (worked (\<lambda>_. True) (SetTimeOutCB cb data))"
| "unguarded (worked (\<lambda>_. True) (SetTimeOut n))"
| "unguarded (worked (\<lambda>_. True) (ForceMIVersion vMajor vMiddle vMinor))"

text \<open>
  What the documentation lets a client do with an object: poll only while the program runs, give up a
  target only when there is one, use the methods that test nothing only while connected, and ask for the
  error number in the way that cleans up only once there is a target.
\<close>

inductive allowed :: "debugger \<Rightarrow> bool dbg \<Rightarrow> bool" where
  tested: "guarded m S M \<Longrightarrow> allowed d m"
| untested: "unguarded m \<Longrightarrow> connected \<le> d_state d \<Longrightarrow> allowed d m"
| poll: "d_state d = running \<Longrightarrow> allowed d (found Poll)"
| unselect: "d_state d \<in> {target_specified, stopped} \<Longrightarrow> allowed d TargetUnselect"
| error_number: "target_specified \<le> d_state d \<Longrightarrow> allowed d (worked (\<lambda>n. n = MI_OK) GetErrorNumberSt)"

inductive session :: "debugger \<Rightarrow> conn \<Rightarrow> bool" where
  constructed: "session MIDebugger c"
| used: "session d c \<Longrightarrow> allowed d m \<Longrightarrow> m d c = Inr ((x, d1), c1) \<Longrightarrow> session d1 c1"

text \<open>The diagram of the states in \<open>src/mi_gdb.h\<close>, with the moves of a target that is a process id and of a gdb that died.\<close>

inductive documented :: "eState \<Rightarrow> eState \<Rightarrow> bool" where
  Connects: "documented disconnected connected"
| Disconnects: "documented connected disconnected"
| Selects: "documented connected target_specified"
| Attaches: "documented connected stopped"
| Unselects: "documented target_specified connected"
| Detaches: "documented stopped connected"
| Runs: "documented target_specified running"
| Stops: "documented running stopped"
| Continues: "documented stopped running"
| Exits: "documented running target_specified"
| Ends: "documented running connected"
| Kills: "documented stopped target_specified"
| Dies: "target_specified \<le> s \<Longrightarrow> documented s disconnected"

inductive_simps documented_from [simp]: "documented disconnected t" "documented connected t"
  "documented target_specified t" "documented running t" "documented stopped t"

lemma unguarded_steady: "unguarded m \<Longrightarrow> steady m"
  by (induction rule: unguarded.induct)
    (auto simp: worked_def SetConsoleCB_def SetTargetCB_def SetLogCB_def SetAsyncCB_def SetToGDBCB_def
      SetFromGDBCB_def SetTimeOutCB_def SetTimeOut_def ForceMIVersion_def intro!: steady_intros steady_types)

lemma method_documented: "guarded m S M \<Longrightarrow> (s, t) \<in> set M \<Longrightarrow> documented s t"
  by (induction rule: guarded.induct) auto

text \<open>What every allowed step does to a well wired object, whatever gdb answers.\<close>

lemma allowed_acts:
  assumes "allowed d m" and "wired d"
  shows "\<exists>M. acts_well M d (m d c) \<and> (\<forall>t. (d_state d, t) \<in> set M \<longrightarrow> documented (d_state d) t)"
  using assms(1)
proof cases
  case (tested S M)
  then show ?thesis using operation.well [OF method_operation [OF tested] assms(2)] method_documented by blast
next
  case untested
  then have "acts_well [] d (m d c)" using unguarded_steady assms(2) by (intro steady_acts)
  then show ?thesis by (intro exI [of _ "[]"]) simp
next
  case poll
  then have "acts_well [(running, stopped), (running, target_specified), (running, connected)] d (m d c)"
    using Poll_acts [OF assms(2)] by (simp add: worked_acts)
  then show ?thesis
    by (rule exI [where x = "[(running, stopped), (running, target_specified), (running, connected)]", OF conjI]) auto
next
  case unselect
  then have "acts_well [(target_specified, connected), (stopped, connected)] d (m d c)"
    using TargetUnselect_acts [OF assms(2)] by simp
  then show ?thesis by (rule exI [where x = "[(target_specified, connected), (stopped, connected)]", OF conjI]) auto
next
  case error_number
  then have "acts_well [(target_specified, disconnected), (running, disconnected), (stopped, disconnected)] d (m d c)"
    using GetErrorNumberSt_acts [OF assms(2)] by (simp add: worked_acts)
  then show ?thesis
    by (rule exI [where x = "[(target_specified, disconnected), (running, disconnected), (stopped, disconnected)]",
          OF conjI]) (auto simp: state_order)
qed

lemma session_wired: "session d c \<Longrightarrow> wired d"
proof (induction rule: session.induct)
  case (constructed c)
  show ?case by (simp add: wired_def MIDebugger_def state_order)
next
  case (used d c m x d1 c1)
  from allowed_acts [OF used.hyps(2) used.IH, of c] used.hyps(3) show ?case by auto
qed

text \<open>
  C12: An object that is used as documented is never misused. Whatever the methods called so far and
  whatever gdb answered, the handle is there exactly when the state is not \<open>disconnected\<close>, a target
  has its mode and \<open>preRun\<close> set, and the next method allowed neither goes through a NULL or freed
  handle nor reads a field that was never set: it returns, or it ends in a fault of the C interface below.
\<close>

theorem session_safe:
  assumes "session d c" and "allowed d m"
  shows "wired d \<and> (case m d c of Inl e \<Rightarrow> \<exists>f. e = Library f | Inr ((x, d1), c1) \<Rightarrow> wired d1)"
  using session_wired [OF assms(1)] allowed_acts [OF assms(2), of c]
  by (auto simp: acts_well_def split: sum.splits)

theorem session_safe_witness:
  "case Connect MIDebugger (started fresh_h [] []) of Inl e \<Rightarrow> \<exists>f. e = Library f | Inr ((x, d1), c1) \<Rightarrow> wired d1"
  using session_safe [of MIDebugger "started fresh_h [] []" Connect]
  by (simp add: session.constructed allowed.tested [OF guarded.intros(1)])



end
