(* ===== verification/MI_Lifetime.thy ===== *)
theory MI_Lifetime
  imports MI_Methods
begin

text \<open>
  The lifetime of a \<open>MIDebugger\<close> object against what gdb sends: a running program that stops is
  noticed, the destructor ends when gdb answers and never ends when it does not, and what happens after
  gdb has died.
\<close>

section \<open>The destructor undoes every state\<close>

definition ends :: "misuse + ((unit \<times> debugger) \<times> conn) \<Rightarrow> bool" where
  "ends r \<longleftrightarrow> (case r of
       Inl e \<Rightarrow> \<exists>f. e = Library f
     | Inr ((_, d1), _) \<Rightarrow> d_state d1 = disconnected \<and> d_h d1 = Freed_h)"

lemma dseq_step: "m d c = Inr ((x, d1), c1) \<Longrightarrow> dseq m f d c = f x d1 c1"
  by (simp add: dseq_def)

lemma in_state_skip: "d_state d \<noteq> s \<Longrightarrow> in_state s m d c = Inr (((), d), c)"
  by (simp add: in_state_def dseq_def getd_def dret_def)

lemma in_state_do: "d_state d = s \<Longrightarrow> in_state s m d c = m d c"
  by (simp add: in_state_def dseq_def getd_def)

lemma wind_connected:
  "d_h d = Live_h \<Longrightarrow> d_state d = connected \<Longrightarrow> ends (in_state connected (dseq Disconnect (\<lambda>_. dret ())) d c)"
  by (simp add: in_state_do Disconnect_def only_def dseq_def on_h_def call_def setd_def dret_def ends_def
      split: sum.splits)

lemma wind_target:
  assumes "d_h d = Live_h" and "d_state d \<in> {connected, target_specified}"
    and "d_state d = target_specified \<longrightarrow> d_mode d \<noteq> None"
  shows "ends (dseq (in_state target_specified (dseq TargetUnselect (\<lambda>_. to_state connected))) (\<lambda>_.
     in_state connected (dseq Disconnect (\<lambda>_. dret ()))) d c)"
proof (cases "d_state d = target_specified")
  case True
  with assms(3) obtain t c1 where "TargetUnselect d c = Inr ((True, d\<lparr>d_state := connected, d_aux_tty := t\<rparr>), c1)"
    using TargetUnselect_chosen [of d c] by auto
  with True have "in_state target_specified (dseq TargetUnselect (\<lambda>_. to_state connected)) d c =
      Inr (((), d\<lparr>d_state := connected, d_aux_tty := t\<rparr>), c1)"
    by (simp add: in_state_do dseq_step to_state_def setd_def)
  with assms(1) show ?thesis by (simp add: dseq_step wind_connected)
next
  case False
  with assms(1,2) show ?thesis by (simp add: dseq_step [OF in_state_skip] wind_connected)
qed

lemma wind_down_ends:
  assumes "wired d" and "d_state d \<in> {connected, target_specified, stopped}"
  shows "ends (wind_down d c)"
proof (cases "d_state d = stopped")
  case True
  have "acts_well [(stopped, target_specified), (running, target_specified)] d (Kill_program d c)"
    using operation.well [OF moving_methods(3) assms(1)] .
  moreover have "ends (wind_down d c)" if "Kill_program d c = Inr ((x, d1), c1)" "wired d1"
    "d_state d1 = stopped \<or> d_state d1 = target_specified" for x d1 c1
    using that True
      wind_target [of "d1\<lparr>d_state := target_specified\<rparr>" c1]
    by (simp add: wind_down_def dseq_step [of "in_state stopped _" d c] in_state_do dseq_step [of Kill_program d c]
        to_state_def setd_def) (auto simp: wired_def state_order)
  ultimately show ?thesis
    using True
    by (cases "Kill_program d c") (auto simp: wind_down_def dseq_def in_state_do ends_def)
next
  case False
  with assms have "d_h d = Live_h" "d_state d \<in> {connected, target_specified}"
    "d_state d = target_specified \<longrightarrow> d_mode d \<noteq> None"
    by (auto simp: wired_def state_order)
  from wind_target [OF this, of c] False show ?thesis
    by (simp add: wind_down_def dseq_step [OF in_state_skip])
qed

section \<open>Polling a running program\<close>

lemma poll_until_again:
  assumes "d_state d = running" and "d_h d = Live_h" and "mi_get_response c = Inr (0, c1)"
  shows "poll_until d c = poll_until d c1"
  using assms
  by (subst poll_until.simps) (simp add: Poll_def only_def dseq_def on_h_def call_def dret_def)

lemma poll_until_done:
  assumes "d_state d = running" and "d_h d = Live_h" and "mi_get_response c = Inr (1, c1)"
  shows "poll_until d c = Some (dseq (on_h mi_res_stop) take_stop d c1)"
  using assms
  by (subst poll_until.simps)
    (simp add: Poll_def only_def dseq_def on_h_def call_def dret_def split: sum.splits prod.splits)

lemma response_idle: "reads c = None # rs \<Longrightarrow> mi_get_response c = Inr (0, c\<lparr>reads := rs\<rparr>)"
  by (simp add: mi_get_response_def mi_getline_def com_defs)

lemma poll_until_idle:
  assumes "d_state d = running" and "d_h d = Live_h" and "reads c = replicate n None @ rs"
  shows "poll_until d c = poll_until d (c\<lparr>reads := rs\<rparr>)"
  using assms(3)
proof (induction n arbitrary: c)
  case (Suc n)
  have "mi_get_response c = Inr (0, c\<lparr>reads := replicate n None @ rs\<rparr>)"
    using Suc.prems by (intro response_idle) simp
  with Suc.IH [of "c\<lparr>reads := replicate n None @ rs\<rparr>"] show ?case
    by (simp add: poll_until_again [OF assms(1,2)])
next
  case 0
  then have "c\<lparr>reads := rs\<rparr> = c" by (cases c) simp
  then show ?case by simp
qed

text \<open>Each record is taken in by one more turn; the prompt ends the polling.\<close>

lemma poll_until_wire:
  assumes "d_state d = running" and "d_h d = Live_h"
    and "ready c" and "\<forall>r\<in>set rs. sendable r" and "catch_console (c_h c) = 0" and "reads c = wire rs @ rest"
  shows "\<exists>c1. poll_until d c = Some (dseq (on_h mi_res_stop) take_stop d c1) \<and>
    po (c_h c1) = po (c_h c) @ filter (\<lambda>r. \<not> is_stream r) rs \<and> reads c1 = rest \<and> oom (c_w c1) = []"
  using assms(3-6)
proof (induction rs arbitrary: c)
  case Nil
  obtain tail where r: "mi_get_response c =
      Inr (1, got_line c rest ''(gdb)'' tail\<lparr>events := events c @ echo (c_h c) ''(gdb)''\<rparr>)"
    using response_of_prompt [OF Nil.prems(1), of rest] Nil.prems(4) by (auto simp: wire_def)
  from poll_until_done [OF assms(1,2) r] Nil.prems(1) show ?case
    by (auto simp: got_line_def ready_def)
next
  case (Cons r rs)
  obtain c1 where c1: "mi_get_response c = Inr (0, c1)" "ready c1" "reads c1 = wire rs @ rest"
    "po (c_h c1) = po (c_h c) @ (if is_stream r then [] else [r])"
    "callbacks (c_h c1) = callbacks (c_h c)"
    using response_of_record [OF Cons.prems(1) _ Cons.prems(3), of r "wire rs @ rest"] Cons.prems(2,4)
    by (auto simp: wire_def)
  have "catch_console (c_h c1) = 0" using events_of_callbacks(4) [OF c1(5)] Cons.prems(3) by simp
  with Cons.IH [OF c1(2) _ _ c1(3)] Cons.prems(2) c1(4) show ?case
    by (cases "is_stream r") (simp_all add: poll_until_again [OF assms(1,2) c1(1)])
qed

definition state_after :: "dMode \<Rightarrow> mi_stop option \<Rightarrow> eState" where
  "state_after m res = (case res of
       None \<Rightarrow> stopped
     | Some s \<Rightarrow> if is_exit (st_reason s) then (if m = dmPID then connected else target_specified) else stopped)"

lemma take_stop_run:
  assumes "d_state d = running" and "d_mode d = Some m"
  shows "\<exists>s d1. take_stop res d c = Inr ((s, d1), c) \<and> d_state d1 = state_after m res \<and>
    d_h d1 = d_h d \<and> d_mode d1 = d_mode d \<and> d_preRun d1 = d_preRun d \<and> state_after m s = state_after m res"
  using assms
  by (cases res) (auto simp: take_stop_def dseq_def getd_def setd_def dret_def field_def to_state_def state_after_def
      is_exit_def)

lemma res_stop_run:
  assumes "\<forall>i. mi_get_stop_record (po (c_h c)) = Some i \<longrightarrow> list_all stop_fits (o_c (po (c_h c) ! i))"
  shows "\<exists>s c1. mi_res_stop c = Inr (s, c1) \<and> reads c1 = reads c"
proof (cases "mi_get_stop_record (po (c_h c))")
  case None
  then show ?thesis by (auto simp: mi_res_stop_def mi_retire_response_def com_defs)
next
  case (Some i)
  with assms have fits: "\<forall>n\<in>set (o_c (po (c_h c) ! i)). stop_fits n" by (simp add: list_all_iff)
  obtain s l w1 where "mi_get_stopped (o_c (po (c_h c) ! i)) (c_w c) = Inr (s, l, w1)"
    using stop.list.parse_safe [OF fits, of "c_w c"] unfolding mi_get_stopped_def mi_alloc_stop_def by blast
  with Some show ?thesis by (simp add: mi_res_stop_def mi_retire_response_def com_defs)
qed

lemma poll_until_stops:
  assumes "wired d" and "d_state d = running" and "ready c" and "\<forall>r\<in>set rs. sendable r"
    and "catch_console (c_h c) = 0" and "reads c = replicate n None @ wire rs @ rest"
    and "\<forall>i. mi_get_stop_record (po (c_h c) @ filter (\<lambda>r. \<not> is_stream r) rs) = Some i \<longrightarrow>
      list_all stop_fits (o_c ((po (c_h c) @ filter (\<lambda>r. \<not> is_stream r) rs) ! i))"
  shows "\<exists>s d1 c1. poll_until d c = Some (Inr ((s, d1), c1)) \<and> d_state d1 = state_after (the (d_mode d)) s \<and>
    reads c1 = rest \<and> d_h d1 = Live_h \<and> d_mode d1 \<noteq> None \<and> d_preRun d1 \<noteq> None"
proof -
  have d: "d_h d = Live_h" "d_mode d = Some (the (d_mode d))" "d_preRun d \<noteq> None"
    using assms(1,2) by (auto simp: wired_def state_order)
  have "ready (c\<lparr>reads := wire rs @ rest\<rparr>)" using assms(3) by (simp add: ready_def)
  from poll_until_wire [OF assms(2) d(1) this assms(4), of rest] assms(5)
  obtain c1 where c1: "poll_until d c = Some (dseq (on_h mi_res_stop) take_stop d c1)"
    "po (c_h c1) = po (c_h c) @ filter (\<lambda>r. \<not> is_stream r) rs" "reads c1 = rest"
    using poll_until_idle [OF assms(2) d(1) assms(6)] by auto
  obtain s c2 where s: "mi_res_stop c1 = Inr (s, c2)" "reads c2 = rest"
    using res_stop_run [of c1] assms(7) c1(2,3) by auto
  with take_stop_run [OF assms(2) d(2), of s c2] d c1(1) show ?thesis
    by (auto simp: dseq_def on_h_def call_def)
qed


text \<open>A gdb that says the program has exited, after two polls that found nothing.\<close>

definition running_object :: debugger where
  "running_object = MIDebugger\<lparr>d_state := running, d_mode := Some dmX11, d_preRun := Some False, d_h := Live_h\<rparr>"


section \<open>A gdb that stays silent\<close>

lemma poll_until_silent:
  assumes "poll_until d c = Some r"
  shows "\<not> (d_state d = running \<and> d_h d = Live_h \<and> reads c = [])"
proof (rule poll_until.raw_induct [OF _ assms, where P = "\<lambda>d c r. \<not> (d_state d = running \<and> d_h d = Live_h \<and> reads c = [])"],
    rule notI)
  fix f d c r
  assume less: "\<And>d c r. f d c = Some r \<Longrightarrow> \<not> (d_state d = running \<and> d_h d = Live_h \<and> reads c = [])"
    and turn: "(case Poll d c of Inl e \<Rightarrow> Some (Inl e) | Inr ((None, d1), c1) \<Rightarrow> f d1 c1
      | Inr ((Some rs, d1), c1) \<Rightarrow> Some (Inr ((rs, d1), c1))) = Some r"
    and here: "d_state d = running \<and> d_h d = Live_h \<and> reads c = []"
  then have "mi_get_response c = Inr (0, c)"
    by (cases c) (simp add: mi_get_response_def mi_getline_def com_defs)
  with turn here have "f d c = Some r"
    by (simp add: Poll_def only_def dseq_def on_h_def call_def dret_def)
  from less [OF this] here show False by simp
qed

text \<open>
  C28: The destructor of an object whose program runs never returns when gdb stays silent: it polls for
  ever, whether gdb is busy or has died. There is no time out in that loop.
\<close>

theorem destructor_hangs:
  assumes "d_state d = running" and "d_h d = Live_h" and "reads c = []"
  shows "destroy d c = None"
proof -
  let ?c = "c\<lparr>events := events c @ [Interrupt (pid (c_h c))]\<rparr>"
  have "Stop d c = Inr ((True, d), ?c)"
    using assms(1,2) by (simp add: Stop_def only_def on_h_def call_def gmi_exec_interrupt_def com_defs)
  moreover have "poll_until d ?c = None"
    using poll_until_silent [of d ?c] assms by (cases "poll_until d ?c") auto
  ultimately show ?thesis using assms(1) by (simp add: destroy_def halt_program_def)
qed

theorem destructor_hangs_witness:
  "destroy running_object (started (fresh_h\<lparr>died := True\<rparr>) [] []) = None"
  using destructor_hangs [of running_object "started (fresh_h\<lparr>died := True\<rparr>) [] []"]
  by (simp add: running_object_def started_def)

section \<open>A gdb that has died\<close>

lemma dead_exit:
  assumes "died (c_h c)"
  shows "\<exists>c1. gmi_gdb_exit c = Inr ((), c1) \<and> mi_error (c_w c1) = MI_GDB_DIED"
  using assms
  by (simp add: gmi_gdb_exit_def mi_gdb_exit_def cmd_def mi_send_def mi_res_simple_exit_def mi_res_simple_def
      mi_get_response_blk_def mi_check_running_def set_died_def com_defs mi_free_output_def the_record_def Let_def)

lemma disconnect_run: "\<exists>c1. mi_disconnect c = Inr ((), c1) \<and> mi_error (c_w c1) = mi_error (c_w c)"
  using free_h_run [of c] by (auto simp: mi_disconnect_def com_defs set_msg_def c_free_live)

text \<open>
  C29: After gdb has died, \<open>GetErrorNumberSt\<close> gives the connection up and frees the handle, but the
  error number stays what it is: asked a second time, it tries to end the freed connection again,
  and goes through the freed handle.
\<close>

theorem error_number_twice:
  assumes "d_h d = Live_h" and "d_mode d \<noteq> None" and "mi_error (c_w c) = MI_GDB_DIED" and "died (c_h c)"
  shows "\<exists>d1 c1. GetErrorNumberSt d c = Inr ((MI_GDB_DIED, d1), c1) \<and> d_state d1 = disconnected \<and>
    GetErrorNumberSt d1 c1 = Inl Freed_handle"
proof -
  have first: "\<exists>t c1. TargetUnselect (e\<lparr>d_state := target_specified\<rparr>) c =
      Inr ((True, e\<lparr>d_state := connected, d_aux_tty := t\<rparr>), c1) \<and> c_h c1 = c_h c \<and> mi_error (c_w c1) = mi_error (c_w c)"
    if "d_mode e \<noteq> None" for e c
    using TargetUnselect_chosen [of "e\<lparr>d_state := target_specified\<rparr>" c] that by simp
  obtain t c1 where t: "TargetUnselect (d\<lparr>d_state := target_specified\<rparr>) c =
      Inr ((True, d\<lparr>d_state := connected, d_aux_tty := t\<rparr>), c1)" "c_h c1 = c_h c"
    using first [OF assms(2), of c] by blast
  obtain c2 where c2: "gmi_gdb_exit c1 = Inr ((), c2)" "mi_error (c_w c2) = MI_GDB_DIED"
    using dead_exit [of c1] assms(4) t(2) by auto
  obtain c3 where c3: "mi_disconnect c2 = Inr ((), c3)" "mi_error (c_w c3) = MI_GDB_DIED"
    using disconnect_run [of c2] c2(2) by auto
  let ?d = "d\<lparr>d_state := disconnected, d_h := Freed_h, d_aux_tty := t\<rparr>"
  have 1: "GetErrorNumberSt d c = Inr ((MI_GDB_DIED, ?d), c3)"
    using assms(1,3) t(1) c2(1) c3
    by (simp add: GetErrorNumberSt_def GetErrorNumber_def dseq_def call_def ask_def to_state_def setd_def
        Disconnect_def only_def on_h_def dret_def)
  obtain u c4 where "TargetUnselect (?d\<lparr>d_state := target_specified\<rparr>) c3 =
      Inr ((True, ?d\<lparr>d_state := connected, d_aux_tty := u\<rparr>), c4)"
    using first [of ?d c3] assms(2) by auto
  then have "GetErrorNumberSt ?d c3 = Inl Freed_handle"
    using c3(2)
    by (simp add: GetErrorNumberSt_def GetErrorNumber_def dseq_def call_def ask_def to_state_def setd_def
        Disconnect_def only_def on_h_def dret_def)
  with 1 show ?thesis by (intro exI [of _ ?d] exI [of _ c3]) simp
qed

theorem error_number_twice_witness:
  "\<exists>d1 c1. GetErrorNumberSt running_object ((started (fresh_h\<lparr>died := True\<rparr>) [] [])
       \<lparr>c_w := \<lparr>mi_error = MI_GDB_DIED, oom = [], live = 0\<rparr>\<rparr>) = Inr ((MI_GDB_DIED, d1), c1) \<and>
     GetErrorNumberSt d1 c1 = Inl Freed_handle"
  using error_number_twice [of running_object "(started (fresh_h\<lparr>died := True\<rparr>) [] [])
       \<lparr>c_w := \<lparr>mi_error = MI_GDB_DIED, oom = [], live = 0\<rparr>\<rparr>"]
  by (auto simp: running_object_def started_def)

end
