(* ===== verification/MI_Converse.thy ===== *)
theory MI_Converse
  imports MI_Lifetime MI_Endings
begin

text \<open>
  Methods of \<open>MIDebugger\<close> that hold a longer conversation with gdb, from the bytes of the answers to the
  object: killing a program, and reading the registers again.
\<close>

section \<open>Several commands in a row\<close>

text \<open>A connection between two commands: gdb runs, nothing half read, nothing left over.\<close>

definition calm :: "conn \<Rightarrow> bool" where
  "calm c \<longleftrightarrow> ready c \<and> catch_console (c_h c) = 0 \<and> po (c_h c) = [] \<and> \<not> died (c_h c) \<and> 0 < pid (c_h c) \<and> waits c = []"

lemma calm_live [simp]: "calm (c\<lparr>c_w := (c_w c)\<lparr>live := n\<rparr>\<rparr>) = calm c"
  by (simp add: calm_def ready_def)

text \<open>What an answer leaves behind, and what a command leaves behind that sent \<open>s\<close> and was answered.\<close>

definition answered :: "char option list \<Rightarrow> int list \<Rightarrow> conn \<Rightarrow> conn \<Rightarrow> bool" where
  "answered rest sel c c1 \<longleftrightarrow> calm c1 \<and> reads c1 = rest \<and> selects c1 = sel \<and> sent c1 = sent c \<and>
     own (line (c_h c1)) = 1"

definition talked :: "string \<Rightarrow> char option list \<Rightarrow> int list \<Rightarrow> conn \<Rightarrow> conn \<Rightarrow> bool" where
  "talked s rest sel c c1 \<longleftrightarrow> calm c1 \<and> reads c1 = rest \<and> selects c1 = sel \<and> sent c1 = sent c @ [s] \<and>
     own (line (c_h c1)) = 1"

lemma answered_live [simp]: "answered rest sel c (c1\<lparr>c_w := (c_w c1)\<lparr>live := n\<rparr>\<rparr>) = answered rest sel c c1"
  by (simp add: answered_def)

lemma talked_answered: "talked s rest sel c c1 = answered rest sel (after_send s c) c1"
  by (simp add: talked_def answered_def)

lemma calm_after_send [simp]: "calm (after_send s c) = calm c"
  by (simp add: calm_def)

lemma answer:
  assumes "calm c" and "\<forall>r\<in>set rs. sendable r" and "reads c = wire rs @ rest"
    and "selects c = replicate (length rs) 1 @ sel"
  shows "\<exists>c1. mi_get_response_blk c = Inr (filter (\<lambda>r. \<not> is_stream r) rs, c1) \<and> answered rest sel c c1 \<and>
    mi_error (c_w c1) = mi_error (c_w c) \<and> mi_error_from_gdb c1 = mi_error_from_gdb c \<and>
    live (c_w c1) = live (c_w c) + (1 - own (line (c_h c))) + blocks_os (filter (\<lambda>r. \<not> is_stream r) rs)"
proof -
  have c: "ready c" "catch_console (c_h c) = 0" "\<not> died (c_h c)" "0 < pid (c_h c)" "waits c = []" "po (c_h c) = []"
    using assms(1) by (simp_all add: calm_def)
  obtain c1 where c1: "mi_get_response_blk c = Inr (filter (\<lambda>r. \<not> is_stream r) rs, c1)"
    "reads c1 = rest" "selects c1 = sel" "waits c1 = []" "ready c1" "callbacks (c_h c1) = callbacks (c_h c)"
    "po (c_h c1) = []" "own (line (c_h c1)) = 1"
    "mi_error (c_w c1) = mi_error (c_w c)" "mi_error_from_gdb c1 = mi_error_from_gdb c"
    "live (c_w c1) = live (c_w c) + (1 - own (line (c_h c))) + blocks_os (filter (\<lambda>r. \<not> is_stream r) rs)"
    using response_wire [OF c(1) assms(2) c(2-5) assms(3,4)] c(6) by auto
  have "sent c1 = sent c" using mute.holdsD [OF mute.holds_blk c1(1)] by (simp add: same_sent_def)
  moreover have "catch_console (c_h c1) = 0 \<and> \<not> died (c_h c1) \<and> 0 < pid (c_h c1)"
    using c1(6) assms(1) by (simp add: callbacks_def calm_def)
  ultimately show ?thesis using c1 by (auto simp: answered_def calm_def)
qed

lemma talk:
  assumes "calm c" and "\<forall>r\<in>set rs. sendable r" and "reads c = wire rs @ rest"
    and "selects c = replicate (length rs) 1 @ sel"
  shows "\<exists>c1. mi_get_response_blk (after_send s c) = Inr (filter (\<lambda>r. \<not> is_stream r) rs, c1) \<and>
    talked s rest sel c c1 \<and>
    live (c_w c1) = live (c_w c) + (1 - own (line (c_h c))) + blocks_os (filter (\<lambda>r. \<not> is_stream r) rs)"
  using answer [of "after_send s c" rs rest sel] assms by (auto simp: talked_answered)

lemma simple_talk:
  assumes "simple_call high low line_of cls" and "calm c" and "\<forall>r\<in>set rs. sendable r"
    and "reads c = wire rs @ rest" and "selects c = replicate (length rs) 1 @ sel"
  shows "\<exists>c1. high c = Inr (result_class rs = Some cls, c1) \<and> talked (line_of c @ [NEWLINE]) rest sel c c1 \<and>
    live (c_w c1) = live (c_w c) + (1 - own (line (c_h c)))"
proof -
  let ?s = "line_of c @ [NEWLINE]" and ?k = "blocks_os (filter (\<lambda>r. \<not> is_stream r) rs)"
  obtain c1 where c1: "mi_get_response_blk (after_send ?s c) = Inr (filter (\<lambda>r. \<not> is_stream r) rs, c1)"
    "talked ?s rest sel c c1" "live (c_w c1) = live (c_w c) + (1 - own (line (c_h c))) + ?k"
    using talk [OF assms(2-5), of ?s] by blast
  have "high c = Inr (result_class rs = Some cls, c1\<lparr>c_w := add_live (- ?k) (c_w c1)\<rparr>)"
    using simple_command.high_answer [OF simple_call_command [OF assms(1)] _ _ c1(1)] assms(2)
    unfolding the_record_class result_class_filter by (simp add: calm_def ready_def)
  moreover have "talked ?s rest sel c (c1\<lparr>c_w := add_live (- ?k) (c_w c1)\<rparr>)"
    using c1(2) by (simp add: talked_def)
  ultimately show ?thesis using c1(3) by auto
qed

lemma show_talk:
  assumes "calm c" and "sendable (value_record v)" and "reads c = wire [value_record v] @ rest"
    and "selects c = 1 # sel" and "var \<noteq> ''architecture''"
  shows "\<exists>c1. gmi_gdb_show var c = Inr (Some v, c1) \<and> talked (''-gdb-show '' @ var @ [NEWLINE]) rest sel c c1 \<and>
    live (c_w c1) = live (c_w c) + (1 - own (line (c_h c))) + 1"
proof -
  let ?s = "''-gdb-show '' @ var @ [NEWLINE]"
  have one: "filter (\<lambda>r. \<not> is_stream r) [value_record v] = [value_record v]" "blocks_os [value_record v] = 4"
    by (simp_all add: is_stream_def value_record_def record_codes blocks_o_def)
  obtain c1 where c1: "mi_get_response_blk (after_send ?s c) = Inr ([value_record v], c1)" "talked ?s rest sel c c1"
    "live (c_w c1) = live (c_w c) + (1 - own (line (c_h c))) + 4"
    using talk [OF assms(1) _ assms(3), of sel ?s] assms(2,4) unfolding one by auto
  have "mi_gdb_show var c = Inr ((), after_send ?s c)"
    using assms(1,5) by (simp add: mi_gdb_show_def cmd_def seq_def mi_send_run ret_def calm_def ready_def)
  moreover have "record_ok (value_record v)" using assms(2) by (simp add: sendable_def solid_output_def)
  note rv = res_value_run [OF c1(1) this]
  ultimately have "gmi_gdb_show var c = Inr (Some v, c1\<lparr>c_w := add_live (- 3) (c_w c1)\<rparr>)"
    by (simp add: gmi_gdb_show_def seq_def rv)
  with c1(2,3) show ?thesis by (auto simp: talked_def)
qed


definition done_answer :: "mi_output list" where
  "done_answer = [\<lparr>o_type = 1, o_stype = 0, o_sstype = 0, o_tclass = 2, o_c = []\<rparr>]"


section \<open>Registers read again\<close>

text \<open>What a register becomes when \<open>chg\<close> are the changed ones.\<close>

definition refreshed :: "mi_chg_reg list \<Rightarrow> mi_chg_reg \<Rightarrow> mi_chg_reg" where
  "refreshed chg r = (case find (\<lambda>c. rg_reg c = rg_reg r) chg of
       None \<Rightarrow> r\<lparr>rg_updated := False\<rparr>
     | Some c \<Rightarrow> r\<lparr>rg_updated := True, rg_val := rg_val c\<rparr>)"

lemma give_value_find:
  "(case give_value n chg of
      None \<Rightarrow> find (\<lambda>c. rg_reg c = n) chg = None
    | Some (v, chg1) \<Rightarrow>
        (\<exists>c. find (\<lambda>c. rg_reg c = n) chg = Some c \<and> v = rg_val c) \<and>
        (\<forall>k. k \<noteq> n \<longrightarrow> find (\<lambda>c. rg_reg c = k) chg1 = find (\<lambda>c. rg_reg c = k) chg) \<and>
        length chg1 = length chg \<and> (\<Sum>c\<leftarrow>chg1. blocks_reg c) = (\<Sum>c\<leftarrow>chg. blocks_reg c) - own v)"
proof (induction chg)
  case (Cons a chg)
  have "blocks_reg (a\<lparr>rg_val := None\<rparr>) = blocks_reg a - own (rg_val a)" by (simp add: blocks_reg_def)
  with Cons show ?case by (auto split: option.splits)
qed simp

lemma give_value_cases:
  obtains "give_value n chg = None" "find (\<lambda>c. rg_reg c = n) chg = None"
  | c chg1 where "give_value n chg = Some (rg_val c, chg1)" "find (\<lambda>c. rg_reg c = n) chg = Some c"
    "\<And>k. k \<noteq> n \<Longrightarrow> find (\<lambda>c. rg_reg c = k) chg1 = find (\<lambda>c. rg_reg c = k) chg"
    "length chg1 = length chg" "(\<Sum>c\<leftarrow>chg1. blocks_reg c) = (\<Sum>c\<leftarrow>chg. blocks_reg c) - own (rg_val c)"
  using give_value_find [of n chg] by (cases "give_value n chg") auto

lemma blocks_reg_chg: "int (length chg) \<le> (\<Sum>c\<leftarrow>chg. blocks_reg c)"
proof (induction chg)
  case (Cons a chg)
  have "1 \<le> blocks_reg a" by (simp add: blocks_reg_def own_def split: option.split)
  with Cons show ?case by simp
qed simp

lemma update_all_run:
  assumes "distinct (map rg_reg regs)"
  shows "\<exists>w1 lost. update_all regs chg w = (int (length (filter rg_updated (map (refreshed chg) regs))),
      map (refreshed chg) regs, w1) \<and> int (length chg) \<le> lost \<and>
    live w1 - (\<Sum>r\<leftarrow>map (refreshed chg) regs. blocks_reg r) =
      live w - (\<Sum>r\<leftarrow>regs. blocks_reg r) - (\<Sum>c\<leftarrow>chg. blocks_reg c) + lost"
  using assms
proof (induction regs arbitrary: chg w)
  case Nil
  show ?case using blocks_reg_chg [of chg] by auto
next
  case (Cons r rs)
  show ?case
  proof (rule give_value_cases [of "rg_reg r" chg])
    assume g: "give_value (rg_reg r) chg = None" "find (\<lambda>c. rg_reg c = rg_reg r) chg = None"
    then have "blocks_reg (refreshed chg r) = blocks_reg r" "\<not> rg_updated (refreshed chg r)"
      "refreshed chg r = r\<lparr>rg_updated := False\<rparr>"
      by (simp_all add: refreshed_def blocks_reg_def)
    with g Cons.IH [of chg w] Cons.prems show ?thesis by auto
  next
    fix c chg1
    assume g: "give_value (rg_reg r) chg = Some (rg_val c, chg1)" "find (\<lambda>c. rg_reg c = rg_reg r) chg = Some c"
      "\<And>k. k \<noteq> rg_reg r \<Longrightarrow> find (\<lambda>c. rg_reg c = k) chg1 = find (\<lambda>c. rg_reg c = k) chg"
      "length chg1 = length chg" "(\<Sum>c\<leftarrow>chg1. blocks_reg c) = (\<Sum>c\<leftarrow>chg. blocks_reg c) - own (rg_val c)"
    have "rg_reg x \<noteq> rg_reg r" if "x \<in> set rs" for x using Cons.prems that by (auto simp: image_iff)
    with g(3) have same: "map (refreshed chg1) rs = map (refreshed chg) rs" by (simp add: refreshed_def)
    have new: "refreshed chg r = r\<lparr>rg_updated := True, rg_val := rg_val c\<rparr>"
      "blocks_reg (refreshed chg r) = blocks_reg r - own (rg_val r) + own (rg_val c)"
      using g(2) by (simp_all add: refreshed_def blocks_reg_def)
    obtain w1 lost where "update_all rs chg1 (c_free (rg_val r) w) =
        (int (length (filter rg_updated (map (refreshed chg) rs))), map (refreshed chg) rs, w1)"
      "int (length chg1) \<le> lost"
      "live w1 - (\<Sum>r\<leftarrow>map (refreshed chg) rs. blocks_reg r) =
         live (c_free (rg_val r) w) - (\<Sum>r\<leftarrow>rs. blocks_reg r) - (\<Sum>c\<leftarrow>chg1. blocks_reg c) + lost"
      using Cons.IH [of chg1 "c_free (rg_val r) w"] Cons.prems unfolding same by auto
    with g(1,4,5) new show ?thesis by (auto simp: c_free_live)
  qed
qed

text \<open>A result of one list, and what a reader of such a list makes of it.\<close>

definition list_record :: "string \<Rightarrow> mi_results list \<Rightarrow> mi_output" where
  "list_record v l = \<lparr>o_type = MI_T_RESULT_RECORD, o_stype = 0, o_sstype = 0, o_tclass = MI_CL_DONE,
     o_c = [MiRes (Some v) (VList l)]\<rparr>"

lemma list_answer:
  assumes "calm c" and "sendable (list_record v l)" and "reads c = wire [list_record v l] @ rest"
    and "selects c = 1 # sel" and "\<And>w. oom w = [] \<Longrightarrow> parse l w = Inr (a, la, add_live k w)"
  shows "\<exists>c1. seq (mi_res_done_var v) (read_value (\<lambda>r. r_type r = t_list) none parse) c = Inr (a, c1) \<and>
    answered rest sel c c1 \<and>
    live (c_w c1) = live (c_w c) + (1 - own (line (c_h c))) + blocks_l l - blocks_l la + k"
proof -
  let ?x = "MiRes (Some v) (VList l)" and ?r = "[list_record v l]"
  have one: "filter (\<lambda>r. \<not> is_stream r) ?r = ?r" by (simp add: is_stream_def list_record_def record_codes)
  obtain c1 where c1: "mi_get_response_blk c = Inr (?r, c1)" "answered rest sel c c1"
    "live (c_w c1) = live (c_w c) + (1 - own (line (c_h c))) + blocks_os ?r"
    using answer [OF assms(1) _ assms(3), of sel] assms(2,4) unfolding one by auto
  have "list_all record_ok ?r" using assms(2) by (simp add: sendable_def solid_output_def)
  moreover have "lookup ?r MI_CL_DONE v = Some ?x" by (simp add: lookup_def the_record_def list_record_def)
  ultimately have var: "mi_res_done_var v c =
      Inr (Some ?x, c1\<lparr>c_w := add_live (blocks_r ?x - blocks_os ?r) (c_w c1)\<rparr>)"
    using res_var_find [OF c1(1)] by (simp add: mi_res_done_var_def blocks_opt_def)
  have "oom (c_w c1) = []" using c1(2) by (simp add: answered_def calm_def ready_def)
  with assms(5) var show ?thesis
    using c1(2,3)
    by (auto simp: seq_def read_value_def pure_run_def c_rs_def on_w_def heap_def ret_def free_live set_rs_def)
qed

lemma scan_changed:
  "oom w = [] \<Longrightarrow> scan chgregs_node rs (map (\<lambda>s. MiRes None (VConst (Some s))) ns) w =
     Inr (rs @ map (\<lambda>s. zero_chg_reg\<lparr>rg_reg := atoi s\<rparr>) ns, map (\<lambda>s. MiRes None (VConst (Some s))) ns,
       add_live (int (length ns)) w)"
  by (induction ns arbitrary: rs w)
    (simp_all add: chgregs_node_def plain_const_def new_reg_def mi_alloc_chg_reg_def algebra_simps)

text \<open>A command in pieces.\<close>

lemma send_regs_run:
  "calm c \<Longrightarrow> \<exists>c1. send_regs l c = Inr ((), c1) \<and> calm c1 \<and> reads c1 = reads c \<and> selects c1 = selects c \<and>
     c_h c1 = c_h c \<and> c_w c1 = c_w c \<and>
     concat (sent c1) = concat (sent c) @ concat (map (\<lambda>r. dec (rg_reg r) @ '' '') l) @ [NEWLINE]"
proof (induction l arbitrary: c)
  case Nil
  then show ?case by (simp add: cmd_def seq_def mi_send_run ret_def calm_def ready_def)
next
  case (Cons r l)
  have "piece (dec (rg_reg r) @ '' '') c = Inr ((), after_send (dec (rg_reg r) @ '' '') c)"
    using Cons.prems by (simp add: piece_def seq_def mi_send_run ret_def calm_def ready_def)
  with Cons.IH [of "after_send (dec (rg_reg r) @ '' '') c"] Cons.prems show ?case
    by (auto simp: seq_def)
qed

text \<open>The changed registers as gdb names them and as the object reads them: numbers and values.\<close>

definition changed_regs :: "(string \<times> string) list \<Rightarrow> mi_chg_reg list" where
  "changed_regs ps = map (\<lambda>p. zero_chg_reg\<lparr>rg_reg := atoi (fst p), rg_val := Some (snd p)\<rparr>) ps"

definition changed_numbers :: "(string \<times> string) list \<Rightarrow> mi_output" where
  "changed_numbers ps = list_record ''changed-registers'' (map (\<lambda>s. MiRes None (VConst (Some s))) (map fst ps))"

definition changed_values :: "(string \<times> string) list \<Rightarrow> mi_output" where
  "changed_values ps = list_record ''register-values'' (map reg_value ps)"

lemma calm_error [simp]: "calm (c\<lparr>c_w := (c_w c)\<lparr>mi_error := e\<rparr>\<rparr>) = calm c"
  by (simp add: calm_def ready_def)

lemma taken_blocks: "blocks_l (map reg_value ps) = blocks_l (map reg_taken ps) + int (length ps)"
  by (induction ps) (simp_all add: reg_value_def reg_taken_def)

lemma changed_regs_blocks: "(\<Sum>r\<leftarrow>changed_regs ps. blocks_reg r) = 2 * int (length ps)"
  by (induction ps) (simp_all add: changed_regs_def blocks_reg_def zero_chg_reg_def)

lemma list_changed_run:
  assumes "calm c" and "sendable (changed_numbers ps)" and "reads c = wire [changed_numbers ps] @ rest"
    and "selects c = 1 # sel"
  shows "\<exists>c1. gmi_data_list_changed_registers c = Inr (map (\<lambda>p. zero_chg_reg\<lparr>rg_reg := atoi (fst p)\<rparr>) ps, c1) \<and>
    talked (''-data-list-changed-registers'' @ [NEWLINE]) rest sel c c1 \<and>
    live (c_w c1) = live (c_w c) + (1 - own (line (c_h c))) + int (length ps)"
proof -
  let ?s = "''-data-list-changed-registers'' @ [NEWLINE]"
  let ?c = "after_send ?s (c\<lparr>c_w := (c_w c)\<lparr>mi_error := MI_OK\<rparr>\<rparr>)"
  have "calm ?c" using assms(1) by simp
  moreover have "mi_parse_list_changed_regs (map (\<lambda>s. MiRes None (VConst (Some s))) (map fst ps)) w =
      Inr (map (\<lambda>p. zero_chg_reg\<lparr>rg_reg := atoi (fst p)\<rparr>) ps,
        map (\<lambda>s. MiRes None (VConst (Some s))) (map fst ps), add_live (int (length ps)) w)" if "oom w = []" for w
    using scan_changed [OF that, of "[]" "map fst ps"] by (simp add: mi_parse_list_changed_regs_def comp_def)
  moreover note list_answer [where c = ?c and v = "''changed-registers''" and rest = rest and sel = sel and
      l = "map (\<lambda>s. MiRes None (VConst (Some s))) (map fst ps)" and parse = mi_parse_list_changed_regs and
      a = "map (\<lambda>p. zero_chg_reg\<lparr>rg_reg := atoi (fst p)\<rparr>) ps" and k = "int (length ps)" and
      la = "map (\<lambda>s. MiRes None (VConst (Some s))) (map fst ps)" and none = "[]"]
  ultimately obtain c1 where "mi_get_list_changed_regs ?c = Inr (map (\<lambda>p. zero_chg_reg\<lparr>rg_reg := atoi (fst p)\<rparr>) ps, c1)"
    "answered rest sel ?c c1" "live (c_w c1) = live (c_w c) + (1 - own (line (c_h c))) + int (length ps)"
    using assms unfolding mi_get_list_changed_regs_def changed_numbers_def by auto
  moreover have "mi_data_list_changed_registers (c\<lparr>c_w := (c_w c)\<lparr>mi_error := MI_OK\<rparr>\<rparr>) = Inr ((), ?c)"
    using assms(1) by (simp add: mi_data_list_changed_registers_def cmd_def seq_def mi_send_run ret_def calm_def ready_def)
  ultimately show ?thesis
    by (simp add: gmi_data_list_changed_registers_def seq_def set_error_def heap_def talked_def answered_def)
qed

lemma register_values_run:
  assumes "calm c" and "sendable (changed_values ps)" and "reads c = wire [changed_values ps] @ rest"
    and "selects c = 1 # sel"
  shows "\<exists>c1. gmi_data_list_register_values fm_natural (map (\<lambda>p. zero_chg_reg\<lparr>rg_reg := atoi (fst p)\<rparr>) ps) c =
      Inr ((True, changed_regs ps), c1) \<and> calm c1 \<and> reads c1 = rest \<and>
    concat (sent c1) = concat (sent c) @ ''-data-list-register-values N '' @
      concat (map (\<lambda>p. dec (atoi (fst p)) @ '' '') ps) @ [NEWLINE] \<and>
    live (c_w c1) = live (c_w c) + (1 - own (line (c_h c))) + int (length ps)"
proof -
  let ?l = "map (\<lambda>p. zero_chg_reg\<lparr>rg_reg := atoi (fst p)\<rparr>) ps"
  let ?c = "after_send ''-data-list-register-values N '' c"
  have piece: "piece ''-data-list-register-values N '' c = Inr ((), ?c)"
    using assms(1) by (simp add: piece_def seq_def mi_send_run ret_def calm_def ready_def)
  obtain c1 where c1: "send_regs ?l ?c = Inr ((), c1)" "calm c1" "reads c1 = reads c" "selects c1 = selects c"
    "c_h c1 = c_h c" "c_w c1 = c_w c"
    "concat (sent c1) = concat (sent ?c) @ concat (map (\<lambda>r. dec (rg_reg r) @ '' '') ?l) @ [NEWLINE]"
    using send_regs_run [of ?c ?l] assms(1) by auto
  moreover have "mi_parse_reg_values (map reg_value ps) ?l w = Inr (True, changed_regs ps, map reg_taken ps, w)" for w
  proof -
    have "list_all2 (\<lambda>p l. atoi (fst p) = rg_reg l) ps ?l" by (simp add: list_all2_map2 list.rel_refl)
    moreover have "map2 (\<lambda>p l. l\<lparr>rg_val := Some (snd p)\<rparr>) ps ?l = changed_regs ps"
      by (induction ps) (simp_all add: changed_regs_def)
    ultimately show ?thesis using reg_values_match [of ps ?l w] by simp
  qed
  moreover note list_answer [where c = c1 and v = "''register-values''" and l = "map reg_value ps" and rest = rest and
      sel = sel and parse = "\<lambda>r w. bnd (mi_parse_reg_values r ?l w) (\<lambda>(ok, l1, r1, w1). Inr ((ok, l1), r1, w1))" and
      a = "(True, changed_regs ps)" and la = "map reg_taken ps" and k = 0 and none = "(False, ?l)"]
  ultimately obtain c2 where "mi_get_reg_values ?l c1 = Inr ((True, changed_regs ps), c2)" "answered rest sel c1 c2"
    "live (c_w c2) = live (c_w c) + (1 - own (line (c_h c))) + int (length ps)"
    using assms(2-4) unfolding mi_get_reg_values_def changed_values_def taken_blocks by auto
  with c1 piece show ?thesis
    by (auto simp: gmi_data_list_register_values_def mi_data_list_register_values_def seq_def answered_def comp_def)
qed

lemma changed_registers_run:
  assumes "d_state d = stopped" and "d_h d = Live_h" and "calm c" and "ps \<noteq> []"
    and "sendable (changed_numbers ps)" and "sendable (changed_values ps)"
    and "reads c = wire [changed_numbers ps] @ wire [changed_values ps] @ rest" and "selects c = 1 # 1 # sel"
  shows "\<exists>c1. GetChangedRegisters d c = Inr ((changed_regs ps, d), c1) \<and> calm c1 \<and> reads c1 = rest \<and>
    concat (sent c1) = concat (sent c) @ ''-data-list-changed-registers'' @ [NEWLINE] @ ''-data-list-register-values N '' @
      concat (map (\<lambda>p. dec (atoi (fst p)) @ '' '') ps) @ [NEWLINE] \<and>
    live (c_w c1) = live (c_w c) + (1 - own (line (c_h c))) + (\<Sum>r\<leftarrow>changed_regs ps. blocks_reg r)"
proof -
  obtain c1 where c1: "gmi_data_list_changed_registers c = Inr (map (\<lambda>p. zero_chg_reg\<lparr>rg_reg := atoi (fst p)\<rparr>) ps, c1)"
    "talked (''-data-list-changed-registers'' @ [NEWLINE]) (wire [changed_values ps] @ rest) (1 # sel) c c1"
    "live (c_w c1) = live (c_w c) + (1 - own (line (c_h c))) + int (length ps)"
    using list_changed_run [OF assms(3,5,7,8)] by blast
  obtain c2 where c2: "gmi_data_list_register_values fm_natural (map (\<lambda>p. zero_chg_reg\<lparr>rg_reg := atoi (fst p)\<rparr>) ps) c1 =
      Inr ((True, changed_regs ps), c2)" "calm c2" "reads c2 = rest"
    "concat (sent c2) = concat (sent c1) @ ''-data-list-register-values N '' @
      concat (map (\<lambda>p. dec (atoi (fst p)) @ '' '') ps) @ [NEWLINE]"
    "live (c_w c2) = live (c_w c1) + (1 - own (line (c_h c1))) + int (length ps)"
    using register_values_run [of c1 ps rest sel] c1(2) assms(6) by (auto simp: talked_def)
  show ?thesis
    using assms(1,2,4) c1 c2
    by (auto simp: GetChangedRegisters_def only_def dseq_def on_h_def call_def dret_def talked_def changed_regs_blocks)
qed



section \<open>The value of an expression\<close>

lemma res_value_error:
  assumes "mi_get_response_blk c = Inr ([error_record m], c1)" and "record_ok (error_record m)"
  shows "mi_res_value c = Inr (None, c1\<lparr>c_w := add_live (- 4) (c_w c1)\<rparr>)"
proof -
  have "list_all record_ok [error_record m]" using assms(2) by simp
  moreover have "lookup [error_record m] MI_CL_DONE ''value'' = None"
    by (simp add: lookup_def the_record_def error_record_def record_codes)
  ultimately have "mi_res_done_var ''value'' c = Inr (None, c1\<lparr>c_w := add_live (- 4) (c_w c1)\<rparr>)"
    using res_var_find [OF assms(1)] by (simp add: mi_res_done_var_def blocks_opt_def error_record_basic)
  then show ?thesis by (simp add: mi_res_value_def seq_def ret_def)
qed

lemma eval_run:
  assumes "\<not> died (c_h c)" and "oom (c_w c) = []" and "d_state d \<in> set idle" and "d_h d = Live_h"
    and "mi_res_value (after_send (''-data-evaluate-expression '' @ in_quotes e @ [NEWLINE])
      (c\<lparr>c_w := (c_w c)\<lparr>mi_error := MI_OK\<rparr>\<rparr>)) = Inr (r, c1)"
  shows "EvalExpression e d c = (if r = None \<and> mi_error_from_gdb c1 \<noteq> None
    then call (dup (the (mi_error_from_gdb c1))) d c1 else Inr ((r, d), c1))"
proof -
  have "mi_data_evaluate_expression e (c\<lparr>c_w := (c_w c)\<lparr>mi_error := MI_OK\<rparr>\<rparr>) =
      Inr ((), after_send (''-data-evaluate-expression '' @ in_quotes e @ [NEWLINE]) (c\<lparr>c_w := (c_w c)\<lparr>mi_error := MI_OK\<rparr>\<rparr>))"
    using assms(1,2) by (simp add: mi_data_evaluate_expression_def cmd_def seq_def mi_send_run ret_def)
  with assms(3-5) show ?thesis
    by (auto simp: EvalExpression_def only_def dseq_def call_def set_error_def heap_def on_h_def value_or_message_def
        gmi_data_evaluate_expression_def seq_def ask_def ret_def split: option.splits sum.splits prod.splits)
qed

text \<open>
  C34: \<open>EvalExpression\<close>, from end to end: gdb is sent the expression between quotes, and the result is the text gdb
  answers with, be it the value or the message of an error. The two can be told apart by \<open>mi_error\<close>
  alone. The caller owns the text; after an error the global message is a second copy of it.
\<close>

theorem eval_reports:
  assumes "d_state d \<in> {connected, target_specified, stopped}" and "d_h d = Live_h" and "calm c"
    and "sendable (value_record t)" and "solid_output (error_record t)" and "CRET \<notin> set (print_output (error_record t))"
    and "reads c = wire [if good then value_record t else error_record t] @ rest" and "selects c = 1 # sel"
  shows "\<exists>c1. EvalExpression e d c = Inr ((Some t, d), c1) \<and> reads c1 = rest \<and>
    sent c1 = sent c @ [''-data-evaluate-expression '' @ in_quotes e @ [NEWLINE]] \<and>
    mi_error (c_w c1) = (if good then MI_OK else MI_FROM_GDB) \<and>
    mi_error_from_gdb c1 = (if good then mi_error_from_gdb c else Some t) \<and>
    live (c_w c1) = live (c_w c) + (1 - own (line (c_h c))) + 1 + (if good then 0 else 1 - own (mi_error_from_gdb c))"
proof -
  let ?s = "''-data-evaluate-expression '' @ in_quotes e @ [NEWLINE]"
  let ?c = "after_send ?s (c\<lparr>c_w := (c_w c)\<lparr>mi_error := MI_OK\<rparr>\<rparr>)"
  have calm: "calm ?c" using assms(3) by simp
  have c: "ready ?c" "\<not> died (c_h ?c)" "0 < pid (c_h ?c)" "waits ?c = []" "po (c_h ?c) = []"
    using calm by (simp_all add: calm_def)
  have st: "d_state d \<in> set idle" and run: "\<not> died (c_h c)" "oom (c_w c) = []"
    using assms(1,3) by (auto simp: calm_def ready_def)
  note eval = eval_run [OF run st assms(2)]
  show ?thesis
  proof (cases good)
    case True
    have one: "filter (\<lambda>r. \<not> is_stream r) [value_record t] = [value_record t]" "blocks_os [value_record t] = 4"
      by (simp_all add: is_stream_def value_record_def record_codes blocks_o_def)
    obtain c1 where c1: "mi_get_response_blk ?c = Inr ([value_record t], c1)" "answered rest sel ?c c1"
      "mi_error (c_w c1) = MI_OK" "mi_error_from_gdb c1 = mi_error_from_gdb c"
      "live (c_w c1) = live (c_w ?c) + (1 - own (line (c_h ?c))) + 4"
      using answer [OF calm, of "[value_record t]" rest sel] assms(4,7,8) True unfolding one by auto
    have "record_ok (value_record t)" using assms(4) by (simp add: sendable_def solid_output_def)
    from eval [OF res_value_run [OF c1(1) this]] True c1(2-5) show ?thesis
      by (auto simp: answered_def)
  next
    case False
    obtain c1 where c1: "mi_get_response_blk ?c = Inr ([error_record t], c1)" "reads c1 = rest" "ready c1"
      "mi_error (c_w c1) = MI_FROM_GDB" "mi_error_from_gdb c1 = Some t"
      "live (c_w c1) = live (c_w c) + (1 - own (line (c_h c))) + 5 - own (mi_error_from_gdb c)"
      using error_blk [OF c(1) assms(5,6) c(2-5), of rest sel] assms(7,8) False by auto
    have "sent c1 = sent c @ [?s]" using mute.holdsD [OF mute.holds_blk c1(1)] by (simp add: same_sent_def)
    moreover have "record_ok (error_record t)" using assms(5) by (simp add: solid_output_def)
    moreover have "oom (c_w c1) = []" using c1(3) by (simp add: ready_def)
    ultimately show ?thesis
      using eval [OF res_value_error [OF c1(1)]] False c1
      by (auto simp: call_def dup_def on_w_def c_strdup_def)
  qed
qed

theorem eval_reports_witness:
  "\<exists>c1. EvalExpression ''x'' (running_object\<lparr>d_state := stopped\<rparr>)
      (started fresh_h (wire [error_record ''No symbol x.'']) [1]) =
    Inr ((Some ''No symbol x.'', running_object\<lparr>d_state := stopped\<rparr>), c1) \<and>
    mi_error (c_w c1) = MI_FROM_GDB \<and> live (c_w c1) = 3"
proof -
  let ?c = "started fresh_h (wire [error_record ''No symbol x.'']) [1]"
  let ?d = "running_object\<lparr>d_state := stopped\<rparr>"
  have ok: "sendable (value_record ''No symbol x.'')" "solid_output (error_record ''No symbol x.'')"
    "CRET \<notin> set (print_output (error_record ''No symbol x.''))"
    by (simp_all add: value_record_def error_record_def sendable_def solid_output_def record_ok_def record_codes
        plain_def print_output_def text_of_def class_text_def print_results_def good_name_def
        mi_is_var_name_char_def isalnum_def is_digit_def)
  have c: "calm ?c" "reads ?c = wire [error_record ''No symbol x.''] @ []" "selects ?c = 1 # []"
    "own (line (c_h ?c)) = 0" "live (c_w ?c) = 0" "mi_error_from_gdb ?c = None"
    by (simp_all add: calm_def started_def fresh_h_def ready_def buf_ok_def)
  have d: "d_state ?d \<in> {connected, target_specified, stopped}" "d_h ?d = Live_h"
    by (simp_all add: running_object_def)
  show ?thesis
    using eval_reports [OF d c(1) ok, of False "[]" "[]" "''x''"] c(2-6) by auto
qed

text \<open>
  C37: \<open>EvalExpression\<close> resets \<open>mi_error\<close> but not the global message. When the answer does not come because gdb is
  known to be dead, the text it returns is the message of an error gdb reported earlier, for some other
  command, although \<open>mi_error\<close> says that gdb is gone.
\<close>

theorem eval_stale_message:
  assumes "d_state d \<in> {connected, target_specified, stopped}" and "d_h d = Live_h"
    and "died (c_h c)" and "oom (c_w c) = []" and "mi_error_from_gdb c = Some s"
  shows "\<exists>c1. EvalExpression e d c = Inr ((Some s, d), c1) \<and> mi_error (c_w c1) = MI_GDB_DIED \<and>
    sent c1 = sent c \<and> reads c1 = reads c \<and> live (c_w c1) = live (c_w c) + 1"
proof -
  let ?c = "c\<lparr>c_w := (c_w c)\<lparr>mi_error := MI_OK\<rparr>\<rparr>"
  have "mi_get_response_blk ?c = Inr ([], ?c\<lparr>c_h := (c_h ?c)\<lparr>died := True\<rparr>,
      c_w := (c_w ?c)\<lparr>mi_error := MI_GDB_DIED\<rparr>\<rparr>)" (is "_ = Inr ([], ?c1)")
    using assms(3) by (simp add: mi_get_response_blk_def mi_check_running_def set_died_def com_defs)
  moreover have "lookup [] MI_CL_DONE ''value'' = None" by (simp add: lookup_def the_record_def)
  ultimately have "mi_res_value ?c = Inr (None, ?c1)"
    using res_var_find [of ?c "[]" ?c1] by (simp add: mi_res_value_def mi_res_done_var_def seq_def ret_def blocks_opt_def)
  moreover have "mi_data_evaluate_expression e ?c = Inr ((), ?c)"
    using assms(3) by (simp add: mi_data_evaluate_expression_def cmd_def seq_def mi_send_dead ret_def)
  ultimately have "gmi_data_evaluate_expression e ?c = Inr (None, ?c1)"
    by (simp add: gmi_data_evaluate_expression_def seq_def)
  moreover have "d_state d \<in> set idle" using assms(1) by auto
  ultimately show ?thesis
    using assms(2,4,5)
    by (auto simp: EvalExpression_def only_def dseq_def call_def set_error_def heap_def on_h_def value_or_message_def
        seq_def ask_def ret_def dup_def on_w_def c_strdup_def)
qed

theorem eval_stale_message_witness:
  "\<exists>c1. EvalExpression ''x'' (running_object\<lparr>d_state := stopped\<rparr>)
      ((started (fresh_h\<lparr>died := True\<rparr>) [] [])\<lparr>mi_error_from_gdb := Some ''No breakpoint number 7.''\<rparr>) =
    Inr ((Some ''No breakpoint number 7.'', running_object\<lparr>d_state := stopped\<rparr>), c1) \<and> mi_error (c_w c1) = MI_GDB_DIED"
  using eval_stale_message [of "running_object\<lparr>d_state := stopped\<rparr>"
      "(started (fresh_h\<lparr>died := True\<rparr>) [] [])\<lparr>mi_error_from_gdb := Some ''No breakpoint number 7.''\<rparr>"
      "''No breakpoint number 7.''" "''x''"]
  by (auto simp: running_object_def started_def)

end
