(* ===== verification/MI_Malformed.thy ===== *)
theory MI_Malformed
  imports MI_Roundtrip
begin

text \<open>
  What the parser of \<open>src/parse.c\<close> makes of lines outside the grammar: unknown records, constants that do
  not end, and lists with an empty element, for all texts of each kind.
\<close>

section \<open>Unknown records\<close>

lemma strncmp_eq_none:
  assumes "NUL \<notin> set k" and "take (length k) s \<noteq> k"
  shows "strncmp_eq k (s @ NUL # p) = Inr False"
  using assms
proof (induction k arbitrary: s)
  case (Cons c k)
  then show ?case by (cases s) auto
qed simp

lemma unknown_mark:
  "oom w = [] \<Longrightarrow> c \<notin> set ''^*+=~@&'' \<Longrightarrow>
     mi_parse_gdb_output (c # s) w = Inr (None, w\<lparr>mi_error := MI_PARSER, live := live w + 1\<rparr>)"
  by (simp add: mi_parse_gdb_output_def Let_def)

lemma unknown_result:
  assumes "oom w = []" and "\<forall>k\<in>set [''done'', ''running'', ''connected'', ''error'', ''exit'']. take (length k) s \<noteq> k"
  shows "mi_parse_gdb_output (cbuf (CHR ''^'' # s)) w = Inr (None, w\<lparr>mi_error := MI_UNKNOWN_RESULT, live := live w + 1\<rparr>)"
proof -
  have "strncmp_eq k (s @ [NUL]) = Inr False" if "k \<in> set [''done'', ''running'', ''connected'', ''error'', ''exit'']" for k
    using assms(2) that by (intro strncmp_eq_none) auto
  then have "strncmp_eq ''done'' (s @ [NUL]) = Inr False" "strncmp_eq ''running'' (s @ [NUL]) = Inr False"
    "strncmp_eq ''connected'' (s @ [NUL]) = Inr False" "strncmp_eq ''error'' (s @ [NUL]) = Inr False"
    "strncmp_eq ''exit'' (s @ [NUL]) = Inr False"
    by simp_all
  with assms(1) show ?thesis
    by (simp only: mi_parse_gdb_output_def mi_parse_result_record_def cbuf_def Let_def append_Cons deref_simps bnd_simps
        mi_alloc_output_ok prod.case option.case list.sel if_False simp_thms) simp
qed

lemma unknown_asyn:
  assumes "oom w = []" and "m \<in> set ''*+=''" and "\<forall>k\<in>set [''stopped'', ''download'']. take (length k) s \<noteq> k"
  shows "mi_parse_gdb_output (cbuf (m # s)) w = Inr (None, w\<lparr>mi_error := MI_UNKNOWN_ASYNC\<rparr>)"
proof -
  have "strncmp_eq ''stopped'' (s @ [NUL]) = Inr False" "strncmp_eq ''download'' (s @ [NUL]) = Inr False"
    using assms(3) by (intro strncmp_eq_none; simp)+
  then have "mi_parse_asyn n r (s @ [NUL]) w1 = Inr (None,
      mi_free_output [r\<lparr>o_type := MI_T_OUT_OF_BAND, o_stype := MI_ST_ASYNC\<rparr>] (w1\<lparr>mi_error := MI_UNKNOWN_ASYNC\<rparr>))" for n r w1
    by (simp only: mi_parse_asyn_def Let_def bnd_simps if_False)
  note asyn = this
  from assms(2) consider "m = CHR ''*''" | "m = CHR ''+''" | "m = CHR ''=''" by auto
  then show ?thesis
    by cases (simp_all add: assms(1) asyn mi_parse_gdb_output_def cbuf_def mi_parse_exec_asyn_def mi_parse_status_asyn_def
        mi_parse_notify_asyn_def Let_def blocks_o_def free_live)
qed

text \<open>
  C38: A failed parse is not always clean. A line that starts with none of the seven record marks, the empty
  line included, and a result class gdb does not document, leave the fresh record on the heap (one
  block); an unknown asynchronous class releases it. In each case \<open>mi_error\<close> says what was wrong.
\<close>

theorem unknown_records:
  assumes "oom w = []" and "c \<notin> set ''^*+=~@&''" and "m \<in> set ''*+=''"
    and "\<forall>k\<in>set [''done'', ''running'', ''connected'', ''error'', ''exit'']. take (length k) s \<noteq> k"
    and "\<forall>k\<in>set [''stopped'', ''download'']. take (length k) t \<noteq> k"
  shows "mi_parse_gdb_output (c # q) w = Inr (None, w\<lparr>mi_error := MI_PARSER, live := live w + 1\<rparr>) \<and>
    mi_parse_gdb_output (cbuf (CHR ''^'' # s)) w = Inr (None, w\<lparr>mi_error := MI_UNKNOWN_RESULT, live := live w + 1\<rparr>) \<and>
    mi_parse_gdb_output (cbuf (m # t)) w = Inr (None, w\<lparr>mi_error := MI_UNKNOWN_ASYNC\<rparr>)"
  using unknown_mark [OF assms(1,2)] unknown_result [OF assms(1,4)] unknown_asyn [OF assms(1,3,5)] by blast

theorem unknown_records_witness:
  "mi_parse_gdb_output (cbuf ''^undone'') \<lparr>mi_error = 0, oom = [], live = 0\<rparr> =
     Inr (None, \<lparr>mi_error = 7, oom = [], live = 1\<rparr>)"
  using unknown_records [of "\<lparr>mi_error = 0, oom = [], live = 0\<rparr>" "NUL" "CHR ''*''" "''undone''" "''undone''"]
  by (simp add: error_codes)

section \<open>Constants that do not end\<close>

lemma cstr_more_NUL: "cstr_more (NUL # p) = Inr False"
  by (simp add: cstr_more_def)

lemma measure_open:
  "NUL \<notin> set t \<Longrightarrow> measure_cstr (concat (map esc t) @ NUL # p) k = Inr (Some (k + length t))"
  by (induction t arbitrary: k) (auto simp: cstr_more_plain cstr_more_NUL)

lemma copy_open:
  "NUL \<notin> set t \<Longrightarrow> copy_cstr (concat (map esc t) @ NUL # p) (Suc (length t)) = Inr (t, NUL # p)"
  by (induction t) (auto simp: cstr_more_plain cstr_more_NUL unescape_def)

lemma measure_bslash:
  "NUL \<notin> set t \<Longrightarrow> measure_cstr (concat (map esc t) @ [BSLASH, NUL]) k = Inl Over_read"
  by (induction t arbitrary: k) (auto simp: cstr_more_plain)

lemma const_open:
  "NUL \<notin> set t \<Longrightarrow> oom w = [] \<Longrightarrow>
     mi_get_cstring_r (QUOTE # concat (map esc t) @ NUL # p) w = Inr (Some p, VConst (Some t), add_live 1 w)"
  using measure_open [of t p 0] by (simp add: mi_get_cstring_r_def copy_open takeWhile_no_NUL)

lemma const_bslash:
  "NUL \<notin> set t \<Longrightarrow> mi_get_cstring_r (QUOTE # concat (map esc t) @ [BSLASH, NUL]) w = Inl Over_read"
  by (simp add: mi_get_cstring_r_def measure_bslash)

text \<open>The first result of a record, when it is a constant.\<close>

lemma first_const:
  assumes "oom w = []" and "list_all mi_is_var_name_char v"
  shows "mi_parse_gdb_output (cbuf (''^done,'' @ v @ ''='' @ QUOTE # s)) w =
    bnd (mi_get_cstring_r (QUOTE # s @ [NUL]) (add_live 3 w)) (\<lambda>(e, x, w1). case e of
        None \<Rightarrow> Inr (None, mi_free_output [\<lparr>o_type = MI_T_RESULT_RECORD, o_stype = 0, o_sstype = 0, o_tclass = MI_CL_DONE, o_c = []\<rparr>]
          (mi_free_results [MiRes (Some v) x] w1))
      | Some q \<Rightarrow> mi_get_results_alone (parse_fuel (''done,'' @ v @ ''='' @ QUOTE # s @ [NUL]) - 1)
          \<lparr>o_type = MI_T_RESULT_RECORD, o_stype = 0, o_sstype = 0, o_tclass = MI_CL_DONE, o_c = [MiRes (Some v) x]\<rparr> True q w1)"
proof -
  define n where "n = parse_fuel (''done,'' @ v @ ''='' @ QUOTE # s @ [NUL]) - 4"
  have n: "parse_fuel (''done,'' @ v @ ''='' @ QUOTE # s @ [NUL]) = Suc (Suc (Suc (Suc n)))"
    by (simp add: n_def parse_fuel_def)
  have "mi_get_result (Suc (Suc (Suc n))) (v @ CHR ''='' # QUOTE # s @ [NUL]) (add_live 1 w) =
      bnd (mi_get_cstring_r (QUOTE # s @ [NUL]) (add_live 3 w)) (\<lambda>(e, x, w1). case e of
        None \<Rightarrow> Inr (None, mi_free_results [MiRes (Some v) x] w1)
      | Some q \<Rightarrow> Inr (Some (MiRes (Some v) x, q), w1))"
    using assms by (simp add: name_print add.assoc)
  then have "mi_get_results_alone (Suc (Suc (Suc (Suc n)))) \<lparr>o_type = MI_T_RESULT_RECORD, o_stype = 0, o_sstype = 0,
      o_tclass = MI_CL_DONE, o_c = []\<rparr> False (CHR '','' # v @ CHR ''='' # QUOTE # s @ [NUL]) (add_live 1 w) =
    bnd (mi_get_cstring_r (QUOTE # s @ [NUL]) (add_live 3 w)) (\<lambda>(e, x, w1). case e of
        None \<Rightarrow> Inr (None, mi_free_output [\<lparr>o_type = MI_T_RESULT_RECORD, o_stype = 0, o_sstype = 0, o_tclass = MI_CL_DONE, o_c = []\<rparr>]
          (mi_free_results [MiRes (Some v) x] w1))
      | Some q \<Rightarrow> mi_get_results_alone (Suc (Suc (Suc n)))
          \<lparr>o_type = MI_T_RESULT_RECORD, o_stype = 0, o_sstype = 0, o_tclass = MI_CL_DONE, o_c = [MiRes (Some v) x]\<rparr> True q w1)"
    by (cases "mi_get_cstring_r (QUOTE # s @ [NUL]) (add_live 3 w)")
      (auto simp del: mi_get_result.simps mi_get_results_alone.simps(2) simp: mi_get_results_alone.simps(2) [of "Suc (Suc (Suc n))"]
        split: option.split)
  moreover have "strncmp_eq ''done'' (''done,'' @ q) = Inr True" for q by simp
  ultimately show ?thesis
    using assms(1) unfolding n diff_Suc_1
    by (simp add: n [simplified] mi_parse_gdb_output_def cbuf_def mi_parse_result_record_def Let_def
        del: mi_get_results_alone.simps mi_get_result.simps)
qed

text \<open>
  C39: A constant with no closing quote is taken as if the NUL were the quote: as the last result of a record it
  makes the parser read the byte after the buffer, and as the text of a stream it is accepted. A constant
  that ends in a backslash is read past the NUL already while it is measured: the test of
  \<open>mi_get_cstring_r\<close> for this case looks at the backslash, which is never NUL.
\<close>

theorem open_constants:
  assumes "oom w = []" and "NUL \<notin> set t" and "list_all mi_is_var_name_char v"
  shows "mi_parse_gdb_output (cbuf (''^done,'' @ v @ ''='' @ QUOTE # concat (map esc t))) w = Inl Over_read \<and>
    mi_parse_gdb_output (cbuf (CHR ''~'' # QUOTE # concat (map esc t))) w =
      Inr (Some \<lparr>o_type = MI_T_OUT_OF_BAND, o_stype = MI_ST_STREAM, o_sstype = MI_SST_CONSOLE, o_tclass = 0,
        o_c = [MiRes None (VConst (Some t))]\<rparr>, add_live 3 w) \<and>
    mi_parse_gdb_output (cbuf (''^done,'' @ v @ ''='' @ QUOTE # concat (map esc t) @ [BSLASH])) w = Inl Over_read \<and>
    mi_parse_gdb_output (cbuf (CHR ''~'' # QUOTE # concat (map esc t) @ [BSLASH])) w = Inl Over_read"
proof (intro conjI)
  note first = first_const [OF assms(1,3)]
  show "mi_parse_gdb_output (cbuf (''^done,'' @ v @ ''='' @ QUOTE # concat (map esc t))) w = Inl Over_read"
    using assms(1,2) unfolding first by (simp add: const_open parse_fuel_def numeral_eq_Suc)
  show "mi_parse_gdb_output (cbuf (''^done,'' @ v @ ''='' @ QUOTE # concat (map esc t) @ [BSLASH])) w = Inl Over_read"
    using assms(1,2) unfolding first by (simp add: const_bslash)
  show "mi_parse_gdb_output (cbuf (CHR ''~'' # QUOTE # concat (map esc t))) w =
      Inr (Some \<lparr>o_type = MI_T_OUT_OF_BAND, o_stype = MI_ST_STREAM, o_sstype = MI_SST_CONSOLE, o_tclass = 0,
        o_c = [MiRes None (VConst (Some t))]\<rparr>, add_live 3 w)"
    using assms(1,2)
    by (simp add: mi_parse_gdb_output_def cbuf_def mi_console_stream_def mi_console_def const_open Let_def)
  show "mi_parse_gdb_output (cbuf (CHR ''~'' # QUOTE # concat (map esc t) @ [BSLASH])) w = Inl Over_read"
    using assms(1,2)
    by (simp add: mi_parse_gdb_output_def cbuf_def mi_console_stream_def mi_console_def const_bslash Let_def)
qed

theorem open_constants_witness:
  "mi_parse_gdb_output (cbuf ''^done,a=\"x'') \<lparr>mi_error = 0, oom = [], live = 0\<rparr> = Inl Over_read"
  using open_constants [of "\<lparr>mi_error = 0, oom = [], live = 0\<rparr>" "''x''" "''a''"]
  by (simp add: mi_is_var_name_char_def isalnum_def is_digit_def)

section \<open>Lists with an empty element\<close>

text \<open>The loop over some results that are followed by a comma and more text.\<close>

lemma list_res_more:
  assumes "\<forall>r\<in>set rs. r_var r \<noteq> None \<and> solid_r r" and "rs \<noteq> []" and "closeC \<in> {CHR '']'', CHR ''}''}"
    and "3 * length (commas (map print_r rs)) + 2 + k \<le> n" and "oom w = []"
  shows "\<exists>m. k \<le> m \<and> mi_get_list_res n acc last_r (commas (map print_r rs) @ CHR '','' # p) closeC w =
    mi_get_list_res m ((if last_r then acc else []) @ rs) True p closeC (add_live (blocks_l rs) w)"
  using assms
proof (induction rs arbitrary: n acc last_r w)
  case (Cons r rs)
  from Cons.prems(4) obtain m where n: "n = Suc m" by (cases n) auto
  let ?acc = "(if last_r then acc else []) @ [r]"
  have r: "r_var r \<noteq> None \<and> solid_r r" using Cons.prems(1) by simp
  then have pr: "0 < length (print_r r)" using hd_print_named [of r] solid_facts(1) [of r] by auto
  have one: "mi_get_list_res n acc last_r (print_r r @ CHR '','' # q) closeC w =
      mi_get_list_res m ?acc True q closeC (add_live (blocks_r r) w)" if "3 * length (print_r r) + 1 \<le> m" for q
  proof -
    have "mi_get_result m (print_r r @ CHR '','' # q) w = Inr (Some (r, CHR '','' # q), add_live (blocks_r r) w)"
      using print_back(1) [of r] r that Cons.prems(5) by (auto simp: linux.result_back_def)
    with Cons.prems(3) show ?thesis by (auto simp: n)
  qed
  show ?case
  proof (cases rs)
    case Nil
    with one [of p] Cons.prems n show ?thesis
      by (intro exI [of _ m]) (auto simp del: mi_get_list_res.simps)
  next
    case more: (Cons r' rs')
    obtain m' where "k \<le> m'" "mi_get_list_res m ?acc True (commas (map print_r rs) @ CHR '','' # p) closeC
        (add_live (blocks_r r) w) = mi_get_list_res m' (?acc @ rs) True p closeC
          (add_live (blocks_l rs) (add_live (blocks_r r) w))"
      using Cons.IH [of m "add_live (blocks_r r) w" ?acc True] Cons.prems more n by auto
    with one [of "commas (map print_r rs) @ CHR '','' # p"] Cons.prems(4) more n pr show ?thesis
      by (intro exI [of _ m']) (auto simp: algebra_simps simp del: mi_get_list_res.simps)
  qed
qed simp

lemma empty_element:
  assumes "d \<in> {CHR '','', CHR ''}''}"
  shows "mi_get_result (Suc m) (d # p) w = Inr (None, w\<lparr>mi_error := MI_PARSER\<rparr>)"
  using assms by (auto simp: mi_get_var_name_def)

lemma list_res_trailing:
  assumes "\<forall>r\<in>set rs. r_var r \<noteq> None \<and> solid_r r" and "rs \<noteq> []" and "oom w = []"
    and "3 * length (commas (map print_r rs)) + 6 \<le> n"
  shows "mi_get_list_res n [] False (commas (map print_r rs) @ '',}'' @ p) CHR ''}'' w =
    Inr (Some p, rs, (add_live (blocks_l rs) w)\<lparr>mi_error := MI_PARSER\<rparr>)"
proof -
  obtain m where "4 \<le> m" "mi_get_list_res n [] False (commas (map print_r rs) @ '',}'' @ p) CHR ''}'' w =
      mi_get_list_res m rs True (CHR ''}'' # p) CHR ''}'' (add_live (blocks_l rs) w)"
    using list_res_more [OF assms(1,2), of "CHR ''}''" 4 n w "[]" False "CHR ''}'' # p"] assms(3,4) by auto
  moreover obtain i where "m = Suc (Suc i)" using \<open>4 \<le> m\<close> by (cases m; cases "m - 1") auto
  ultimately show ?thesis by (simp add: empty_element del: mi_get_result.simps)
qed

lemma list_res_double:
  assumes "\<forall>r\<in>set (rs @ rs'). r_var r \<noteq> None \<and> solid_r r" and "rs \<noteq> []" and "oom w = []"
    and "3 * length (commas (map print_r rs)) + 3 * length (commas (map print_r rs')) + 9 \<le> n"
  shows "mi_get_list_res n [] False (commas (map print_r rs) @ '',,'' @ commas (map print_r rs') @ CHR ''}'' # p) CHR ''}'' w =
    Inr (Some p, rs', (add_live (blocks_l rs + blocks_l rs') w)\<lparr>mi_error := MI_PARSER\<rparr>)"
proof -
  let ?c' = "commas (map print_r rs')" and ?w = "(add_live (blocks_l rs) w)\<lparr>mi_error := MI_PARSER\<rparr>"
  have solid: "\<forall>r\<in>set rs. r_var r \<noteq> None \<and> solid_r r" "\<forall>r\<in>set rs'. r_var r \<noteq> None \<and> solid_r r"
    using assms(1) by auto
  obtain m where m: "3 * length ?c' + 7 \<le> m"
    "mi_get_list_res n [] False (commas (map print_r rs) @ CHR '','' # CHR '','' # ?c' @ CHR ''}'' # p) CHR ''}'' w =
      mi_get_list_res m rs True (CHR '','' # ?c' @ CHR ''}'' # p) CHR ''}'' (add_live (blocks_l rs) w)"
    using list_res_more [OF solid(1) assms(2), of "CHR ''}''" "3 * length ?c' + 7" n w "[]" False "CHR '','' # ?c' @ CHR ''}'' # p"]
      assms(3,4) by auto
  obtain i where i: "m = Suc (Suc (Suc i))" using m(1) by (cases m; cases "m - 1"; cases "m - 2") auto
  have "mi_get_list_res (Suc (Suc (Suc i))) rs True (CHR '','' # ?c' @ CHR ''}'' # p) CHR ''}'' (add_live (blocks_l rs) w) =
      mi_get_list_res (Suc (Suc i)) rs False (?c' @ CHR ''}'' # p) CHR ''}'' ?w"
    by (subst mi_get_list_res.simps(2)) (simp add: empty_element del: mi_get_result.simps mi_get_list_res.simps)
  moreover have "mi_get_list_res (Suc (Suc i)) rs False (?c' @ CHR ''}'' # p) CHR ''}'' ?w =
      Inr (Some p, rs', add_live (blocks_l rs') ?w)"
  proof (cases rs')
    case (Cons r rs'')
    with linux.list_res_back [of rs' "CHR ''}''" "Suc (Suc i)" ?w rs False p] solid(2) print_back(1) m(1) i assms(3) show ?thesis
      by auto
  qed (simp add: empty_element del: mi_get_result.simps)
  ultimately show ?thesis
    using m(2) i by (simp add: add.assoc del: mi_get_list_res.simps)
qed

definition tuple_record :: "string \<Rightarrow> mi_results list \<Rightarrow> mi_output" where
  "tuple_record v rs = \<lparr>o_type = MI_T_RESULT_RECORD, o_stype = 0, o_sstype = 0, o_tclass = MI_CL_DONE,
     o_c = [MiRes (Some v) (VTuple rs)]\<rparr>"

text \<open>A record whose only result is a tuple, with the loop over the elements left open.\<close>

lemma tuple_line:
  assumes "oom w = []" and "list_all mi_is_var_name_char v" and "s \<noteq> []" and "hd s \<noteq> CHR ''}''"
    and "\<And>n w1. oom w1 = [] \<Longrightarrow> 3 * length s \<le> n \<Longrightarrow>
      mi_get_list_res n [] False (s @ [NUL]) CHR ''}'' w1 = Inr (Some [NUL], l, (add_live k w1)\<lparr>mi_error := MI_PARSER\<rparr>)"
  shows "mi_parse_gdb_output (cbuf (''^done,'' @ v @ ''={'' @ s)) w =
    Inr (Some (tuple_record v l), (add_live (3 + k) w)\<lparr>mi_error := MI_PARSER\<rparr>)"
proof -
  let ?str = "''done,'' @ v @ ''={'' @ s @ [NUL]" and ?w = "add_live 3 w"
  define n where "n = parse_fuel ?str - 6"
  have n: "parse_fuel ?str = Suc (Suc (Suc (Suc (Suc (Suc n)))))" "3 * length s \<le> Suc n"
    by (simp_all add: n_def parse_fuel_def)
  obtain d t where s: "s = d # t" "d \<noteq> CHR ''}''" using assms(3,4) by (cases s) auto
  have "mi_get_list_res (Suc (Suc n)) [] False (d # t @ [NUL]) CHR ''}'' ?w = Inr (Some [NUL], l, (add_live k ?w)\<lparr>mi_error := MI_PARSER\<rparr>)"
    using assms(5) [of ?w "Suc (Suc n)"] assms(1) n(2) s by simp
  then have "mi_get_value (Suc (Suc (Suc (Suc n)))) (CHR ''{'' # s @ [NUL]) ?w =
      Inr (Some [NUL], VTuple l, (add_live k ?w)\<lparr>mi_error := MI_PARSER\<rparr>)"
    using s by (simp del: mi_get_list_res.simps)
  then have "mi_get_result (Suc (Suc (Suc (Suc (Suc n))))) (v @ CHR ''='' # CHR ''{'' # s @ [NUL]) (add_live 1 w) =
      Inr (Some (MiRes (Some v) (VTuple l), [NUL]), (add_live k ?w)\<lparr>mi_error := MI_PARSER\<rparr>)"
    using assms(1,2) by (simp add: name_print add.assoc del: mi_get_value.simps)
  then have "mi_get_results_alone (Suc (Suc (Suc (Suc (Suc (Suc n)))))) \<lparr>o_type = MI_T_RESULT_RECORD, o_stype = 0, o_sstype = 0,
      o_tclass = MI_CL_DONE, o_c = []\<rparr> False (CHR '','' # v @ CHR ''='' # CHR ''{'' # s @ [NUL]) (add_live 1 w) =
      Inr (Some (tuple_record v l), (add_live (3 + k) w)\<lparr>mi_error := MI_PARSER\<rparr>)"
    by (simp add: tuple_record_def add.assoc add.commute del: mi_get_result.simps)
  then show ?thesis
    using assms(1) n(1) [simplified]
    by (simp add: mi_parse_gdb_output_def cbuf_def mi_parse_result_record_def Let_def
        del: mi_get_results_alone.simps mi_get_result.simps)
qed

text \<open>
  C32: An empty element in a tuple of results is no error to the caller, although \<open>mi_error\<close> is set. After a
  comma at the end the tuple is complete. After two commas in a row, everything before them is lost:
  the record has only the elements behind, and the blocks of the others stay on the heap.
\<close>

theorem empty_elements:
  assumes "oom w = []" and "list_all mi_is_var_name_char v" and "rs \<noteq> []"
    and "\<forall>r\<in>set (rs @ rs'). r_var r \<noteq> None \<and> solid_r r"
  shows "mi_parse_gdb_output (cbuf (''^done,'' @ v @ ''={'' @ commas (map print_r rs) @ '',}'')) w =
      Inr (Some (tuple_record v rs), (add_live (blocks_o (tuple_record v rs)) w)\<lparr>mi_error := MI_PARSER\<rparr>) \<and>
    mi_parse_gdb_output (cbuf (''^done,'' @ v @ ''={'' @ commas (map print_r rs) @ '',,'' @ commas (map print_r rs') @ ''}'')) w =
      Inr (Some (tuple_record v rs'), (add_live (blocks_o (tuple_record v rs') + blocks_l rs) w)\<lparr>mi_error := MI_PARSER\<rparr>)"
proof
  let ?c = "commas (map print_r rs)" and ?c' = "commas (map print_r rs')"
  have solid: "\<forall>r\<in>set rs. r_var r \<noteq> None \<and> solid_r r" using assms(4) by auto
  have hd: "?c @ t \<noteq> []" "hd (?c @ t) \<noteq> CHR ''}''" for t
    using hd_commas [of rs] hd_print_named [of "hd rs"] solid_facts(1) [of "hd rs"] assms(3) solid by auto
  show "mi_parse_gdb_output (cbuf (''^done,'' @ v @ ''={'' @ ?c @ '',}'')) w =
      Inr (Some (tuple_record v rs), (add_live (blocks_o (tuple_record v rs)) w)\<lparr>mi_error := MI_PARSER\<rparr>)"
    using hd list_res_trailing [OF solid assms(3), where p = "[NUL]"]
    by (subst tuple_line [OF assms(1,2), of "?c @ '',}''" rs "blocks_l rs"]) (simp_all add: tuple_record_def blocks_o_def)
  show "mi_parse_gdb_output (cbuf (''^done,'' @ v @ ''={'' @ ?c @ '',,'' @ ?c' @ ''}'')) w =
      Inr (Some (tuple_record v rs'), (add_live (blocks_o (tuple_record v rs') + blocks_l rs) w)\<lparr>mi_error := MI_PARSER\<rparr>)"
    using hd list_res_double [OF assms(4,3), where p = "[NUL]"]
    by (subst tuple_line [OF assms(1,2), of "?c @ '',,'' @ ?c' @ ''}''" rs' "blocks_l rs + blocks_l rs'"])
      (simp_all add: tuple_record_def blocks_o_def)
qed

theorem empty_elements_witness:
  "\<exists>w. mi_parse_gdb_output (cbuf ''^done,frame={level=\"0\",,func=\"f\"}'') \<lparr>mi_error = 0, oom = [], live = 0\<rparr> =
    Inr (Some (tuple_record ''frame'' [MiRes (Some ''func'') (VConst (Some ''f''))]), w) \<and> live w = 9"
  using empty_elements [of "\<lparr>mi_error = 0, oom = [], live = 0\<rparr>" "''frame''"
      "[MiRes (Some ''level'') (VConst (Some ''0''))]" "[MiRes (Some ''func'') (VConst (Some ''f''))]"]
  by (simp add: good_name_def mi_is_var_name_char_def isalnum_def is_digit_def tuple_record_def blocks_o_def)

end
