(* ===== verification/MI_Builds.thy ===== *)
theory MI_Builds
  imports MI_Roundtrip MI_Term MI_Frames
begin

text \<open>
  The parts of the library that are compiled in other builds than the one for Linux: \<open>src/parse.c\<close> for Mac OS X, where
  a tuple may hold bare values and the frames of the stack may come in one, and the terminals of
  \<open>src/get_free_pty.c\<close> and \<open>src/get_free_vt.c\<close> on Mac OS X and elsewhere. The functions carry the suffix of their build.
\<close>

section \<open>Values on Mac OS X\<close>

text \<open>
  The functions of \<open>MI_Parse\<close> that call each other, with \<open>mi_get_tuple_val\<close> and the other branch of \<open>mi_get_tuple\<close>.
\<close>

function (sequential) mi_get_list_res_apple ::
    "nat \<Rightarrow> mi_results list \<Rightarrow> bool \<Rightarrow> cptr \<Rightarrow> char \<Rightarrow> world
      \<Rightarrow> (cptr option \<times> mi_results list \<times> world) run"
  and mi_get_tuple_val_apple ::
    "nat \<Rightarrow> mi_results list \<Rightarrow> cptr \<Rightarrow> world
      \<Rightarrow> (cptr option \<times> mi_results list \<times> world) run"
  and mi_get_tuple_apple :: "nat \<Rightarrow> cptr \<Rightarrow> world \<Rightarrow> (cptr option \<times> mi_val \<times> world) run"
  and mi_get_list_val_apple ::
    "nat \<Rightarrow> mi_results list \<Rightarrow> cptr \<Rightarrow> world
      \<Rightarrow> (cptr option \<times> mi_results list \<times> world) run"
  and mi_get_list_apple :: "nat \<Rightarrow> cptr \<Rightarrow> world \<Rightarrow> (cptr option \<times> mi_val \<times> world) run"
  and mi_get_value_apple :: "nat \<Rightarrow> cptr \<Rightarrow> world \<Rightarrow> (cptr option \<times> mi_val \<times> world) run"
  and mi_get_result_apple :: "nat \<Rightarrow> cptr \<Rightarrow> world \<Rightarrow> ((mi_results \<times> cptr) option \<times> world) run"
where
  "mi_get_list_res_apple 0 acc last_r str closeC w = Inl Out_of_fuel"
| "mi_get_list_res_apple (Suc n) acc last_r str closeC w =
     bnd (mi_get_result_apple n str w) (\<lambda>(rs, w1).
       let acc1 = (case rs of
                     Some (node, _) \<Rightarrow> if last_r then acc @ [node] else [node]
                   | None \<Rightarrow> if last_r then acc else []);
           str1 = (case rs of Some (_, e) \<Rightarrow> e | None \<Rightarrow> str)
       in bnd (deref str1) (\<lambda>c.
         if c = closeC then Inr (Some (tl str1), acc1, w1)
         else if c \<noteq> CHR '','' then Inr (None, acc1, w1\<lparr>mi_error := MI_PARSER\<rparr>)
         else mi_get_list_res_apple n acc1 (rs \<noteq> None) (tl str1) closeC w1))"
| "mi_get_tuple_val_apple 0 acc str w = Inl Out_of_fuel"
| "mi_get_tuple_val_apple (Suc n) acc str w =
     (case mi_alloc_results w of
        (None, w1) \<Rightarrow> Inr (None, acc, w1)
      | (Some _, w1) \<Rightarrow>
          bnd (mi_get_value_apple n str w1) (\<lambda>(e, x, w2).
            case e of
              None \<Rightarrow> Inr (None, acc, mi_free_results [MiRes None x] w2)
            | Some str1 \<Rightarrow>
                let acc1 = acc @ [MiRes None x] in
                bnd (deref str1) (\<lambda>c.
                  if c = CHR ''}'' then Inr (Some (tl str1), acc1, w2)
                  else if c \<noteq> CHR '','' then Inr (None, acc1, w2\<lparr>mi_error := MI_PARSER\<rparr>)
                  else mi_get_tuple_val_apple n acc1 (tl str1) w2)))"
| "mi_get_tuple_apple 0 str w = Inl Out_of_fuel"
| "mi_get_tuple_apple (Suc n) str w = bnd (deref str) (\<lambda>c.
     if c \<noteq> CHR ''{'' then Inr (None, VConst None, w\<lparr>mi_error := MI_PARSER\<rparr>)
     else bnd (deref (tl str)) (\<lambda>d.
       if d = CHR ''}'' then Inr (Some (tl (tl str)), VTuple [], w)
       else if mi_is_var_name_char d
       then bnd (mi_get_list_res_apple n [] False (tl str) CHR ''}'' w) (\<lambda>(e, l, w1).
         Inr (e, VTuple l, w1))
       else bnd (mi_get_tuple_val_apple n [] (tl str) w) (\<lambda>(e, l, w1).
         Inr (e, VTuple l, w1))))"
| "mi_get_list_val_apple 0 acc str w = Inl Out_of_fuel"
| "mi_get_list_val_apple (Suc n) acc str w =
     (case mi_alloc_results w of
        (None, w1) \<Rightarrow> Inr (None, acc, w1)
      | (Some _, w1) \<Rightarrow>
          bnd (mi_get_value_apple n str w1) (\<lambda>(e, x, w2).
            case e of
              None \<Rightarrow> Inr (None, acc, mi_free_results [MiRes None x] w2)
            | Some str1 \<Rightarrow>
                let acc1 = acc @ [MiRes None x] in
                bnd (deref str1) (\<lambda>c.
                  if c = CHR '']'' then Inr (Some (tl str1), acc1, w2)
                  else if c \<noteq> CHR '','' then Inr (None, acc1, w2\<lparr>mi_error := MI_PARSER\<rparr>)
                  else mi_get_list_val_apple n acc1 (tl str1) w2)))"
| "mi_get_list_apple 0 str w = Inl Out_of_fuel"
| "mi_get_list_apple (Suc n) str w = bnd (deref str) (\<lambda>c.
     if c \<noteq> CHR ''['' then Inr (None, VConst None, w\<lparr>mi_error := MI_PARSER\<rparr>)
     else bnd (deref (tl str)) (\<lambda>d.
       if d = CHR '']'' then Inr (Some (tl (tl str)), VList [], w)
       else if mi_is_var_name_char d
       then bnd (mi_get_list_res_apple n [] False (tl str) CHR '']'' w) (\<lambda>(e, l, w1).
         Inr (e, VList l, w1))
       else bnd (mi_get_list_val_apple n [] (tl str) w) (\<lambda>(e, l, w1).
         Inr (e, VList l, w1))))"
| "mi_get_value_apple 0 str w = Inl Out_of_fuel"
| "mi_get_value_apple (Suc n) str w = bnd (deref str) (\<lambda>c.
     if c = QUOTE then mi_get_cstring_r str w
     else if c = CHR ''{'' then mi_get_tuple_apple n str w
     else if c = CHR ''['' then mi_get_list_apple n str w
     else Inr (None, VConst None, w\<lparr>mi_error := MI_PARSER\<rparr>))"
| "mi_get_result_apple 0 str w = Inl Out_of_fuel"
| "mi_get_result_apple (Suc n) str w =
     bnd (mi_get_var_name str w) (\<lambda>(var, w1).
       case var of
         None \<Rightarrow> Inr (None, w1)
       | Some (v, s) \<Rightarrow>
           (case mi_alloc_results w1 of
              (None, w2) \<Rightarrow> Inr (None, c_free (Some v) w2)
            | (Some _, w2) \<Rightarrow>
                bnd (mi_get_value_apple n s w2) (\<lambda>(e, x, w3).
                  case e of
                    None \<Rightarrow> Inr (None, mi_free_results [MiRes (Some v) x] w3)
                  | Some q \<Rightarrow> Inr (Some (MiRes (Some v) x, q), w3))))"
  by pat_completeness auto
termination
  by (relation "measure (case_sum (case_sum fst (case_sum fst fst))
        (case_sum (case_sum fst fst) (case_sum fst fst)))") simp_all

interpretation apple: value_reader mi_get_value_apple mi_get_list_val_apple mi_get_list_res_apple mi_get_tuple_apple
    mi_get_list_apple mi_get_result_apple
  by unfold_locales (rule mi_get_list_val_apple.simps mi_get_list_res_apple.simps mi_get_list_apple.simps
      mi_get_value_apple.simps mi_get_result_apple.simps | simp)+

interpretation apple_tuple: value_loop mi_get_value_apple mi_get_tuple_val_apple "CHR ''}''"
  by unfold_locales (rule mi_get_tuple_val_apple.simps | simp)+

text \<open>The trees this build reads: a tuple, like a list, has named elements only, or bare values only.\<close>

fun tidy_r :: "mi_results \<Rightarrow> bool" and tidy_v :: "mi_val \<Rightarrow> bool" where
  "tidy_r (MiRes v x) \<longleftrightarrow> good_name v \<and> tidy_v x"
| "tidy_v (VConst s) \<longleftrightarrow> (case s of None \<Rightarrow> False | Some t \<Rightarrow> NUL \<notin> set t)"
| "tidy_v (VTuple rs) \<longleftrightarrow>
     ((\<forall>r\<in>set rs. r_var r \<noteq> None \<and> r_var r \<noteq> Some []) \<or> (\<forall>r\<in>set rs. r_var r = None)) \<and>
     (\<forall>r\<in>set rs. tidy_r r)"
| "tidy_v (VList rs) \<longleftrightarrow>
     ((\<forall>r\<in>set rs. r_var r \<noteq> None \<and> r_var r \<noteq> Some []) \<or> (\<forall>r\<in>set rs. r_var r = None)) \<and>
     (\<forall>r\<in>set rs. tidy_r r)"

lemma tidy_facts:
  assumes "tidy_r r"
  shows "good_name (r_var r)" and "r_val r \<noteq> VConst None"
  using assms by (cases r; auto)+

lemma tidy_uniform:
  assumes "tidy_v (VTuple rs) \<or> tidy_v (VList rs)"
  shows "named_all rs \<or> bare_all rs"
  using assms by (auto simp: named_all_def bare_all_def tidy_facts)

lemma apple_tuple_back:
  assumes "\<forall>r\<in>set rs. apple.value_back (r_val r) \<and> (r_var r \<noteq> None \<longrightarrow> apple.result_back r)"
    and "named_all rs \<or> bare_all rs"
  shows "apple.value_back (VTuple rs)"
  unfolding apple.value_back_def
proof (intro allI impI)
  fix n p and w :: world
  assume n: "3 * length (print_v (VTuple rs)) + 1 \<le> n" and "sep p" and w: "oom w = []"
  then obtain m where m: "n = Suc (Suc m)" by (cases n; cases "n - 1") auto
  show "mi_get_value_apple n (print_v (VTuple rs) @ p) w = Inr (Some p, VTuple rs, add_live (blocks_v (VTuple rs)) w)"
  proof (cases "rs = []")
    case False
    show ?thesis
    proof (cases "bare_all rs")
      case True
      have "mi_get_tuple_val_apple m [] (commas (map print_r rs) @ CHR ''}'' # p) w =
          Inr (Some p, [] @ rs, add_live (blocks_l rs) w)"
        using assms n m w False True by (intro apple_tuple.vals_back) (auto simp: bare_all_def)
      with bare_all_hd [OF True False] show ?thesis using False by (auto simp: m)
    next
      case named: False
      have "mi_get_list_res_apple m [] False (commas (map print_r rs) @ CHR ''}'' # p) CHR ''}'' w =
          Inr (Some p, (if False then [] else []) @ rs, add_live (blocks_l rs) w)"
        using assms n m w False named by (intro apple.list_res_back) (auto simp: named_all_def)
      with named_all_hd [of rs] assms(2) named False show ?thesis by (auto simp: m)
    qed
  qed (simp add: m)
qed

lemma apple_print_back:
  "tidy_r r \<Longrightarrow> apple.value_back (r_val r) \<and> (r_var r \<noteq> None \<longrightarrow> apple.result_back r)"
  "tidy_v x \<Longrightarrow> apple.value_back x"
proof (induction r and x rule: print_r_print_v.induct)
  case (1 v x)
  then show ?case by (auto intro: apple.named_back)
next
  case (3 rs)
  then show ?case using tidy_uniform [of rs] by (intro apple_tuple_back) auto
next
  case (4 rs)
  then show ?case using tidy_uniform [of rs] by (intro apple.list_back) auto
qed (rule apple.const_back, auto split: option.splits)

lemma linux_bare_tuple:
  assumes "bare_all rs" and "rs \<noteq> []" and "oom w = []"
  shows "mi_get_value (Suc (Suc (Suc (Suc n)))) (print_v (VTuple rs) @ p) w =
    Inr (None, VTuple [], w\<lparr>mi_error := MI_PARSER\<rparr>)"
proof -
  obtain c t where c: "commas (map print_r rs) = c # t" "c \<in> {QUOTE, CHR ''{'', CHR ''[''}"
    using bare_all_hd [OF assms(1,2)] by blast
  have "mi_get_var_name (c # q) w = Inr (None, w\<lparr>mi_error := MI_PARSER\<rparr>)" for q
    using c(2) by (auto simp: mi_get_var_name_def)
  then show ?thesis using c by auto
qed

text \<open>
  C16: On Mac OS X the parser reads back every value whose lists and tuples have named elements only or bare values only:
  same tree, all bytes used, exactly the blocks of the tree. On the values the grammar of the other builds
  covers as well, the builds agree; a tuple of bare values is an error of the parser in the other builds.
\<close>

theorem builds_compare:
  assumes "tidy_v x" and "3 * length (print_v x) + 1 \<le> n" and "sep p" and "oom w = []"
  shows "mi_get_value_apple n (print_v x @ p) w = Inr (Some p, x, add_live (blocks_v x) w) \<and>
    (solid_v x \<longrightarrow> mi_get_value n (print_v x @ p) w = mi_get_value_apple n (print_v x @ p) w) \<and>
    (\<forall>rs. x = VTuple rs \<and> rs \<noteq> [] \<and> (\<forall>r\<in>set rs. r_var r = None) \<longrightarrow>
      mi_get_value n (print_v x @ p) w = Inr (None, VTuple [], w\<lparr>mi_error := MI_PARSER\<rparr>))"
proof -
  have apple: "mi_get_value_apple n (print_v x @ p) w = Inr (Some p, x, add_live (blocks_v x) w)"
    using apple_print_back(2) [OF assms(1)] assms(2-4) by (simp add: apple.value_back_def)
  have linux: "solid_v x \<Longrightarrow> mi_get_value n (print_v x @ p) w = Inr (Some p, x, add_live (blocks_v x) w)"
    using print_back(2) [of x] assms(2-4) by (simp add: linux.value_back_def)
  have "mi_get_value n (print_v x @ p) w = Inr (None, VTuple [], w\<lparr>mi_error := MI_PARSER\<rparr>)"
    if rs: "x = VTuple rs" "rs \<noteq> []" "\<forall>r\<in>set rs. r_var r = None" for rs
  proof -
    have "bare_all rs" using assms(1) rs by (auto simp: bare_all_def tidy_facts)
    moreover obtain k where "n = Suc (Suc (Suc (Suc k)))"
      using assms(2) rs(1) by (auto simp: numeral_eq_Suc Suc_le_eq dest!: less_imp_Suc_add)
    ultimately show ?thesis using linux_bare_tuple [of rs w k p] rs(1,2) assms(4) by simp
  qed
  with apple linux show ?thesis by auto
qed

theorem builds_compare_witness:
  "let x = VTuple [MiRes None (VConst (Some ''a'')), MiRes None (VList [])] in
   mi_get_value_apple 40 (print_v x @ [NUL]) \<lparr>mi_error = 0, oom = [], live = 0\<rparr> =
     Inr (Some [NUL], x, \<lparr>mi_error = 0, oom = [], live = 3\<rparr>) \<and>
   mi_get_value 40 (print_v x @ [NUL]) \<lparr>mi_error = 0, oom = [], live = 0\<rparr> =
     Inr (None, VTuple [], \<lparr>mi_error = MI_PARSER, oom = [], live = 0\<rparr>)"
  using builds_compare [of "VTuple [MiRes None (VConst (Some ''a'')), MiRes None (VList [])]" 40 "[NUL]"
      "\<lparr>mi_error = 0, oom = [], live = 0\<rparr>"]
  by (simp add: good_name_def)

section \<open>An array of frames\<close>

text \<open>On Mac OS X \<open>mi_res_frames_array\<close> takes a tuple as well as a list.\<close>

definition mi_res_frames_array_apple :: "string \<Rightarrow> mi_frame list com" where
  "mi_res_frames_array_apple var = seq (mi_res_done_var var)
     (read_value (\<lambda>r. r_type r = t_list \<or> r_type r = t_tuple) [] (scan frames_node []))"

lemma frames_array_same:
  assumes "mi_res_done_var var c = Inr (p, c1)" and "\<forall>r. p = Some r \<longrightarrow> r_type r \<noteq> t_tuple"
  shows "mi_res_frames_array_apple var c = mi_res_frames_array var c"
  using assms by (simp add: mi_res_frames_array_apple_def mi_res_frames_array_def seq_def read_value_def split: option.splits)

lemma frames_array_tuple:
  assumes "mi_res_done_var var c = Inr (Some (MiRes v (VTuple l)), c1)"
    and "scan frames_node [] l (c_w c1) = Inr (fs, l1, w1)"
  shows "\<exists>c2 c3. mi_res_frames_array var c = Inr ([], c2) \<and> mi_res_frames_array_apple var c = Inr (fs, c3) \<and>
    live (c_w c2) = live (c_w c1) - blocks_r (MiRes v (VTuple l)) \<and>
    live (c_w c3) = live w1 - blocks_r (MiRes v (VTuple l1))"
  using assms
  by (simp add: mi_res_frames_array_apple_def mi_res_frames_array_def seq_def read_value_def pure_run_def com_defs free_live)

section \<open>Terminals elsewhere\<close>

text \<open>
  On Mac OS X the pseudo terminal comes from \<open>openpty\<close>, whose result is the argument: the two descriptors and the
  name, or nothing. When it fails \<open>*master\<close> is not assigned; the number stands for that.
\<close>

definition mi_look_for_free_pty_apple :: "(int \<times> int \<times> string) option \<Rightarrow> (int \<times> int \<times> string option) com" where
  "mi_look_for_free_pty_apple openpty = (case openpty of
       None \<Rightarrow> ret (- 1, 0, None)
     | Some (fdmaster, fdslave, name) \<Rightarrow>
         seq (emit (Close fdslave)) (\<lambda>_. ret (0, fdmaster, Some name)))"

text \<open>On a system that is neither Linux nor Mac OS X there is no terminal to be found.\<close>

definition mi_look_for_free_pty_other :: "(int \<times> int \<times> string option) com" where
  "mi_look_for_free_pty_other = ret (- 1, 0, None)"

definition mi_look_for_free_vt_other :: "int com" where
  "mi_look_for_free_vt_other = ret (- 1)"

definition gmi_look_for_free_vt_other :: "mi_aux_term option com" where
  "gmi_look_for_free_vt_other = ret None"

text \<open>What \<open>gmi_look_for_free_pty\<close> makes of the function it calls.\<close>

definition pty_from :: "(int \<times> int \<times> string option) com \<Rightarrow> mi_pty option com" where
  "pty_from look = seq look (\<lambda>(pty, master, slave).
     if pty < 0 then ret None
     else seq (on_w (\<lambda>w. Inr (c_malloc w))) (\<lambda>ok.
       if \<not> ok then ret None
       else (case slave of
           None \<Rightarrow> (\<lambda>c. Inl Null_deref)
         | Some s \<Rightarrow> seq (dup s) (\<lambda>d. ret (Some \<lparr>pty_slave = d, pty_master = master\<rparr>)))))"

lemma pty_from_linux: "gmi_look_for_free_pty = pty_from mi_look_for_free_pty"
  by (simp add: gmi_look_for_free_pty_def pty_from_def)

lemma pty_from_other: "pty_from mi_look_for_free_pty_other c = Inr (None, c)"
  by (simp add: pty_from_def mi_look_for_free_pty_other_def com_defs)

lemma pty_from_apple:
  assumes "oom (c_w c) = []"
  shows "\<exists>p c1 c2. pty_from (mi_look_for_free_pty_apple openpty) c = Inr (p, c1) \<and> gmi_end_pty p c1 = Inr ((), c2) \<and>
    live (c_w c2) = live (c_w c) \<and>
    closes (events c2) = closes (events c) @ (case openpty of None \<Rightarrow> [] | Some (m, s, _) \<Rightarrow> [s, m])"
  using assms
  by (auto simp: pty_from_def mi_look_for_free_pty_apple_def gmi_end_pty_def mi_free_pty_def com_defs dup_def
      c_strdup_def c_malloc_def c_free_live split: option.splits)

end
