(* ===== verification/MI_Start.thy ===== *)
theory MI_Start
  imports MI_Converse
begin

text \<open>
  The life of a connection from end to end: \<open>mi_connect_local\<close> up to the first prompt, commands and their
  answers in between, the exit of gdb, and \<open>mi_disconnect\<close>.
\<close>

section \<open>What an exchange leaves alone\<close>

definition held :: "conn \<Rightarrow> conn \<Rightarrow> bool" where
  "held c c1 \<longleftrightarrow> callbacks (c_h c1) = callbacks (c_h c) \<and> c_g c1 = c_g c \<and> c_os c1 = c_os c \<and>
     closes (events c1) = closes (events c) \<and> (At_exit \<in> set (events c1) \<longleftrightarrow> At_exit \<in> set (events c))"

lemma held_trans: "held c c1 \<Longrightarrow> held c1 c2 \<Longrightarrow> held c c2"
  by (simp add: held_def)

lemma held_live [simp]: "held c (c1\<lparr>c_w := w\<rparr>) = held c c1"
  by (simp add: held_def)

text \<open>The events of what gdb wrote are calls of callbacks.\<close>

definition call_event :: "event \<Rightarrow> bool" where
  "call_event e \<longleftrightarrow> closes [e] = [] \<and> e \<noteq> At_exit"

lemma call_events: "list_all call_event (echo h s)" "list_all call_event (record_events h r)"
    "list_all call_event (wire_events h rs)"
proof -
  show 1: "list_all call_event (echo h s)" for s by (simp add: echo_def call_event_def split: option.split)
  show 2: "list_all call_event (record_events h r)" for r
    by (simp add: record_events_def call_event_def split: option.split)
  show "list_all call_event (wire_events h rs)"
    using 1 2 by (induction rs) (simp_all add: wire_events_def)
qed

lemma call_events_only:
  assumes "list_all call_event es"
  shows "closes es = [] \<and> At_exit \<notin> set es"
  using assms
proof (induction es)
  case (Cons e es)
  then show ?case by (cases e) (auto simp: call_event_def)
qed simp

lemma held_after_send: "held c (after_send s c)"
  by (auto simp: held_def after_send_def split: option.splits)

lemma held_wire:
  assumes "mi_get_response_blk c = Inr (r, c1)" and "events c1 = events c @ es" and "list_all call_event es"
    and "callbacks (c_h c1) = callbacks (c_h c)"
  shows "held c c1"
  using mute.holdsD [OF mute.holds_blk assms(1)] call_events_only [OF assms(3)] assms(2,4)
  by (simp add: held_def same_sent_def)

section \<open>A command and its answer\<close>

lemma answer_held:
  assumes "calm c" and "\<forall>r\<in>set rs. sendable r" and "reads c = wire rs @ rest"
    and "selects c = replicate (length rs) 1 @ sel"
  shows "\<exists>c1. mi_get_response_blk c = Inr (filter (\<lambda>r. \<not> is_stream r) rs, c1) \<and> answered rest sel c c1 \<and> held c c1 \<and>
    events c1 = events c @ wire_events (c_h c) rs \<and>
    mi_error (c_w c1) = mi_error (c_w c) \<and> mi_error_from_gdb c1 = mi_error_from_gdb c \<and>
    live (c_w c1) = live (c_w c) + (1 - own (line (c_h c))) + blocks_os (filter (\<lambda>r. \<not> is_stream r) rs)"
proof -
  have c: "ready c" "catch_console (c_h c) = 0" "\<not> died (c_h c)" "0 < pid (c_h c)" "waits c = []" "po (c_h c) = []"
    using assms(1) by (simp_all add: calm_def)
  obtain c1 where c1: "mi_get_response_blk c = Inr (filter (\<lambda>r. \<not> is_stream r) rs, c1)"
    "events c1 = events c @ wire_events (c_h c) rs" "callbacks (c_h c1) = callbacks (c_h c)"
    using response_wire [OF c(1) assms(2) c(2-5) assms(3,4)] c(6) by auto
  from answer [OF assms] c1(1) held_wire [OF c1(1,2) call_events(3) c1(3)] c1(2) show ?thesis by auto
qed

text \<open>The wait for a class, once the command is sent.\<close>

lemma exchange:
  assumes "calm c" and "\<forall>r\<in>set rs. sendable r" and "reads c = wire rs @ rest"
    and "selects c = replicate (length rs) 1 @ sel"
  shows "\<exists>c1. mi_res_simple cls (after_send s c) = Inr (result_class rs = Some cls, c1) \<and> talked s rest sel c c1 \<and>
    held c c1 \<and> mi_error (c_w c1) = mi_error (c_w c) \<and> mi_error_from_gdb c1 = mi_error_from_gdb c \<and>
    live (c_w c1) = live (c_w c) + (1 - own (line (c_h c)))"
proof -
  let ?r = "filter (\<lambda>r. \<not> is_stream r) rs"
  obtain c1 where c1: "mi_get_response_blk (after_send s c) = Inr (?r, c1)" "answered rest sel (after_send s c) c1"
    "held (after_send s c) c1" "mi_error (c_w c1) = mi_error (c_w c)" "mi_error_from_gdb c1 = mi_error_from_gdb c"
    "live (c_w c1) = live (c_w c) + (1 - own (line (c_h c))) + blocks_os ?r"
    using answer_held [of "after_send s c" rs rest sel] assms by auto
  have "mi_res_simple cls (after_send s c) =
      Inr (the_record ?r cls \<noteq> None, c1\<lparr>c_w := add_live (- blocks_os ?r) (c_w c1)\<rparr>)"
    by (simp add: mi_res_simple_def seq_def c1(1) the_record_def heap_def ret_def Let_def mi_free_output_live
        split: option.splits)
  then show ?thesis
    unfolding the_record_class result_class_filter
    using c1 held_trans [OF held_after_send c1(3)] by (auto simp: talked_answered)
qed

text \<open>
  A finished exchange: the lines that went out, what is left to read, and that all else is as before but for the
  line buffer.
\<close>

definition went :: "string list \<Rightarrow> char option list \<Rightarrow> int list \<Rightarrow> conn \<Rightarrow> conn \<Rightarrow> bool" where
  "went ls rest sel c c1 \<longleftrightarrow> calm c1 \<and> reads c1 = rest \<and> selects c1 = sel \<and> sent c1 = sent c @ ls \<and>
     own (line (c_h c1)) = 1 \<and> held c c1 \<and> mi_error (c_w c1) = mi_error (c_w c) \<and>
     mi_error_from_gdb c1 = mi_error_from_gdb c \<and> live (c_w c1) = live (c_w c) + (1 - own (line (c_h c)))"

lemma went_trans: "went ls rest sel c c1 \<Longrightarrow> went ls' rest' sel' c1 c2 \<Longrightarrow> went (ls @ ls') rest' sel' c c2"
  by (auto simp: went_def intro: held_trans)

lemma exchange_went:
  assumes "calm c" and "\<forall>r\<in>set rs. sendable r" and "reads c = wire rs @ rest"
    and "selects c = replicate (length rs) 1 @ sel"
  shows "\<exists>c1. mi_res_simple cls (after_send s c) = Inr (result_class rs = Some cls, c1) \<and> went [s] rest sel c c1"
  using exchange [OF assms, of cls s] by (auto simp: went_def talked_def)

lemma cmd_run: "calm c \<Longrightarrow> cmd s c = Inr ((), after_send (s @ [NEWLINE]) c)"
  by (simp add: cmd_def seq_def mi_send_run ret_def calm_def ready_def)

text \<open>\<open>gmi_set_exec\<close> with arguments: two exchanges, the second only when the first is answered with \<open>done\<close>.\<close>

lemma set_exec_run:
  assumes "calm c" and "\<not> disable_psym_search_workaround (c_g c)" and "\<forall>r\<in>set (rs1 @ rs2). sendable r"
    and "reads c = wire rs1 @ wire rs2 @ rest" and "selects c = replicate (length rs1 + length rs2) 1 @ sel"
    and "result_class rs1 = Some MI_CL_DONE"
  shows "\<exists>c1. gmi_set_exec file (Some args) c = Inr (result_class rs2 = Some MI_CL_DONE, c1) \<and>
    went [''file -readnow '' @ file @ [NEWLINE], ''-exec-arguments '' @ args @ [NEWLINE]] rest sel c c1"
proof -
  have rs: "\<forall>r\<in>set rs1. sendable r" "\<forall>r\<in>set rs2. sendable r" using assms(3) by auto
  let ?s1 = "''file -readnow '' @ file @ [NEWLINE]" and ?s2 = "''-exec-arguments '' @ args @ [NEWLINE]"
  have sel: "selects c = replicate (length rs1) 1 @ replicate (length rs2) 1 @ sel"
    using assms(5) by (simp add: replicate_add)
  obtain c1 where c1: "mi_res_simple MI_CL_DONE (after_send ?s1 c) = Inr (True, c1)"
    "went [?s1] (wire rs2 @ rest) (replicate (length rs2) 1 @ sel) c c1"
    using exchange_went [OF assms(1) rs(1) assms(4) sel, of MI_CL_DONE ?s1] assms(6) by auto
  then have calm: "calm c1" "reads c1 = wire rs2 @ rest" "selects c1 = replicate (length rs2) 1 @ sel"
    by (simp_all add: went_def)
  obtain c2 where c2: "mi_res_simple MI_CL_DONE (after_send ?s2 c1) = Inr (result_class rs2 = Some MI_CL_DONE, c2)"
    "went [?s2] rest sel c1 c2"
    using exchange_went [OF calm(1) rs(2) calm(2,3)] by blast
  have f: "mi_file_exec_and_symbols file c = Inr ((), after_send ?s1 c)"
    using assms(2) by (simp add: mi_file_exec_and_symbols_def mi_get_workaround_def getg_def seq_ask MI_PSYM_SEARCH_def
        seq_def ret_def cmd_run [OF assms(1)])
  have "gmi_set_exec file (Some args) c = Inr (result_class rs2 = Some MI_CL_DONE, c2)"
    by (simp add: gmi_set_exec_def seq_def f [simplified] mi_res_simple_done_def c1(1) [simplified]
        mi_exec_arguments_def cmd_run [OF calm(1)] c2(1) [simplified])
  with went_trans [OF c1(2) c2(2)] show ?thesis by simp
qed

text \<open>\<open>^exit\<close>: gdb ends without another prompt.\<close>

definition exit_record :: mi_output where
  "exit_record = \<lparr>o_type = MI_T_RESULT_RECORD, o_stype = 0, o_sstype = 0, o_tclass = MI_CL_EXIT, o_c = []\<rparr>"

lemma exit_record_basic:
  "solid_output exit_record" "CRET \<notin> set (print_output exit_record)" "blocks_o exit_record = 1"
  "print_output exit_record = ''^exit''" "the_record [exit_record] MI_CL_EXIT = Some exit_record"
  by (simp_all add: exit_record_def record_codes solid_output_def record_ok_def print_output_def text_of_def
      class_text_def blocks_o_def the_record_def)

lemma exit_response:
  assumes "calm c" and "reads c = map Some (print_output exit_record @ [NEWLINE]) @ rest"
  shows "\<exists>c1. mi_get_response_blk c = Inr ([exit_record], c1) \<and> answered rest (selects c) c c1 \<and> held c c1 \<and>
    mi_error (c_w c1) = mi_error (c_w c) \<and> mi_error_from_gdb c1 = mi_error_from_gdb c \<and>
    live (c_w c1) = live (c_w c) + (1 - own (line (c_h c))) + 1"
proof -
  have c: "ready c" "\<not> died (c_h c)" "0 < pid (c_h c)" "waits c = []" "po (c_h c) = []"
    using assms(1) by (simp_all add: calm_def)
  obtain tail where 1: "mi_get_response c = mi_record exit_record
    (got_line c rest (print_output exit_record) tail\<lparr>
       events := events c @ echo (c_h c) (print_output exit_record),
       c_w := add_live (1 - own (line (c_h c)) + blocks_o exit_record) (c_w c)\<rparr>)" (is "_ = mi_record _ ?c")
    using response_of_line [OF c(1) exit_record_basic(1,2) assms(2)] by blast
  have 2: "mi_record exit_record ?c = Inr (1, ?c\<lparr>c_h := push_record exit_record (c_h ?c)\<rparr>)"
    using c(1,5) by (simp add: mi_record_def exit_record_def record_codes seq_def ret_def add_record_def hand_def
        push_record_def got_line_def ready_def line_upd_def)
  have "mi_check_running c = Inr (True, c)"
    using c by (simp add: mi_check_running_def mi_check_running_pid_def wait_nohang_def com_defs)
  then have "mi_get_response_blk c = blk_loop c" by (simp add: mi_get_response_blk_def seq_def)
  also have "\<dots> = Inr ([exit_record], ?c\<lparr>c_h := (push_record exit_record (c_h ?c))\<lparr>po := [], has_last := False\<rparr>\<rparr>)"
  proof -
    have "blk_turn c = Inr (Some [exit_record],
        ?c\<lparr>c_h := (push_record exit_record (c_h ?c))\<lparr>po := [], has_last := False\<rparr>\<rparr>)"
      unfolding blk_turn_def seq_def 1 2 using c(5)
      by (simp add: mi_retire_response_def com_defs push_record_def got_line_def line_upd_def)
    then show ?thesis by (simp add: blk_loop.simps [of c])
  qed
  finally have r: "mi_get_response_blk c =
      Inr ([exit_record], ?c\<lparr>c_h := (push_record exit_record (c_h ?c))\<lparr>po := [], has_last := False\<rparr>\<rparr>)"
    (is "_ = Inr (_, ?c1)") .
  have "held c ?c1" by (rule held_wire [OF r, of "echo (c_h c) (print_output exit_record)"])
    (simp_all add: call_events got_line_def)
  moreover have "answered rest (selects c) c ?c1"
    using assms(1)
    by (auto simp: answered_def calm_def ready_def got_line_def push_record_def line_upd_def buf_ok_def)
  ultimately show ?thesis using r by (auto simp: got_line_def exit_record_basic)
qed

lemma gdb_exit_run:
  assumes "calm c" and "reads c = map Some (''^exit'' @ [NEWLINE]) @ rest"
  shows "\<exists>c1. gmi_gdb_exit c = Inr ((), c1) \<and> went [''-gdb-exit'' @ [NEWLINE]] rest (selects c) c c1"
proof -
  let ?s = "''-gdb-exit'' @ [NEWLINE]" and ?k = "blocks_os [exit_record]"
  obtain c1 where c1: "mi_get_response_blk (after_send ?s c) = Inr ([exit_record], c1)"
    "answered rest (selects c) (after_send ?s c) c1" "held (after_send ?s c) c1"
    "mi_error (c_w c1) = mi_error (c_w c)" "mi_error_from_gdb c1 = mi_error_from_gdb c"
    "live (c_w c1) = live (c_w c) + (1 - own (line (c_h c))) + 1"
    using exit_response [of "after_send ?s c" rest] assms by (auto simp: exit_record_basic)
  have "gmi_gdb_exit c = Inr ((), c1\<lparr>c_w := add_live (- ?k) (c_w c1)\<rparr>)"
    by (simp add: gmi_gdb_exit_def mi_gdb_exit_def seq_def cmd_run [OF assms(1)] mi_res_simple_exit_def
        mi_res_simple_def c1(1) [simplified] heap_def ret_def Let_def mi_free_output_live)
  then show ?thesis
    using c1 held_trans [OF held_after_send c1(3)] by (auto simp: went_def answered_def exit_record_basic)
qed

section \<open>Connecting\<close>

text \<open>A system where every step of the start succeeds, and a gdb that writes the records \<open>rs\<close> before its first prompt.\<close>

definition fed :: "mi_output list \<Rightarrow> char option list \<Rightarrow> int list \<Rightarrow> conn \<Rightarrow> bool" where
  "fed rs rest sel c \<longleftrightarrow> list_all sendable rs \<and> reads c = wire rs @ rest \<and> selects c = replicate (length rs) 1 @ sel"

definition startable :: "string \<Rightarrow> int list \<Rightarrow> int \<Rightarrow> conn \<Rightarrow> bool" where
  "startable gdb ds p c \<longleftrightarrow> gdb_exe (c_g c) = Some gdb \<and> gdb_start (c_g c) = None \<and> is_exec (c_os c) gdb \<and>
     length ds = 4 \<and> take 2 (pipes (c_os c)) = [(ds ! 0, ds ! 1), (ds ! 2, ds ! 3)] \<and> list_all (\<lambda>d. 0 \<le> d) ds \<and>
     take 2 (fdopens (c_os c)) = [True, True] \<and> take 1 (forks (c_os c)) = [p] \<and> 0 < p \<and>
     waits c = [] \<and> oom (c_w c) = []"

definition first_h :: "int list \<Rightarrow> int \<Rightarrow> mi_h" where
  "first_h ds p = fresh_h\<lparr>time_out := MI_DEFAULT_TIME_OUT, to_gdb0 := ds ! 0, to_gdb1 := ds ! 1, from_gdb0 := ds ! 2,
     from_gdb1 := ds ! 3, to_stream := True, from_stream := True, pid := p\<rparr>"

lemma take_2: "take 2 xs = [u, v] \<Longrightarrow> \<exists>ys. xs = u # v # ys"
  by (cases xs; cases "tl xs") (auto simp: numeral_2_eq_2)

text \<open>Up to the wait for the first prompt.\<close>

lemma connect_to_open:
  assumes "startable gdb ds p c"
  shows "mi_connect_local c = open_gdb gdb
    (c\<lparr>c_w := (c_w c)\<lparr>mi_error := MI_OK, live := live (c_w c) + 1\<rparr>,
       c_h := fresh_h\<lparr>time_out := MI_DEFAULT_TIME_OUT\<rparr>\<rparr>)"
  using assms
  by (simp add: startable_def mi_connect_local_def mi_get_gdb_exe_def getg_def com_defs mi_alloc_h_def c_calloc_def
      c_malloc_def)

definition at_prompt :: "string \<Rightarrow> int list \<Rightarrow> int \<Rightarrow> conn \<Rightarrow> osys \<Rightarrow> conn" where
  "at_prompt gdb ds p c s = c\<lparr>c_w := (c_w c)\<lparr>mi_error := MI_OK, live := live (c_w c) + 1\<rparr>,
     c_os := s, c_h := first_h ds p,
     events := events c @ [Nonblock (ds ! 1), Nonblock (ds ! 2),
       Spawn (gdb_args gdb (disable_psym_search_workaround (c_g c)))], waits := []\<rparr>"

lemma connect_to_prompt:
  assumes "startable gdb ds p c"
  shows "\<exists>s. mi_connect_local c = seq mi_get_response_blk (\<lambda>_. seq (getg gdb_start) (\<lambda>f.
    seq (mi_send_commands f) (\<lambda>_. ret True))) (at_prompt gdb ds p c s)"
proof -
  obtain ps where ps: "pipes (c_os c) = (ds ! 0, ds ! 1) # (ds ! 2, ds ! 3) # ps"
    using assms take_2 by (fastforce simp: startable_def)
  obtain fs where fs: "fdopens (c_os c) = True # True # fs"
    using assms take_2 by (fastforce simp: startable_def)
  obtain ks where ks: "forks (c_os c) = p # ks"
    using assms by (cases "forks (c_os c)") (auto simp: startable_def)
  have c: "0 < p" "p \<noteq> - 1" "waits c = []" using assms by (simp_all add: startable_def)
  show ?thesis
    unfolding connect_to_open [OF assms]
    by (rule exI [of _ "(c_os c)\<lparr>pipes := ps, fdopens := fs, forks := ks\<rparr>"])
      (simp add: open_gdb_def seq_def [of both_pipes] seq_def [of both_streams] both_pipes_eq(3) ps both_streams_eq fs
        start_gdb_def seq_def [of os_fork] fork_run ks seq_def [of "hand _"] hand_def c seq_def [of "emit _"] emit_def
        getg_def seq_ask seq_def [of mi_check_running]
        check_running_run alive_def looked_def at_prompt_def first_h_def fresh_h_def)
qed

lemma no_calls:
  assumes "console h = None" "target h = None" "log_cb h = None" "async h = None" "from_gdb_echo h = None"
  shows "wire_events h rs = []"
proof -
  have "record_events h r = []" for r using assms by (auto simp: record_events_def split: option.split)
  then show ?thesis using assms(5) by (simp add: wire_events_def echo_def)
qed

lemma connect_run:
  assumes "startable gdb ds p c" and "fed rs rest sel c"
  shows "\<exists>c1. mi_connect_local c = Inr (True, c1) \<and> calm c1 \<and> reads c1 = rest \<and> selects c1 = sel \<and> sent c1 = sent c \<and>
    own (line (c_h c1)) = 1 \<and> callbacks (c_h c1) = callbacks (first_h ds p) \<and> c_g c1 = c_g c \<and>
    events c1 = events c @ [Nonblock (ds ! 1), Nonblock (ds ! 2),
       Spawn (gdb_args gdb (disable_psym_search_workaround (c_g c)))] \<and>
    mi_error (c_w c1) = MI_OK \<and> mi_error_from_gdb c1 = mi_error_from_gdb c \<and>
    live (c_w c1) = live (c_w c) + 2 + blocks_os (filter (\<lambda>r. \<not> is_stream r) rs)"
proof -
  obtain s where s: "mi_connect_local c = seq mi_get_response_blk (\<lambda>_. seq (getg gdb_start) (\<lambda>f.
    seq (mi_send_commands f) (\<lambda>_. ret True))) (at_prompt gdb ds p c s)"
    using connect_to_prompt [OF assms(1)] by blast
  let ?c = "at_prompt gdb ds p c s"
  have c: "0 < p" "waits c = []" "oom (c_w c) = []" "gdb_start (c_g c) = None"
    using assms(1) by (simp_all add: startable_def)
  have "calm ?c"
    using c by (simp add: calm_def ready_def at_prompt_def first_h_def fresh_h_def buf_ok_def)
  moreover have "\<forall>r\<in>set rs. sendable r" "reads ?c = wire rs @ rest" "selects ?c = replicate (length rs) 1 @ sel"
    using assms(2) by (simp_all add: fed_def list_all_iff at_prompt_def)
  ultimately obtain c1 where c1: "mi_get_response_blk ?c = Inr (filter (\<lambda>r. \<not> is_stream r) rs, c1)"
    "answered rest sel ?c c1" "held ?c c1" "events c1 = events ?c @ wire_events (c_h ?c) rs"
    "mi_error (c_w c1) = MI_OK" "mi_error_from_gdb c1 = mi_error_from_gdb c"
    "live (c_w c1) = live (c_w c) + 2 + blocks_os (filter (\<lambda>r. \<not> is_stream r) rs)"
    using answer_held [of ?c rs rest sel] by (auto simp: at_prompt_def first_h_def fresh_h_def)
  have "wire_events (c_h ?c) rs = []"
    by (rule no_calls) (simp_all add: at_prompt_def first_h_def fresh_h_def)
  moreover have "gdb_start (c_g c1) = None" using c1(3) c(4) by (simp add: held_def at_prompt_def)
  then have "mi_connect_local c = Inr (True, c1)"
    unfolding s by (simp add: seq_def c1(1) getg_def ask_def mi_send_commands_def ret_def)
  ultimately show ?thesis using c1 by (auto simp: answered_def held_def at_prompt_def)
qed

section \<open>Disconnecting\<close>

lemma fds_of_callbacks:
  assumes "callbacks h = callbacks h'"
  shows "fds h = fds h' \<and> streams_ok h = streams_ok h' \<and> catched_console h = catched_console h' \<and> pid h = pid h'"
  using assms by (simp add: callbacks_def fds_def streams_ok_def)

lemma first_h_fds:
  assumes "startable gdb ds p c"
  shows "fds (first_h ds p) = ds \<and> streams_ok (first_h ds p)"
proof -
  have "length ds = 4" "list_all (\<lambda>d. 0 \<le> d) ds" using assms by (simp_all add: startable_def)
  then obtain a b x y where "ds = [a, b, x, y]" "0 \<le> a" "0 \<le> b" "0 \<le> x" "0 \<le> y"
    by (cases ds; cases "tl ds"; cases "tl (tl ds)"; cases "tl (tl (tl ds))") auto
  then show ?thesis by (simp add: fds_def streams_ok_def first_h_def)
qed

lemma disconnect_calm:
  assumes "calm c" and "streams_ok (c_h c)" and "catched_console (c_h c) = None"
  shows "\<exists>c1. mi_disconnect c = Inr ((), c1) \<and> closes (events c1) = closes (events c) @ fds (c_h c) \<and>
    kills (events c1) = kills (events c) @ [pid (c_h c), pid (c_h c)] \<and>
    (At_exit \<in> set (events c1) \<longleftrightarrow> At_exit \<in> set (events c)) \<and> sent c1 = sent c \<and> reads c1 = reads c \<and>
    c_g c1 = c_g c \<and> mi_error (c_w c1) = mi_error (c_w c) \<and> mi_error_from_gdb c1 = None \<and>
    live (c_w c1) = live (c_w c) - 1 - own (line (c_h c)) - own (mi_error_from_gdb c)"
proof -
  have c: "\<not> died (c_h c)" "0 < pid (c_h c)" "waits c = []" "po (c_h c) = []"
    using assms(1) by (simp_all add: calm_def)
  have "free_kills (c_h c) (waits c) = [Kill (pid (c_h c)) False, Kill (pid (c_h c)) True]"
    using c by (simp add: free_kills_def alive_def looked_def)
  moreover have "At_exit \<notin> set (fd_closes (c_h c))" by (simp add: fd_closes_def)
  moreover have "blocks_h (c_h c) = 1 + own (line (c_h c))"
    using c(4) assms(3) by (simp add: blocks_h_def)
  ultimately show ?thesis
    by (simp add: mi_disconnect_def seq_def free_h_run ask_def heap_def set_msg_def c_free_live closes_fds [OF assms(2)])
qed

text \<open>
  C15: A connection that is opened and closed again, when every step of the start succeeds: gdb is started with the
  flags of the settings and its two ends of the pipes are made non blocking, the four descriptors are closed,
  in the order of the handle, and the child is told to end, then killed. The heap is what it was, with two
  exceptions: the message of an old error is released, and the records gdb wrote before its first prompt
  stay for ever, since the response that ends the start is dropped.
\<close>

theorem connect_disconnect:
  assumes "startable gdb ds p c" and "fed rs rest sel c"
  shows "\<exists>c1 c2. mi_connect_local c = Inr (True, c1) \<and> mi_disconnect c1 = Inr ((), c2) \<and>
    events c1 = events c @ [Nonblock (ds ! 1), Nonblock (ds ! 2),
       Spawn (gdb_args gdb (disable_psym_search_workaround (c_g c)))] \<and>
    reads c2 = rest \<and> closes (events c2) = closes (events c) @ ds \<and> kills (events c2) = kills (events c) @ [p, p] \<and>
    mi_error (c_w c2) = MI_OK \<and> mi_error_from_gdb c2 = None \<and>
    live (c_w c2) = live (c_w c) - own (mi_error_from_gdb c) + blocks_os (filter (\<lambda>r. \<not> is_stream r) rs)"
proof -
  obtain c1 where c1: "mi_connect_local c = Inr (True, c1)" "calm c1" "reads c1 = rest" "own (line (c_h c1)) = 1"
    "callbacks (c_h c1) = callbacks (first_h ds p)" "mi_error (c_w c1) = MI_OK"
    "events c1 = events c @ [Nonblock (ds ! 1), Nonblock (ds ! 2),
       Spawn (gdb_args gdb (disable_psym_search_workaround (c_g c)))]"
    "mi_error_from_gdb c1 = mi_error_from_gdb c"
    "live (c_w c1) = live (c_w c) + 2 + blocks_os (filter (\<lambda>r. \<not> is_stream r) rs)"
    using connect_run [OF assms] by blast
  have h: "fds (c_h c1) = ds" "streams_ok (c_h c1)" "catched_console (c_h c1) = None" "pid (c_h c1) = p"
    using fds_of_callbacks [OF c1(5)] first_h_fds [OF assms(1)] by (simp_all add: first_h_def fresh_h_def)
  show ?thesis
    using disconnect_calm [OF c1(2) h(2,3)] c1 h(1,4) by auto
qed

text \<open>A gdb that greets with a console line and an asynchronous record.\<close>

definition banner :: "mi_output list" where
  "banner =
     [\<lparr>o_type = 0, o_stype = 1, o_sstype = 3, o_tclass = 0, o_c = [MiRes None (VConst (Some ''GNU gdb''))]\<rparr>, demo_stop]"

definition startable_conn :: conn where
  "startable_conn = (started fresh_h (wire banner) [1, 1])
     \<lparr>c_g := no_settings\<lparr>gdb_exe := Some ''gdb''\<rparr>,
      c_os := bare_os\<lparr>is_exec := (\<lambda>_. True), pipes := [(3, 4), (5, 6)], fdopens := [True, True], forks := [7]\<rparr>\<rparr>"

theorem connect_disconnect_witness:
  "\<exists>c1 c2. mi_connect_local startable_conn = Inr (True, c1) \<and> mi_disconnect c1 = Inr ((), c2) \<and>
     closes (events c2) = [3, 4, 5, 6] \<and> kills (events c2) = [7, 7] \<and> 0 < live (c_w c2)"
proof -
  have "startable ''gdb'' [3, 4, 5, 6] 7 startable_conn"
    by (simp add: startable_def startable_conn_def started_def no_settings_def bare_os_def numeral_2_eq_2 numeral_3_eq_3)
  moreover have "fed banner [] [] startable_conn"
    by (simp add: fed_def startable_conn_def started_def banner_def demo_stop_def sendable_def solid_output_def
        record_ok_def record_codes plain_def print_output_def text_of_def asyn_text_def print_results_def
        good_name_def mi_is_var_name_char_def isalnum_def is_digit_def)
  moreover have "filter (\<lambda>r. \<not> is_stream r) banner = [demo_stop]"
    by (simp add: banner_def is_stream_def record_codes demo_stop_def)
  moreover have "0 < blocks_os [demo_stop]" by (simp add: demo_stop_def blocks_o_def)
  moreover have "live (c_w startable_conn) = 0" "mi_error_from_gdb startable_conn = None" "events startable_conn = []"
    by (simp_all add: startable_conn_def started_def)
  ultimately show ?thesis
    using connect_disconnect [of "''gdb''" "[3, 4, 5, 6]" 7 startable_conn banner "[]" "[]"] by auto
qed

end
