(* ===== verification/MI_Client.thy ===== *)
theory MI_Client
  imports MI_Start
begin

text \<open>
  A client of the library, \<open>examples/ticepic.c\<close>: its callbacks, its printing of frames, variables and changes,
  its wait for a stopped program, and its \<open>main\<close>, which loads a program into a debugger and leaves.

  The state of the program is the connection, the texts it printed, one for each call of \<open>printf\<close>, and its
  counter. The library calls a callback while a library function runs; \<open>lib\<close> runs that function and
  then what the callbacks it called print, in the order of the calls. A null pointer printed with \<open>%s\<close> is
  \<open>(null)\<close>, as in the GNU C library.
\<close>

unbundle bit_operations_syntax

section \<open>State\<close>

record app =
  app_lib :: conn
  app_out :: "string list"
  app_async :: int

type_synonym 'a client = "app \<Rightarrow> ('a \<times> app) run"

definition done_with :: "'a \<Rightarrow> 'a client" where
  "done_with x a = Inr (x, a)"

definition after :: "'a client \<Rightarrow> ('a \<Rightarrow> 'b client) \<Rightarrow> 'b client" where
  "after m f a = bnd (m a) (\<lambda>(x, a1). f x a1)"

definition say :: "string \<Rightarrow> app \<Rightarrow> app" where
  "say s a = a\<lparr>app_out := app_out a @ [s]\<rparr>"

definition out :: "string \<Rightarrow> unit client" where
  "out s a = Inr ((), say s a)"

definition pct_s :: "string option \<Rightarrow> string" where
  "pct_s s = (case s of None \<Rightarrow> ''(null)'' | Some t \<Rightarrow> t)"

section \<open>Callbacks\<close>

definition cb_console :: "string option \<Rightarrow> app \<Rightarrow> app" where
  "cb_console str = say (''CONSOLE> '' @ pct_s str @ [NEWLINE])"

definition cb_target :: "string option \<Rightarrow> app \<Rightarrow> app" where
  "cb_target str = say (''TARGET> '' @ pct_s str @ [NEWLINE])"

definition cb_log :: "string option \<Rightarrow> app \<Rightarrow> app" where
  "cb_log str = say (''LOG> '' @ pct_s str @ [NEWLINE])"

definition cb_to :: "string option \<Rightarrow> app \<Rightarrow> app" where
  "cb_to str = say (''>> '' @ pct_s str)"

definition cb_from :: "string option \<Rightarrow> app \<Rightarrow> app" where
  "cb_from str = say (''<< '' @ pct_s str @ [NEWLINE])"

definition cb_async :: "mi_output \<Rightarrow> app \<Rightarrow> app" where
  "cb_async o1 a = (let a1 = say (''ASYNC'' @ [NEWLINE]) a in a1\<lparr>app_async := app_async a1 + 1\<rparr>)"

text \<open>The functions behind the numbers that stand for them in the handle.\<close>

definition console_fn :: nat where "console_fn = 1"
definition target_fn :: nat where "target_fn = 2"
definition log_fn :: nat where "log_fn = 3"
definition async_fn :: nat where "async_fn = 4"
definition to_fn :: nat where "to_fn = 5"
definition from_fn :: nat where "from_fn = 6"

definition called :: "event \<Rightarrow> app \<Rightarrow> app" where
  "called e = (case e of
       Stream_call f _ s \<Rightarrow>
         (if f = console_fn then cb_console s else if f = target_fn then cb_target s
          else if f = log_fn then cb_log s else if f = to_fn then cb_to s
          else if f = from_fn then cb_from s else id)
     | Async_call f _ o1 \<Rightarrow> (if f = async_fn then cb_async o1 else id)
     | _ \<Rightarrow> id)"

definition lib :: "'a com \<Rightarrow> 'a client" where
  "lib m a = bnd (m (app_lib a)) (\<lambda>(x, c1).
     Inr (x, fold called (drop (length (events (app_lib a))) (events c1)) (a\<lparr>app_lib := c1\<rparr>)))"

section \<open>Printing\<close>

definition frame_text :: "mi_frame \<Rightarrow> string" where
  "frame_text f = ''Level '' @ dec (fr_level f) @ '', addr '' @ ptr (fr_addr f) @ '', func '' @ pct_s (fr_func f) @
     '', where: '' @ pct_s (fr_file f) @ '':'' @ dec (fr_line f) @ '' args? '' @ (if fr_args f \<noteq> [] then ''y'' else ''n'') @ [NEWLINE]"

fun out_all :: "string list \<Rightarrow> unit client" where
  "out_all [] = done_with ()"
| "out_all (s # ss) = after (out s) (\<lambda>_. out_all ss)"

definition print_frames :: "mi_frame list \<Rightarrow> bool \<Rightarrow> unit client" where
  "print_frames f free_f =
     (if f = [] then out (''Error! empty frames info'' @ [NEWLINE])
      else after (out_all (map frame_text f)) (\<lambda>_.
        if free_f then lib (heap (mi_free_frames f)) else done_with ()))"

definition quoted :: "string \<Rightarrow> string" where
  "quoted s = [CHR 0x27] @ s @ [CHR 0x27]"

definition print_gvar :: "mi_gvar option \<Rightarrow> unit client" where
  "print_gvar v = (case v of
       None \<Rightarrow> out (''Error! failed to define variable'' @ [NEWLINE])
     | Some g \<Rightarrow> let v = gv_own g in
         out (''Variable name: '' @ quoted (pct_s (gv_name v)) @ '', type: '' @ quoted (pct_s (gv_type v)) @
           '', number of children: '' @ dec (gv_numchild v) @ '' format: '' @ mi_format_enum_to_str (gv_format v) @
           '' expression: '' @ pct_s (gv_exp v) @ '' lang: '' @ mi_lang_enum_to_str (gv_lang v) @
           '' editable: '' @ (if gv_attr v AND MI_ATTR_EDITABLE \<noteq> 0 then ''y'' else ''n'') @ [NEWLINE]))"

fun print_changes :: "mi_gvar_chg list \<Rightarrow> unit client" where
  "print_changes [] = done_with ()"
| "print_changes (c # cs) =
     after (out (''Name: '' @ pct_s (chg_name c) @ [NEWLINE] @ ''In scope: '' @
       (if chg_in_scope c then ''y'' else ''n'') @ [NEWLINE])) (\<lambda>_.
     after (if chg_in_scope c \<and> chg_new_type c \<noteq> None
       then out (''New type: '' @ pct_s (chg_new_type c) @ [NEWLINE] @ ''New num children: '' @
         dec (chg_new_num_children c) @ [NEWLINE])
       else done_with ()) (\<lambda>_.
     after (out [NEWLINE]) (\<lambda>_. print_changes cs)))"

definition print_update :: "mi_gvar_chg list \<Rightarrow> unit client" where
  "print_update chg = after (out (''List of changed variables:'' @ [NEWLINE])) (\<lambda>_. print_changes chg)"

text \<open>
  One child, and the loop over the children: \<open>s++\<close> moves to the next element of an array, but each child is a
  block of its own, chained by \<open>next\<close>; so only the first one is inside its block.
\<close>

definition print_child :: "mi_gvar \<Rightarrow> unit client" where
  "print_child g = (let s = gv_own g in
     after (out (''Name: '' @ pct_s (gv_name s) @ '' Exp: '' @ pct_s (gv_exp s) @ '' Children: '' @ dec (gv_numchild s))) (\<lambda>_.
     after (if gv_type s \<noteq> None then out ('' Type: '' @ pct_s (gv_type s)) else done_with ()) (\<lambda>_.
     after (if gv_value s \<noteq> None then out ('' Value: '' @ pct_s (gv_value s)) else done_with ()) (\<lambda>_.
     out [NEWLINE]))))"

definition child_block :: "mi_gvar list \<Rightarrow> mi_gvar list" where
  "child_block kids = take 1 kids"

fun children_from :: "nat \<Rightarrow> mi_gvar list \<Rightarrow> unit client" where
  "children_from 0 block = done_with ()"
| "children_from (Suc n) [] = (\<lambda>_. Inl Over_read)"
| "children_from (Suc n) (s # block) = after (print_child s) (\<lambda>_. children_from n block)"

definition print_children :: "mi_gvar \<Rightarrow> unit client" where
  "print_children ch =
     (if gv_child ch = [] then out (''Error! getting children list'' @ [NEWLINE])
      else after (out ([NEWLINE] @ ''Children List ('' @ dec (gv_numchild (gv_own ch)) @ ''):'' @ [NEWLINE])) (\<lambda>_.
        after (children_from (nat (gv_numchild (gv_own ch))) (child_block (gv_child ch))) (\<lambda>_. out [NEWLINE])))"

section \<open>Waiting for the program to stop\<close>

text \<open>\<open>while (!mi_get_response(h)) usleep(1000)\<close>: the value is \<open>None\<close> when it never ends.\<close>

partial_function (option) wait_response :: "app \<Rightarrow> (unit \<times> app) run option" where
  "wait_response a = (case lib mi_get_response a of
       Inl f \<Rightarrow> Some (Inl f)
     | Inr (r, a1) \<Rightarrow> if r \<noteq> 0 then Some (Inr ((), a1)) else wait_response a1)"

definition report_stop :: "int client" where
  "report_stop = after (lib mi_res_stop) (\<lambda>sr. case sr of
       Some s \<Rightarrow>
         after (out (''Stopped, reason: '' @ pct_s (mi_reason_enum_to_str (st_reason s)) @ [NEWLINE])) (\<lambda>_.
         after (print_frames (st_frame s) False) (\<lambda>_.
         after (lib (heap (mi_free_stop (Some s)))) (\<lambda>_. done_with 1)))
     | None \<Rightarrow> after (out (''Error while waiting'' @ [NEWLINE])) (\<lambda>_. done_with 0))"

definition wait_for_stop :: "app \<Rightarrow> (int \<times> app) run option" where
  "wait_for_stop a = (case wait_response a of
       None \<Rightarrow> None
     | Some r \<Rightarrow> Some (bnd r (\<lambda>(_, a1). report_stop a1)))"

section \<open>The program\<close>

definition set_callbacks :: "unit com" where
  "set_callbacks =
     seq (mi_set_console_cb (Some console_fn) 0) (\<lambda>_.
     seq (mi_set_target_cb (Some target_fn) 0) (\<lambda>_.
     seq (mi_set_log_cb (Some log_fn) 0) (\<lambda>_.
     seq (mi_set_async_cb (Some async_fn) 0) (\<lambda>_.
     seq (mi_set_to_gdb_cb (Some to_fn) 0) (\<lambda>_.
     mi_set_from_gdb_cb (Some from_fn) 0)))))"

definition main_icepic :: "int client" where
  "main_icepic =
     after (lib (mi_set_gdb_exe (Some ''./icepic''))) (\<lambda>_.
     after (lib mi_connect_local) (\<lambda>h.
     if \<not> h then after (out (''Connect failed'' @ [NEWLINE])) (\<lambda>_. done_with 1)
     else
       after (out (''Connected to gdb!'' @ [NEWLINE])) (\<lambda>_.
       after (lib set_callbacks) (\<lambda>_.
       after (lib (gmi_set_exec ''./test_bcd.cod'' (Some []))) (\<lambda>ok.
       if \<not> ok then
         after (out (''Error setting exec y args'' @ [NEWLINE])) (\<lambda>_.
         after (lib mi_disconnect) (\<lambda>_. done_with 1))
       else
         after (lib gmi_gdb_exit) (\<lambda>_.
         after (lib mi_disconnect) (\<lambda>_.
         after (out (''Waiting 5 seconds'' @ [NEWLINE])) (\<lambda>_.
         after (lib (gmi_end_aux_term None)) (\<lambda>_. done_with 0)))))))))"

text \<open>The end of the process: what \<open>atexit\<close> registered runs.\<close>

definition run_exit :: "unit client" where
  "run_exit a = (if At_exit \<in> set (events (app_lib a)) then lib mi_clean_up_globals a else done_with () a)"

definition process :: "int client \<Rightarrow> int client" where
  "process main = after main (\<lambda>code. after run_exit (\<lambda>_. done_with code))"

section \<open>What the library does for the client\<close>

lemma called_lib: "called e (a\<lparr>app_lib := c\<rparr>) = (called e a)\<lparr>app_lib := c\<rparr>" "app_lib (called e a) = app_lib a"
  by (cases e; simp add: called_def cb_console_def cb_target_def cb_log_def cb_to_def cb_from_def cb_async_def
      say_def Let_def)+

lemma calls_lib: "fold called es (a\<lparr>app_lib := c\<rparr>) = (fold called es a)\<lparr>app_lib := c\<rparr>" "app_lib (fold called es a) = app_lib a"
  by (induction es arbitrary: a) (simp_all add: called_lib)

lemma lib_run:
  assumes "m (app_lib a) = Inr (x, c1)" and "events c1 = events (app_lib a) @ es"
  shows "lib m a = Inr (x, (fold called es a)\<lparr>app_lib := c1\<rparr>)"
  using assms by (simp add: lib_def calls_lib)

lemma lib_silent: "m (app_lib a) = Inr (x, c1) \<Longrightarrow> events c1 = events (app_lib a) \<Longrightarrow> lib m a = Inr (x, a\<lparr>app_lib := c1\<rparr>)"
  using lib_run [of m a x c1 "[]"] by simp

lemma lib_heap: "lib (heap f) a = Inr ((), a\<lparr>app_lib := (app_lib a)\<lparr>c_w := f (c_w (app_lib a))\<rparr>\<rparr>)"
  by (rule lib_silent) (simp_all add: heap_def)

lemma app_lib_say [simp]: "app_lib (say s a) = app_lib a"
  by (simp add: say_def)

lemma app_lib_same: "a\<lparr>app_lib := app_lib a\<rparr> = a"
  by (cases a) simp

section \<open>The children\<close>

lemma print_child_run: "\<exists>a1. print_child g a = Inr ((), a1)"
  by (simp add: print_child_def after_def out_def done_with_def Let_def)

text \<open>
  The loop over the children ends well only when there is at most one: the second \<open>s++\<close> leaves the block of
  the first child, whatever the number of children gdb answered with.
\<close>

theorem print_children_overread:
  "(print_children ch a = Inl Over_read) = (gv_child ch \<noteq> [] \<and> 2 \<le> gv_numchild (gv_own ch))"
proof (cases "gv_child ch")
  case Nil
  then show ?thesis by (simp add: print_children_def out_def)
next
  case (Cons g gs)
  let ?n = "gv_numchild (gv_own ch)"
  have block: "child_block (gv_child ch) = [g]" using Cons by (simp add: child_block_def)
  obtain a0 where a0: "print_children ch a = after (children_from (nat ?n) [g]) (\<lambda>_. out [NEWLINE]) a0"
    using Cons block by (simp add: print_children_def after_def [of "out _"] out_def)
  obtain a2 where p: "print_child g a0 = Inr ((), a2)" using print_child_run by blast
  have "nat ?n = 0 \<or> nat ?n = Suc 0 \<or> (\<exists>m. nat ?n = Suc (Suc m))"
    by (cases "nat ?n"; cases "nat ?n - 1") auto
  then consider "nat ?n = 0" | "nat ?n = Suc 0" | m where "nat ?n = Suc (Suc m)" by auto
  then show ?thesis
    using Cons unfolding a0
    by cases (auto simp: after_def p done_with_def out_def)
qed

section \<open>Waiting\<close>

lemma wait_again: "lib mi_get_response a = Inr (0, a1) \<Longrightarrow> wait_response a = wait_response a1"
  by (subst wait_response.simps) simp

lemma wait_done: "lib mi_get_response a = Inr (1, a1) \<Longrightarrow> wait_response a = Some (Inr ((), a1))"
  by (subst wait_response.simps) simp

lemma wait_idle:
  assumes "reads (app_lib a) = replicate n None @ rs"
  shows "wait_response a = wait_response (a\<lparr>app_lib := (app_lib a)\<lparr>reads := rs\<rparr>\<rparr>)"
  using assms
proof (induction n arbitrary: a)
  case (Suc n)
  let ?c = "(app_lib a)\<lparr>reads := replicate n None @ rs\<rparr>"
  have "mi_get_response (app_lib a) = Inr (0, ?c)" using Suc.prems by (intro response_idle) simp
  then have "lib mi_get_response a = Inr (0, a\<lparr>app_lib := ?c\<rparr>)" by (rule lib_silent) simp
  from wait_again [OF this] Suc.IH [of "a\<lparr>app_lib := ?c\<rparr>"] show ?case by simp
next
  case 0
  then have "(app_lib a)\<lparr>reads := rs\<rparr> = app_lib a" by (cases "app_lib a") simp
  then show ?case by (simp add: app_lib_same)
qed

lemma wait_wire:
  assumes "ready (app_lib a)" and "\<forall>r\<in>set rs. sendable r" and "catch_console (c_h (app_lib a)) = 0"
    and "reads (app_lib a) = wire rs @ rest"
  shows "\<exists>c1. wait_response a = Some (Inr ((), (fold called (wire_events (c_h (app_lib a)) rs) a)\<lparr>app_lib := c1\<rparr>)) \<and>
    po (c_h c1) = po (c_h (app_lib a)) @ filter (\<lambda>r. \<not> is_stream r) rs \<and> reads c1 = rest \<and> oom (c_w c1) = [] \<and>
    live (c_w c1) = live (c_w (app_lib a)) + (1 - own (line (c_h (app_lib a)))) + blocks_os (filter (\<lambda>r. \<not> is_stream r) rs)"
  using assms
proof (induction rs arbitrary: a)
  case Nil
  let ?c = "app_lib a"
  obtain tail where r: "mi_get_response ?c =
      Inr (1, got_line ?c rest ''(gdb)'' tail\<lparr>events := events ?c @ echo (c_h ?c) ''(gdb)''\<rparr>)" (is "_ = Inr (1, ?c1)")
    using response_of_prompt [OF Nil.prems(1), of rest] Nil.prems(4) by (auto simp: wire_def)
  have "lib mi_get_response a = Inr (1, (fold called (echo (c_h ?c) ''(gdb)'') a)\<lparr>app_lib := ?c1\<rparr>)"
    by (rule lib_run [where m = mi_get_response and a = a, OF r]) (simp add: got_line_def)
  from wait_done [OF this] Nil.prems(1) show ?case
    by (auto simp: got_line_def ready_def wire_events_def)
next
  case (Cons r rs)
  let ?c = "app_lib a" and ?e = "echo (c_h (app_lib a)) (print_output r) @ record_events (c_h (app_lib a)) r"
  obtain c1 where c1: "mi_get_response ?c = Inr (0, c1)" "ready c1" "reads c1 = wire rs @ rest"
    "po (c_h c1) = po (c_h ?c) @ (if is_stream r then [] else [r])"
    "callbacks (c_h c1) = callbacks (c_h ?c)" "events c1 = events ?c @ ?e" "own (line (c_h c1)) = 1"
    "live (c_w c1) = live (c_w ?c) + (1 - own (line (c_h ?c))) + (if is_stream r then 0 else blocks_o r)"
    using response_of_record [OF Cons.prems(1) _ Cons.prems(3), of r "wire rs @ rest"] Cons.prems(2,4)
    by (auto simp: wire_def)
  let ?a = "(fold called ?e a)\<lparr>app_lib := c1\<rparr>"
  have step: "wait_response a = wait_response ?a" by (rule wait_again [OF lib_run [where m = mi_get_response and a = a, OF c1(1,6)]])
  have cc: "catch_console (c_h c1) = 0" using events_of_callbacks(4) [OF c1(5)] Cons.prems(3) by simp
  have ev: "wire_events (c_h ?c) (r # rs) = ?e @ wire_events (c_h c1) rs"
    using events_of_callbacks(3) [OF c1(5)] by (simp add: wire_events_def)
  from Cons.IH [of ?a] c1(2,3) cc Cons.prems(2) show ?case
    unfolding step ev by (cases "is_stream r") (auto simp: c1(4,7,8) calls_lib)
qed

lemma out_all_run: "out_all ss a = Inr ((), a\<lparr>app_out := app_out a @ ss\<rparr>)"
  by (induction ss arbitrary: a) (simp_all add: done_with_def after_def out_def say_def)

definition stop_lines :: "mi_stop \<Rightarrow> string list" where
  "stop_lines s = (''Stopped, reason: '' @ pct_s (mi_reason_enum_to_str (st_reason s)) @ [NEWLINE]) #
     (if st_frame s = [] then [''Error! empty frames info'' @ [NEWLINE]] else map frame_text (st_frame s))"

lemma report_run:
  assumes "mi_res_stop (app_lib a) = Inr (Some s, c1)" and "events c1 = events (app_lib a)"
  shows "report_stop a = Inr (1, a\<lparr>app_lib := c1\<lparr>c_w := mi_free_stop (Some s) (c_w c1)\<rparr>, app_out := app_out a @ stop_lines s\<rparr>)"
  unfolding report_stop_def after_def [of "lib mi_res_stop"]
  by (simp add: lib_silent [where m = mi_res_stop and a = a, OF assms] after_def out_def say_def print_frames_def out_all_run done_with_def lib_heap
      stop_lines_def)


text \<open>A client whose callbacks are set, and a gdb that says the program has ended, after two calls that found nothing.\<close>

definition client_h :: "mi_h \<Rightarrow> mi_h" where
  "client_h h = h\<lparr>console := Some console_fn, console_data := 0, target := Some target_fn, target_data := 0,
     log_cb := Some log_fn, log_data := 0, async := Some async_fn, async_data := 0,
     to_gdb_echo := Some to_fn, to_gdb_echo_data := 0, from_gdb_echo := Some from_fn, from_gdb_echo_data := 0\<rparr>"

definition waiting_app :: app where
  "waiting_app = \<lparr>app_lib = started (client_h fresh_h) (None # None # wire [demo_stop]) [], app_out = [], app_async = 0\<rparr>"

lemma demo_stop_facts:
  "sendable demo_stop" "\<not> is_stream demo_stop" "list_all stop_fits (o_c demo_stop)" "is_stop demo_stop"
  "distinct (map r_var (o_c demo_stop))"
  "print_output demo_stop = ''*stopped,reason=\"exited\",exit-code=\"01\"''"
  by (simp_all add: demo_stop_def sendable_def solid_output_def record_ok_def record_codes plain_def is_stop_def
      print_output_def text_of_def asyn_text_def print_results_def good_name_def mi_is_var_name_char_def isalnum_def
      is_digit_def is_stream_def stop_fits_def named_full_def)


lemma wait_silent:
  assumes "wait_response a = Some r"
  shows "reads (app_lib a) \<noteq> []"
proof (rule wait_response.raw_induct [OF _ assms, where P = "\<lambda>a r. reads (app_lib a) \<noteq> []"], rule notI)
  fix f a r
  assume less: "\<And>a r. f a = Some r \<Longrightarrow> reads (app_lib a) \<noteq> []"
    and turn: "(case lib mi_get_response a of Inl e \<Rightarrow> Some (Inl e)
      | Inr (r, a1) \<Rightarrow> if r \<noteq> 0 then Some (Inr ((), a1)) else f a1) = Some r"
    and here: "reads (app_lib a) = []"
  have "mi_get_response (app_lib a) = Inr (0, app_lib a)"
    using here by (cases "app_lib a") (simp add: mi_get_response_def mi_getline_def com_defs)
  then have "lib mi_get_response a = Inr (0, a)"
    using lib_silent [of mi_get_response a 0 "app_lib a"] by (simp add: app_lib_same)
  with turn here less [of a r] show False by simp
qed

text \<open>
  \<open>wait_for_stop\<close> never returns when gdb says nothing more, not even when gdb has died: the loop has neither a
  time out nor a test of the child.
\<close>

theorem wait_for_stop_hangs:
  assumes "reads (app_lib a) = []"
  shows "wait_for_stop a = None"
  using wait_silent [of a] assms by (cases "wait_response a") (simp_all add: wait_for_stop_def)

theorem wait_for_stop_hangs_witness:
  "wait_for_stop \<lparr>app_lib = started (fresh_h\<lparr>died := True\<rparr>) [] [], app_out = [], app_async = 0\<rparr> = None"
  using wait_for_stop_hangs [of "\<lparr>app_lib = started (fresh_h\<lparr>died := True\<rparr>) [] [], app_out = [], app_async = 0\<rparr>"]
  by (simp add: started_def)

section \<open>The program from end to end\<close>

definition adds_text :: "app \<Rightarrow> app \<Rightarrow> bool" where
  "adds_text a a1 \<longleftrightarrow> (\<exists>t. app_out a1 = app_out a @ t)"

lemma adds_text_trans: "adds_text a a1 \<Longrightarrow> adds_text a1 a2 \<Longrightarrow> adds_text a a2"
  by (auto simp: adds_text_def)

lemma called_adds: "adds_text a (called e a)"
  by (cases e) (auto simp: adds_text_def called_def cb_console_def cb_target_def cb_log_def cb_to_def cb_from_def
      cb_async_def say_def Let_def)

lemma calls_add: "adds_text a (fold called es a)"
proof (induction es arbitrary: a)
  case (Cons e es)
  from adds_text_trans [OF called_adds [of a e] Cons [of "called e a"]] show ?case by simp
qed (simp add: adds_text_def)

text \<open>A library function as the client sees it.\<close>

lemma lib_any:
  assumes "m (app_lib a) = Inr (x, c1)"
  obtains a1 where "lib m a = Inr (x, a1)" "app_lib a1 = c1" "adds_text a a1"
proof -
  let ?es = "drop (length (events (app_lib a))) (events c1)"
  have "lib m a = Inr (x, (fold called ?es a)\<lparr>app_lib := c1\<rparr>)" using assms by (simp add: lib_def calls_lib)
  moreover have "adds_text a ((fold called ?es a)\<lparr>app_lib := c1\<rparr>)" using calls_add [of a ?es] by (simp add: adds_text_def)
  ultimately show thesis using that by simp
qed

lemma set_callbacks_run: "set_callbacks c = Inr ((), c\<lparr>c_h := client_h (c_h c)\<rparr>)"
  by (simp add: set_callbacks_def client_h_def mi_set_console_cb_def mi_set_target_cb_def mi_set_log_cb_def
      mi_set_async_cb_def mi_set_to_gdb_cb_def mi_set_from_gdb_cb_def seq_def hand_def)

lemma client_h_same [simp]:
  "calm (c\<lparr>c_h := client_h (c_h c)\<rparr>) = calm c" "line (client_h h) = line h" "fds (client_h h) = fds h"
  "streams_ok (client_h h) = streams_ok h" "catched_console (client_h h) = catched_console h" "pid (client_h h) = pid h"
  by (simp_all add: client_h_def calm_def ready_def buf_ok_def fds_def streams_ok_def split: option.split)

definition icepic_settings :: globals where
  "icepic_settings = no_settings\<lparr>gdb_exe := Some ''./icepic'', registered := True\<rparr>"

lemma set_exe_run:
  assumes "c_g c = no_settings" and "oom (c_w c) = []"
  shows "mi_set_gdb_exe (Some ''./icepic'') c =
    Inr ((), c\<lparr>c_w := add_live 1 (c_w c), c_g := icepic_settings, events := events c @ [At_exit]\<rparr>)"
  using assms
  by (simp add: mi_set_gdb_exe_def set_name_def getg_def setg_def com_defs dup_def c_strdup_def c_malloc_def
      mi_register_exit_def no_settings_def icepic_settings_def c_free_def)

lemma exit_clean:
  assumes "c_g c = icepic_settings"
  shows "\<exists>c1. mi_clean_up_globals c = Inr ((), c1) \<and> events c1 = events c \<and> sent c1 = sent c \<and> reads c1 = reads c \<and>
    mi_error (c_w c1) = mi_error (c_w c) \<and> live (c_w c1) = live (c_w c) - 1"
  using assms
  by (simp add: mi_clean_up_globals_def getg_def setg_def com_defs icepic_settings_def no_settings_def c_free_live)

text \<open>The conversation of \<open>main\<close>, on the side of the library.\<close>

definition icepic_lines :: "string list" where
  "icepic_lines = [''file -readnow ./test_bcd.cod'' @ [NEWLINE], ''-exec-arguments '' @ [NEWLINE], ''-gdb-exit'' @ [NEWLINE]]"

definition icepic_system :: "int list \<Rightarrow> int \<Rightarrow> conn \<Rightarrow> bool" where
  "icepic_system ds p c \<longleftrightarrow> c_g c = no_settings \<and> startable ''./icepic'' ds p (c\<lparr>c_g := icepic_settings\<rparr>)"

definition icepic_input ::
    "mi_output list \<Rightarrow> mi_output list \<Rightarrow> mi_output list \<Rightarrow> char option list \<Rightarrow> conn \<Rightarrow> bool" where
  "icepic_input rs0 rs1 rs2 rest c \<longleftrightarrow> (\<forall>r\<in>set (rs0 @ rs1 @ rs2). sendable r) \<and>
     reads c = wire rs0 @ wire rs1 @ wire rs2 @ map Some (''^exit'' @ [NEWLINE]) @ rest \<and>
     selects c = replicate (length rs0 + length rs1 + length rs2) 1 \<and>
     result_class rs1 = Some MI_CL_DONE \<and> result_class rs2 = Some MI_CL_DONE"

lemma icepic_connects:
  assumes "icepic_system ds p c" and "icepic_input rs0 rs1 rs2 rest c"
  shows "\<exists>c1 c2. mi_set_gdb_exe (Some ''./icepic'') c = Inr ((), c1) \<and> mi_connect_local c1 = Inr (True, c2) \<and>
    calm c2 \<and> reads c2 = wire rs1 @ wire rs2 @ map Some (''^exit'' @ [NEWLINE]) @ rest \<and>
    selects c2 = replicate (length rs1 + length rs2) 1 \<and> sent c2 = sent c \<and> own (line (c_h c2)) = 1 \<and>
    fds (c_h c2) = ds \<and> streams_ok (c_h c2) \<and> catched_console (c_h c2) = None \<and> pid (c_h c2) = p \<and>
    c_g c2 = icepic_settings \<and> At_exit \<in> set (events c2) \<and> closes (events c2) = closes (events c) \<and>
    kills (events c2) = kills (events c) \<and> mi_error_from_gdb c2 = mi_error_from_gdb c \<and>
    live (c_w c2) = live (c_w c) + 3 + blocks_os (filter (\<lambda>r. \<not> is_stream r) rs0)"
proof -
  let ?c1 = "c\<lparr>c_w := add_live 1 (c_w c), c_g := icepic_settings, events := events c @ [At_exit]\<rparr>"
  let ?rest = "wire rs1 @ wire rs2 @ map Some (''^exit'' @ [NEWLINE]) @ rest"
  have st: "startable ''./icepic'' ds p ?c1" using assms(1) by (simp add: icepic_system_def startable_def)
  have "fed rs0 ?rest (replicate (length rs1 + length rs2) 1) ?c1"
    using assms(2) by (simp add: icepic_input_def fed_def list_all_iff add.assoc replicate_add)
  from connect_run [OF st this] obtain c2 where c2: "mi_connect_local ?c1 = Inr (True, c2)" "calm c2"
    "reads c2 = ?rest" "selects c2 = replicate (length rs1 + length rs2) 1" "sent c2 = sent c" "own (line (c_h c2)) = 1"
    "callbacks (c_h c2) = callbacks (first_h ds p)" "c_g c2 = icepic_settings"
    "events c2 = events c @ [At_exit, Nonblock (ds ! 1), Nonblock (ds ! 2), Spawn (gdb_args ''./icepic'' (disable_psym_search_workaround icepic_settings))]"
    "mi_error_from_gdb c2 = mi_error_from_gdb c"
    "live (c_w c2) = live (c_w c) + 3 + blocks_os (filter (\<lambda>r. \<not> is_stream r) rs0)"
    by auto
  have "mi_set_gdb_exe (Some ''./icepic'') c = Inr ((), ?c1)"
    using assms(1) by (intro set_exe_run) (simp_all add: icepic_system_def startable_def)
  moreover have "fds (c_h c2) = ds \<and> streams_ok (c_h c2) \<and> catched_console (c_h c2) = None \<and> pid (c_h c2) = p"
    using fds_of_callbacks [OF c2(7)] first_h_fds [OF st] by (simp add: first_h_def fresh_h_def)
  ultimately show ?thesis using c2 by auto
qed

lemma icepic_talks:
  assumes "icepic_input rs0 rs1 rs2 rest c" and "calm c2" and "\<not> disable_psym_search_workaround (c_g c2)"
    and "reads c2 = wire rs1 @ wire rs2 @ map Some (''^exit'' @ [NEWLINE]) @ rest"
    and "selects c2 = replicate (length rs1 + length rs2) 1"
  shows "\<exists>c4 c5. gmi_set_exec ''./test_bcd.cod'' (Some []) c2 = Inr (True, c4) \<and> gmi_gdb_exit c4 = Inr ((), c5) \<and>
    went icepic_lines rest [] c2 c5"
proof -
  have rs: "\<forall>r\<in>set (rs1 @ rs2). sendable r" "result_class rs1 = Some MI_CL_DONE" "result_class rs2 = Some MI_CL_DONE"
    using assms(1) by (auto simp: icepic_input_def)
  have sel: "selects c2 = replicate (length rs1 + length rs2) 1 @ []" using assms(5) by simp
  obtain c4 where c4: "gmi_set_exec ''./test_bcd.cod'' (Some []) c2 = Inr (True, c4)"
    "went [''file -readnow '' @ ''./test_bcd.cod'' @ [NEWLINE], ''-exec-arguments '' @ [] @ [NEWLINE]]
       (map Some (''^exit'' @ [NEWLINE]) @ rest) [] c2 c4"
    using set_exec_run [OF assms(2,3) rs(1) assms(4) sel rs(2), of "''./test_bcd.cod''" "[]"] rs(3) by auto
  then obtain c5 where c5: "gmi_gdb_exit c4 = Inr ((), c5)" "went [''-gdb-exit'' @ [NEWLINE]] rest [] c4 c5"
    using gdb_exit_run [of c4 rest] by (auto simp: went_def)
  from went_trans [OF c4(2) c5(2)] c4(1) c5(1) show ?thesis by (simp add: icepic_lines_def)
qed

lemma icepic_run:
  assumes "icepic_system ds p c" and "icepic_input rs0 rs1 rs2 rest c"
  shows "\<exists>c1 c2 c4 c5 c6 c7. mi_set_gdb_exe (Some ''./icepic'') c = Inr ((), c1) \<and> mi_connect_local c1 = Inr (True, c2) \<and>
    gmi_set_exec ''./test_bcd.cod'' (Some []) (c2\<lparr>c_h := client_h (c_h c2)\<rparr>) = Inr (True, c4) \<and>
    gmi_gdb_exit c4 = Inr ((), c5) \<and> mi_disconnect c5 = Inr ((), c6) \<and>
    At_exit \<in> set (events c6) \<and> mi_clean_up_globals c6 = Inr ((), c7) \<and> events c7 = events c6 \<and>
    sent c7 = sent c @ icepic_lines \<and> reads c7 = rest \<and>
    closes (events c7) = closes (events c) @ ds \<and> kills (events c6) = kills (events c5) @ [p, p] \<and>
    live (c_w c7) = live (c_w c) - own (mi_error_from_gdb c) + blocks_os (filter (\<lambda>r. \<not> is_stream r) rs0)"
proof -
  obtain c1 c2 where c2: "mi_set_gdb_exe (Some ''./icepic'') c = Inr ((), c1)" "mi_connect_local c1 = Inr (True, c2)"
    "calm c2" "reads c2 = wire rs1 @ wire rs2 @ map Some (''^exit'' @ [NEWLINE]) @ rest"
    "selects c2 = replicate (length rs1 + length rs2) 1" "sent c2 = sent c" "own (line (c_h c2)) = 1"
    "fds (c_h c2) = ds" "streams_ok (c_h c2)" "catched_console (c_h c2) = None" "pid (c_h c2) = p"
    "c_g c2 = icepic_settings" "At_exit \<in> set (events c2)" "closes (events c2) = closes (events c)"
    "mi_error_from_gdb c2 = mi_error_from_gdb c"
    "live (c_w c2) = live (c_w c) + 3 + blocks_os (filter (\<lambda>r. \<not> is_stream r) rs0)"
    using icepic_connects [OF assms] by blast
  let ?c3 = "c2\<lparr>c_h := client_h (c_h c2)\<rparr>"
  obtain c4 c5 where c5: "gmi_set_exec ''./test_bcd.cod'' (Some []) ?c3 = Inr (True, c4)" "gmi_gdb_exit c4 = Inr ((), c5)"
    "went icepic_lines rest [] ?c3 c5"
    using icepic_talks [OF assms(2), of ?c3] c2(3-5,12) by (auto simp: icepic_settings_def no_settings_def)
  have h: "fds (c_h c5) = ds" "streams_ok (c_h c5)" "catched_console (c_h c5) = None" "pid (c_h c5) = p"
    using c5(3) fds_of_callbacks [of "c_h c5" "c_h ?c3"] c2(8-11) by (auto simp: went_def held_def)
  have w: "calm c5" "c_g c5 = icepic_settings" "At_exit \<in> set (events c5)" "closes (events c5) = closes (events c)"
    "sent c5 = sent c @ icepic_lines" "reads c5 = rest" "own (line (c_h c5)) = 1"
    "mi_error_from_gdb c5 = mi_error_from_gdb c" "live (c_w c5) = live (c_w c2)"
    using c5(3) c2(6,7,12-15) by (auto simp: went_def held_def)
  obtain c6 where c6: "mi_disconnect c5 = Inr ((), c6)" "closes (events c6) = closes (events c5) @ ds"
    "kills (events c6) = kills (events c5) @ [p, p]" "At_exit \<in> set (events c6)" "sent c6 = sent c5" "reads c6 = reads c5"
    "c_g c6 = icepic_settings" "live (c_w c6) = live (c_w c5) - 2 - own (mi_error_from_gdb c)"
    using disconnect_calm [OF w(1) h(2,3)] h(1,4) w(2,3,7,8) by auto
  obtain c7 where c7: "mi_clean_up_globals c6 = Inr ((), c7)" "events c7 = events c6" "sent c7 = sent c6"
    "reads c7 = reads c6" "live (c_w c7) = live (c_w c6) - 1"
    using exit_clean [OF c6(7)] by blast
  have "live (c_w c7) = live (c_w c) - own (mi_error_from_gdb c) + blocks_os (filter (\<lambda>r. \<not> is_stream r) rs0)"
    using c7(5) c6(8) w(9) c2(16) by linarith
  then show ?thesis using c2(1,2) c5(1,2) c6 c7 w by auto
qed

text \<open>
  C7: The example client, when every step of the start succeeds and gdb answers both commands with \<open>done\<close> and the
  last one with \<open>^exit\<close>: it sends the three commands, in this order, prints that it is connected and, last, that
  it waits, and returns 0. The four descriptors are closed, and
  what it read stops after \<open>^exit\<close>. The exit handler releases the name of gdb; all that stays on the
  heap is the response before the first prompt.
\<close>

theorem icepic_session:
  assumes "icepic_system ds p (app_lib a)" and "icepic_input rs0 rs1 rs2 rest (app_lib a)"
  shows "\<exists>a1 t u. process main_icepic a = Inr (0, a1) \<and> sent (app_lib a1) = sent (app_lib a) @ icepic_lines \<and>
    reads (app_lib a1) = rest \<and> closes (events (app_lib a1)) = closes (events (app_lib a)) @ ds \<and>
    app_out a1 = app_out a @ t @ [''Connected to gdb!'' @ [NEWLINE]] @ u @ [''Waiting 5 seconds'' @ [NEWLINE]] \<and>
    live (c_w (app_lib a1)) = live (c_w (app_lib a)) - own (mi_error_from_gdb (app_lib a)) +
      blocks_os (filter (\<lambda>r. \<not> is_stream r) rs0)"
proof -
  obtain c1 c2 c4 c5 c6 c7 where c: "mi_set_gdb_exe (Some ''./icepic'') (app_lib a) = Inr ((), c1)"
    "mi_connect_local c1 = Inr (True, c2)"
    "gmi_set_exec ''./test_bcd.cod'' (Some []) (c2\<lparr>c_h := client_h (c_h c2)\<rparr>) = Inr (True, c4)"
    "gmi_gdb_exit c4 = Inr ((), c5)" "mi_disconnect c5 = Inr ((), c6)" "At_exit \<in> set (events c6)"
    "mi_clean_up_globals c6 = Inr ((), c7)" "events c7 = events c6" "sent c7 = sent (app_lib a) @ icepic_lines" "reads c7 = rest"
    "closes (events c7) = closes (events (app_lib a)) @ ds"
    "live (c_w c7) = live (c_w (app_lib a)) - own (mi_error_from_gdb (app_lib a)) +
      blocks_os (filter (\<lambda>r. \<not> is_stream r) rs0)"
    using icepic_run [OF assms] by blast
  obtain a1 where a1: "lib (mi_set_gdb_exe (Some ''./icepic'')) a = Inr ((), a1)" "app_lib a1 = c1" "adds_text a a1"
    using lib_any [of "mi_set_gdb_exe (Some ''./icepic'')" a] c(1) by metis
  obtain a2 where a2: "lib mi_connect_local a1 = Inr (True, a2)" "app_lib a2 = c2" "adds_text a1 a2"
    using lib_any [of mi_connect_local a1] a1(2) c(2) by blast
  let ?a2 = "say (''Connected to gdb!'' @ [NEWLINE]) a2"
  obtain a3 where a3: "lib set_callbacks ?a2 = Inr ((), a3)" "app_lib a3 = c2\<lparr>c_h := client_h (c_h c2)\<rparr>" "adds_text ?a2 a3"
    using lib_any [of set_callbacks ?a2] set_callbacks_run a2(2) by (metis app_lib_say)
  obtain a4 where a4: "lib (gmi_set_exec ''./test_bcd.cod'' (Some [])) a3 = Inr (True, a4)" "app_lib a4 = c4" "adds_text a3 a4"
    using lib_any [of "gmi_set_exec ''./test_bcd.cod'' (Some [])" a3] a3(2) c(3) by metis
  obtain a5 where a5: "lib gmi_gdb_exit a4 = Inr ((), a5)" "app_lib a5 = c5" "adds_text a4 a5"
    using lib_any [of gmi_gdb_exit a4] a4(2) c(4) by metis
  obtain a6 where a6: "lib mi_disconnect a5 = Inr ((), a6)" "app_lib a6 = c6" "adds_text a5 a6"
    using lib_any [of mi_disconnect a5] a5(2) c(5) by metis
  let ?a6 = "say (''Waiting 5 seconds'' @ [NEWLINE]) a6"
  have tty: "lib (gmi_end_aux_term None) ?a6 = Inr ((), ?a6)"
    using lib_silent [of "gmi_end_aux_term None" ?a6 "()" "app_lib ?a6"] by (simp add: gmi_end_aux_term_def ret_def app_lib_same)
  have main: "main_icepic a = Inr (0, ?a6)"
    by (simp add: main_icepic_def after_def a1(1) a2(1) out_def a3(1) [simplified] a4(1) a5(1) a6(1) tty [simplified]
        done_with_def)
  let ?a7 = "?a6\<lparr>app_lib := c7\<rparr>"
  have "lib mi_clean_up_globals ?a6 = Inr ((), ?a7)"
    using lib_silent [of mi_clean_up_globals ?a6 "()" c7] a6(2) c(7,8) by simp
  then have p: "process main_icepic a = Inr (0, ?a7)"
    using c(6) a6(2) by (simp add: process_def after_def main run_exit_def done_with_def)
  obtain t where t: "app_out a2 = app_out a @ t"
    using adds_text_trans [OF a1(3) a2(3)] by (auto simp: adds_text_def)
  obtain u where u: "app_out a6 = app_out a2 @ [''Connected to gdb!'' @ [NEWLINE]] @ u"
    using adds_text_trans [OF adds_text_trans [OF a3(3) a4(3)] adds_text_trans [OF a5(3) a6(3)]]
    by (auto simp: adds_text_def say_def)
  show ?thesis
    using p c(9-12) by (intro exI [of _ ?a7] exI [of _ t] exI [of _ u]) (simp add: say_def t u)
qed

definition icepic_app :: "(string \<Rightarrow> bool) \<Rightarrow> app" where
  "icepic_app runs = \<lparr>app_lib = (started fresh_h (wire banner @ wire done_answer @ wire done_answer @
       map Some (''^exit'' @ [NEWLINE])) [1, 1, 1, 1])\<lparr>c_os := bare_os\<lparr>is_exec := runs, pipes := [(3, 4), (5, 6)],
       fdopens := [True, True], forks := [7]\<rparr>\<rparr>, app_out = [], app_async = 0\<rparr>"

theorem icepic_session_witness:
  "\<exists>a1. process main_icepic (icepic_app (\<lambda>_. True)) = Inr (0, a1) \<and> sent (app_lib a1) = icepic_lines \<and>
     closes (events (app_lib a1)) = [3, 4, 5, 6] \<and> live (c_w (app_lib a1)) = blocks_os [demo_stop]"
proof -
  let ?a = "icepic_app (\<lambda>_. True)"
  have "icepic_system [3, 4, 5, 6] 7 (app_lib ?a)"
    by (simp add: icepic_app_def icepic_system_def startable_def icepic_settings_def started_def no_settings_def
        bare_os_def numeral_2_eq_2 numeral_3_eq_3)
  moreover have "\<forall>r\<in>set (banner @ done_answer @ done_answer). sendable r" "result_class done_answer = Some MI_CL_DONE"
    by (auto simp: banner_def demo_stop_facts) (simp_all add: done_answer_def sendable_def solid_output_def record_ok_def
        record_codes plain_def print_output_def text_of_def class_text_def good_name_def result_class_def)
  then have "icepic_input banner done_answer done_answer [] (app_lib ?a)"
    by (simp add: icepic_input_def icepic_app_def started_def banner_def done_answer_def numeral_eq_Suc)
  moreover have "filter (\<lambda>r. \<not> is_stream r) banner = [demo_stop]"
    by (simp add: banner_def demo_stop_facts) (simp add: is_stream_def record_codes)
  moreover have "sent (app_lib ?a) = []" "events (app_lib ?a) = []" "mi_error_from_gdb (app_lib ?a) = None"
    "live (c_w (app_lib ?a)) = 0"
    by (simp_all add: icepic_app_def started_def)
  ultimately show ?thesis
    using icepic_session [of "[3, 4, 5, 6]" 7 ?a banner done_answer done_answer "[]"] by auto
qed

text \<open>
  When the debugger cannot be run, the example client says so and returns 1; nothing is sent, no descriptor is opened
  or closed, and the exit handler leaves the heap as the program found it.
\<close>

theorem icepic_no_debugger:
  assumes "c_g (app_lib a) = no_settings" and "oom (c_w (app_lib a)) = []" and "\<not> is_exec (c_os (app_lib a)) ''./icepic''"
  shows "\<exists>a1. process main_icepic a = Inr (1, a1) \<and> app_out a1 = app_out a @ [''Connect failed'' @ [NEWLINE]] \<and>
    sent (app_lib a1) = sent (app_lib a) \<and> events (app_lib a1) = events (app_lib a) @ [At_exit] \<and>
    mi_error (c_w (app_lib a1)) = MI_MISSING_GDB \<and> live (c_w (app_lib a1)) = live (c_w (app_lib a))"
proof -
  let ?c = "app_lib a"
  let ?c1 = "?c\<lparr>c_w := add_live 1 (c_w ?c), c_g := icepic_settings, events := events ?c @ [At_exit]\<rparr>"
  let ?a1 = "a\<lparr>app_lib := ?c1\<rparr>" and ?c2 = "?c1\<lparr>c_w := (c_w ?c1)\<lparr>mi_error := MI_MISSING_GDB\<rparr>\<rparr>"
  let ?a2 = "say (''Connect failed'' @ [NEWLINE]) (a\<lparr>app_lib := ?c2\<rparr>)"
  have one: "lib (mi_set_gdb_exe (Some ''./icepic'')) a = Inr ((), ?a1)"
    using lib_run [of "mi_set_gdb_exe (Some ''./icepic'')" a "()" ?c1 "[At_exit]"] set_exe_run [OF assms(1,2)]
    by (simp add: called_def)
  have "mi_connect_local ?c1 = Inr (False, ?c2)"
    using assms(3)
    by (simp add: mi_connect_local_def mi_get_gdb_exe_def getg_def com_defs icepic_settings_def)
  then have two: "lib mi_connect_local ?a1 = Inr (False, a\<lparr>app_lib := ?c2\<rparr>)"
    using lib_silent [of mi_connect_local ?a1 False ?c2] by simp
  have main: "main_icepic a = Inr (1, ?a2)"
    by (simp add: main_icepic_def after_def one two [simplified] out_def done_with_def)
  obtain c3 where c3: "mi_clean_up_globals ?c2 = Inr ((), c3)" "events c3 = events ?c2" "sent c3 = sent ?c2"
    "mi_error (c_w c3) = mi_error (c_w ?c2)" "live (c_w c3) = live (c_w ?c2) - 1"
    using exit_clean [of ?c2] by auto
  have "lib mi_clean_up_globals ?a2 = Inr ((), ?a2\<lparr>app_lib := c3\<rparr>)"
    using lib_silent [of mi_clean_up_globals ?a2 "()" c3] c3(1,2) by (simp add: say_def)
  then have "process main_icepic a = Inr (1, ?a2\<lparr>app_lib := c3\<rparr>)"
    by (simp add: process_def after_def main run_exit_def done_with_def say_def)
  then show ?thesis using c3 by (intro exI [of _ "?a2\<lparr>app_lib := c3\<rparr>"]) (simp add: say_def)
qed

theorem icepic_no_debugger_witness:
  "\<exists>a1. process main_icepic (icepic_app (\<lambda>_. False)) = Inr (1, a1) \<and> app_out a1 = [''Connect failed'' @ [NEWLINE]] \<and>
    live (c_w (app_lib a1)) = 0"
  using icepic_no_debugger [of "icepic_app (\<lambda>_. False)"]
  by (auto simp: icepic_app_def started_def bare_os_def)

end
