(* ===== verification/MI_Owners.thy ===== *)
theory MI_Owners
  imports MI_Globals MI_Response
begin

text \<open>
  Who owns which block while a connection lives. The handle owns its line, the records that wait to be
  taken and the text it caught from the console; the library owns the last message of gdb. Whatever gdb
  sends and whatever allocations fail, a call releases only what the connection owns, so that no
  block is released twice; and as long as no error is recorded it loses none either.
\<close>

section \<open>Owned blocks\<close>

definition owned :: "conn \<Rightarrow> int" where
  "owned c = blocks_h (c_h c) + own (mi_error_from_gdb c)"

definition others :: "conn \<Rightarrow> int" where
  "others c = live (c_w c) - owned c"

text \<open>The list of records and its last pointer agree, and the records are those of the parser.\<close>

definition linked :: "conn \<Rightarrow> bool" where
  "linked c \<longleftrightarrow> (has_last (c_h c) \<or> po (c_h c) = []) \<and> po_ok c"

text \<open>
  \<open>kept k c c1\<close>: from \<open>c\<close> to \<open>c1\<close> the blocks that are not the connection's own became more by \<open>k\<close> at
  least, those of the result, and by exactly \<open>k\<close> when no error is recorded.
\<close>

definition kept :: "int \<Rightarrow> conn \<Rightarrow> conn \<Rightarrow> bool" where
  "kept k c c1 \<longleftrightarrow> (linked c \<longrightarrow> linked c1 \<and> others c + k \<le> others c1 \<and>
     (mi_error (c_w c1) = MI_OK \<longrightarrow> mi_error (c_w c) = MI_OK \<and> others c1 = others c + k))"

lemma kept_trans: "kept j c c1 \<Longrightarrow> kept k c1 c2 \<Longrightarrow> kept (j + k) c c2"
  by (auto simp: kept_def)

lemma kept_nothing: "kept 0 c c1 \<Longrightarrow> kept k c1 c2 \<Longrightarrow> kept k c c2"
  using kept_trans [of 0 c c1 k c2] by simp

lemma keptI:
  assumes "linked c \<Longrightarrow> others c1 = others c + k" and "linked c \<Longrightarrow> linked c1"
    and "mi_error (c_w c1) = mi_error (c_w c) \<or> mi_error (c_w c1) \<noteq> MI_OK"
  shows "kept k c c1"
  using assms by (auto simp: kept_def)

interpretation owns: across "kept 0"
proof (unfold_locales, goal_cases)
  case (1 c)
  show ?case by (simp add: kept_def)
next
  case (2 c c1 c2)
  then show ?case by (rule kept_nothing)
qed

text \<open>A step that changes nothing the connection owns.\<close>

definition untouched :: "conn \<Rightarrow> conn \<Rightarrow> bool" where
  "untouched c c1 \<longleftrightarrow> live (c_w c1) = live (c_w c) \<and> owned c1 = owned c \<and>
     po (c_h c1) = po (c_h c) \<and> has_last (c_h c1) = has_last (c_h c) \<and>
     (mi_error (c_w c1) = mi_error (c_w c) \<or> mi_error (c_w c1) \<noteq> MI_OK)"

lemma untouched_kept: "untouched c c1 \<Longrightarrow> kept 0 c c1"
  by (rule keptI) (auto simp: untouched_def others_def linked_def po_ok_def)

lemma owns_untouched: "(\<And>c x c1. m c = Inr (x, c1) \<Longrightarrow> untouched c c1) \<Longrightarrow> owns.holds m"
  by (simp add: owns.holds_def untouched_kept)

lemmas untouched_simps = untouched_def owned_def blocks_h_def

lemma owns_basic:
  "owns.holds (emit e)" "n \<noteq> MI_OK \<Longrightarrow> owns.holds (set_error n)" "owns.holds wait_nohang"
  "owns.holds mi_select" "owns.holds call_time_out"
  by (auto intro!: owns_untouched simp: untouched_simps com_defs wait_nohang_def mi_select_def
      call_time_out_def Let_def split: list.splits option.splits)

lemma owns_hand: "(\<And>h. blocks_h (f h) = blocks_h h \<and> po (f h) = po h \<and> has_last (f h) = has_last h) \<Longrightarrow>
    owns.holds (hand f)"
  by (rule owns_untouched) (clarsimp simp: untouched_def owned_def hand_def)

lemma owns_stream: "owns.holds (call_stream cb d s)"
  by (simp add: call_stream_def owns.holds_ret owns_basic split: option.splits)

lemma owns_reads: "owns.holds (on_w (\<lambda>w. bnd m (\<lambda>s. Inr (s, w))))"
  by (rule owns_untouched) (auto simp: untouched_def owned_def on_w_def bnd_Inr_iff)

section \<open>A line\<close>

lemma room_owned:
  assumes "(if llen h \<le> lread h
      then (let (q, w') = c_realloc (line h) (lread h + 128) jk w in (q, lread h + 128, w'))
      else (line h, llen h, w)) = (p, n, w1)"
  shows "mi_error w1 = mi_error w" and "live w - own (line h) \<le> live w1 - own p"
    and "p \<noteq> None \<or> lread h < llen h \<Longrightarrow> live w1 - own p = live w - own (line h)"
  using assms
  by (auto simp: c_realloc_def c_malloc_def Let_def split: if_splits prod.splits list.splits)

definition line_law :: "mi_h \<Rightarrow> world \<Rightarrow> int \<Rightarrow> mi_h \<Rightarrow> world \<Rightarrow> bool" where
  "line_law h w r h1 w1 \<longleftrightarrow> po h1 = po h \<and> has_last h1 = has_last h \<and> catched_console h1 = catched_console h \<and>
     mi_error w1 = mi_error w \<and> live w - own (line h) \<le> live w1 - own (line h1) \<and>
     (0 \<le> r \<longrightarrow> live w1 - own (line h1) = live w - own (line h)) \<and> (r < 0 \<longrightarrow> line h1 = None)"

lemma write_line_owned: "write_line i ch h = Inr h' \<Longrightarrow> \<exists>b. line h \<noteq> None \<and> h' = h\<lparr>line := Some b\<rparr>"
  by (auto simp: write_line_def split: option.splits if_splits)

lemma getline_owned: "getline_loop rs jk h w = Inr (r, rs', h1, w1) \<Longrightarrow> line_law h w r h1 w1"
proof (induction rs arbitrary: h w)
  case (Cons x rs)
  show ?case
  proof (cases x)
    case None
    with Cons.prems show ?thesis by (auto simp: line_law_def)
  next
    case (Some ch)
    obtain p n w2 where g: "(if llen h \<le> lread h
        then (let (q, w') = c_realloc (line h) (lread h + 128) jk w in (q, lread h + 128, w'))
        else (line h, llen h, w)) = (p, n, w2)"
      by (metis prod_cases3)
    note room = room_owned [OF g]
    from Cons.prems show ?thesis
      unfolding Some getline_loop.simps(3) g
      unfolding Let_def prod.case
      using room
      by (auto simp: bnd_Inr_iff line_law_def split: if_splits dest!: Cons.IH write_line_owned)
  qed
qed (simp add: line_law_def)

lemma owns_getline: "mi_getline c = Inr (l, c1) \<Longrightarrow> 0 \<le> l \<Longrightarrow> kept 0 c c1"
  by (auto simp: mi_getline_def bnd_Inr_iff line_law_def untouched_simps others_def kept_def linked_def po_ok_def
      dest!: getline_owned)

section \<open>A record\<close>

text \<open>Text caught from the console takes the place of what was caught before.\<close>

lemma owns_catch:
  "owns.holds (seq (ask c_h) (\<lambda>h. seq (call_stream (console h) (console_data h) aux) (\<lambda>_.
     case aux of
       None \<Rightarrow> ret ()
     | Some s \<Rightarrow>
         if catch_console h = 0 then ret ()
         else seq (hand (\<lambda>h. h\<lparr>catch_console := catch_console h - 1\<rparr>)) (\<lambda>_.
           if catch_console h - 1 \<noteq> 0 then ret ()
           else seq (heap (c_free (catched_console h))) (\<lambda>_.
             seq (on_w (\<lambda>w. Inr (c_strdup s w))) (\<lambda>d.
             hand (\<lambda>h. h\<lparr>catched_console := d\<rparr>)))))))"
  by (rule owns.holds_def [THEN iffD2])
    (auto simp: kept_def others_def linked_def po_ok_def owned_def blocks_h_def com_defs call_stream_def c_free_live
      c_strdup_def c_malloc_def Let_def split: option.splits if_splits list.splits prod.splits)

lemma owns_stream_line: "owns.holds (stream_line r)"
  unfolding stream_line_def console_line_def
  by (intro owns.holds_intros owns_reads owns_stream owns_catch)

lemma set_msg_kept:
  assumes "mi_error_from_gdb c = None" and "c_strdup s (c_w c) = (d, w1)"
  shows "kept 0 c (c\<lparr>c_w := w1, mi_error_from_gdb := d\<rparr>)"
  using assms
  by (intro keptI) (auto simp: others_def linked_def po_ok_def owned_def c_strdup_def c_malloc_def
      split: list.splits if_splits)

lemma owns_error_line: "owns.holds (error_line r)"
  unfolding owns.holds_def
proof (intro allI impI)
  fix c x c1
  assume run: "error_line r c = Inr (x, c1)"
  let ?c = "c\<lparr>c_w := (c_w c)\<lparr>mi_error := MI_FROM_GDB, live := live (c_w c) - own (mi_error_from_gdb c)\<rparr>,
    mi_error_from_gdb := None\<rparr>"
  have freed: "kept 0 c ?c"
    by (rule keptI) (auto simp: others_def linked_def po_ok_def owned_def error_codes)
  show "kept 0 c c1"
  proof (cases "o_c r")
    case Nil
    with run have "c1 = ?c" by (simp add: error_line_def com_defs set_msg_def c_free_live)
    with freed show ?thesis by simp
  next
    case (Cons y l)
    with run have "c1 = ?c \<or> (\<exists>s d w1. c_strdup s (c_w ?c) = (d, w1) \<and> c1 = ?c\<lparr>c_w := w1, mi_error_from_gdb := d\<rparr>)"
      by (fastforce simp: error_line_def com_defs set_msg_def c_free_live bnd_Inr_iff split: if_splits)
    with freed show ?thesis using set_msg_kept [of ?c] kept_nothing [OF freed] by auto
  qed
qed

lemma add_record_kept: "record_ok r \<Longrightarrow> add_record r c = Inr (u, c1) \<Longrightarrow> kept (- blocks_o r) c c1"
  by (rule keptI)
    (auto simp: others_def linked_def po_ok_def owned_def blocks_h_def add_record_def hand_def split: if_splits)

lemma free_output_kept: "heap (mi_free_output rs) c = Inr (u, c1) \<Longrightarrow> kept (- blocks_os rs) c c1"
  by (rule keptI) (auto simp: others_def linked_def po_ok_def owned_def heap_def mi_free_output_live)

lemma record_kept:
  assumes "record_ok r" and "mi_record r c = Inr (x, c1)"
  shows "kept (- blocks_o r) c c1"
proof -
  let ?stream = "o_type r = MI_T_OUT_OF_BAND \<and> o_stype r = MI_ST_STREAM"
  let ?call = "if ?stream then stream_line r
           else if o_type r = MI_T_OUT_OF_BAND \<and> o_stype r = MI_ST_ASYNC then async_line r
           else if o_type r = MI_T_RESULT_RECORD \<and> o_tclass r = MI_CL_ERROR then error_line r
           else ret ()"
  obtain u c2 where 1: "?call c = Inr (u, c2)"
    and 2: "(if \<not> ?stream then add_record r else heap (mi_free_output [r])) c2 = Inr ((), c1)"
    using assms(2) unfolding mi_record_def Let_def seq_Inr by (auto simp: ret_def)
  have "owns.holds (async_line r)"
    unfolding async_line_def by (intro owns.holds_intros owns_basic)
  then have "owns.holds ?call"
    by (intro owns.holds_if owns_stream_line owns_error_line owns.holds_ret)
  from owns.holdsD [OF this 1] have 3: "kept 0 c c2" .
  from 2 assms(1) have "kept (- blocks_o r) c2 c1"
    using add_record_kept [of r c2 "()" c1] free_output_kept [of "[r]" c2 "()" c1] by (auto split: if_splits)
  with 3 show ?thesis by (rule kept_nothing)
qed

section \<open>A response\<close>

lemma parse_kept:
  assumes "on_w (mi_parse_gdb_output b) c = Inr (p, c1)"
  shows "kept (case p of None \<Rightarrow> 0 | Some r \<Rightarrow> blocks_o r) c c1 \<and> (\<forall>r. p = Some r \<longrightarrow> record_ok r)"
proof -
  obtain w1 where w1: "mi_parse_gdb_output b (c_w c) = Inr (p, w1)" "c1 = c\<lparr>c_w := w1\<rparr>"
    using assms by (auto simp: on_w_def bnd_Inr_iff)
  with mi_parse_gdb_output_contract [of b "c_w c"] show ?thesis
    by (auto simp: output_post_def moved_def kept_def others_def linked_def po_ok_def owned_def split: option.splits)
qed

lemma owns_parsed:
  "owns.holds (seq (on_w (mi_parse_gdb_output b)) (\<lambda>o1. case o1 of None \<Rightarrow> ret 0 | Some r \<Rightarrow> mi_record r))"
  unfolding owns.holds_def seq_Inr
proof (intro allI impI, elim exE conjE)
  fix c x c1 p c2
  assume 1: "on_w (mi_parse_gdb_output b) c = Inr (p, c2)"
    and 2: "(case p of None \<Rightarrow> ret 0 | Some r \<Rightarrow> mi_record r) c2 = Inr (x, c1)"
  show "kept 0 c c1"
  proof (cases p)
    case None
    with parse_kept [OF 1] 2 show ?thesis by (simp add: ret_def)
  next
    case (Some r)
    with parse_kept [OF 1] 2 have "kept (blocks_o r) c c2" "kept (- blocks_o r) c2 c1"
      by (auto intro: record_kept)
    from kept_trans [OF this] show ?thesis by simp
  qed
qed

text \<open>A first step may lose a block when what follows it is a fault.\<close>

lemma owns_seq_or_fault:
  assumes "\<And>c x c1. m c = Inr (x, c1) \<Longrightarrow> kept 0 c c1 \<or> (\<exists>e. f x c1 = Inl e)" and "\<And>x. owns.holds (f x)"
  shows "owns.holds (seq m f)"
  unfolding owns.holds_def seq_Inr
proof (intro allI impI, elim exE conjE)
  fix c y c2 x c1
  assume "m c = Inr (x, c1)" and 2: "f x c1 = Inr (y, c2)"
  with assms(1) have "kept 0 c c1" by fastforce
  then show "kept 0 c c2" using owns.holdsD [OF assms(2) 2] by (rule kept_nothing)
qed

lemma owns_response: "owns.holds mi_get_response"
  unfolding mi_get_response_def
proof (rule owns_seq_or_fault, goal_cases)
  case (1 c l c1)
  show ?case
  proof (cases "0 \<le> l")
    case False
    with 1 have "line (c_h c1) = None"
      by (auto simp: mi_getline_def bnd_Inr_iff line_law_def dest!: getline_owned)
    with False show ?thesis by (auto simp: com_defs split: option.splits)
  qed (use owns_getline [OF 1] in simp)
qed (rule owns_parsed owns_reads owns_basic owns.holds_intros)+

lemma retire_kept:
  "mi_retire_response c = Inr (rs, c1) \<Longrightarrow> kept (blocks_os rs) c c1"
  by (rule keptI)
    (auto simp: mi_retire_response_def com_defs others_def linked_def po_ok_def owned_def blocks_h_def)

lemma owns_running: "owns.holds mi_check_running"
proof -
  have "owns.holds (mi_check_running_pid p)" for p
    unfolding mi_check_running_pid_def by (intro owns.holds_intros owns_basic)
  then show ?thesis using owns.R_refl by (auto simp: owns.holds_def mi_check_running_def)
qed

lemma owns_died: "owns.holds set_died"
  unfolding set_died_def by (intro owns.holds_intros owns_basic owns_hand) (simp_all add: blocks_h_def error_codes)

lemma owns_idle: "owns.holds blk_idle"
  unfolding blk_idle_def by (intro owns.holds_intros owns_basic owns_running owns_died) (simp add: error_codes)

lemma blk_turn_kept:
  assumes "blk_turn c = Inr (l, c1)"
  shows "kept (case l of None \<Rightarrow> 0 | Some rs \<Rightarrow> blocks_os rs) c c1"
proof -
  obtain r c2 where r: "mi_get_response c = Inr (r, c2)"
    and t: "(if r \<noteq> 0 then seq mi_retire_response (\<lambda>l. ret (Some l))
      else seq mi_select (\<lambda>s. if s \<noteq> 0 then ret None else blk_idle)) c2 = Inr (l, c1)"
    using assms unfolding blk_turn_def seq_Inr by blast
  note kept = kept_nothing [OF owns.holdsD [OF owns_response r]]
  show ?thesis
  proof (cases "r = 0")
    case False
    with t obtain rs where "mi_retire_response c2 = Inr (rs, c1)" "l = Some rs"
      by (auto simp: seq_Inr ret_def)
    with retire_kept show ?thesis by (auto intro: kept)
  next
    case True
    have "owns.holds (seq mi_select (\<lambda>s. if s \<noteq> 0 then ret None else blk_idle))"
      by (intro owns.holds_intros owns_basic owns_idle)
    with True t have "kept 0 c2 c1" by (auto dest: owns.holdsD)
    moreover have "l = None \<or> l = Some []"
      using True t by (auto simp: seq_Inr ret_def blk_idle_def split: if_splits)
    ultimately show ?thesis by (auto intro: kept)
  qed
qed

lemma blk_loop_kept: "blk_loop c = Inr (rs, c1) \<Longrightarrow> kept (blocks_os rs) c c1"
proof (induction c rule: blk_loop.induct)
  case (1 c)
  from "1.prems" obtain p c2 where t: "blk_turn c = Inr (p, c2)"
    by (simp add: blk_loop.simps [of c] split: sum.splits prod.splits)
  show ?case
  proof (cases p)
    case None
    with t "1.prems" have "blk_loop c2 = Inr (rs, c1)" by (simp add: blk_loop.simps [of c])
    with None t have "kept (blocks_os rs) c2 c1" by (intro "1.IH") auto
    with blk_turn_kept [OF t] None show ?thesis by (auto intro: kept_nothing)
  next
    case (Some l)
    with t "1.prems" blk_turn_kept [OF t] show ?thesis by (simp add: blk_loop.simps [of c])
  qed
qed

lemma response_kept:
  assumes "mi_get_response_blk c = Inr (rs, c1)"
  shows "kept (blocks_os rs) c c1"
proof -
  obtain running c2 where c2: "mi_check_running c = Inr (running, c2)"
    and b: "(if \<not> running then seq set_died (\<lambda>_. ret []) else blk_loop) c2 = Inr (rs, c1)"
    using assms unfolding mi_get_response_blk_def seq_Inr by blast
  have "kept (blocks_os rs) c2 c1"
    using b blk_loop_kept owns.holdsD [OF owns_died] by (auto simp: seq_Inr ret_def split: if_splits)
  with owns.holdsD [OF owns_running c2] show ?thesis by (rule kept_nothing)
qed

section \<open>A session\<close>

lemma response_freed:
  assumes "seq mi_get_response_blk (\<lambda>rs. heap (mi_free_output rs)) c = Inr (u, c1)"
  shows "kept 0 c c1"
proof -
  obtain rs c2 where "mi_get_response_blk c = Inr (rs, c2)" "heap (mi_free_output rs) c2 = Inr (u, c1)"
    using assms by (auto simp: seq_Inr)
  from kept_trans [OF response_kept [OF this(1)] free_output_kept [OF this(2)]] show ?thesis by simp
qed

lemma retired_freed:
  assumes "seq mi_retire_response (\<lambda>rs. heap (mi_free_output rs)) c = Inr (u, c1)"
  shows "kept 0 c c1"
proof -
  obtain rs c2 where "mi_retire_response c = Inr (rs, c2)" "heap (mi_free_output rs) c2 = Inr (u, c1)"
    using assms by (auto simp: seq_Inr)
  from kept_trans [OF retire_kept [OF this(1)] free_output_kept [OF this(2)]] show ?thesis by simp
qed

lemma simple_kept:
  assumes "mi_res_simple tclass c = Inr (ok, c1)"
  shows "kept 0 c c1"
proof (rule response_freed)
  show "seq mi_get_response_blk (\<lambda>rs. heap (mi_free_output rs)) c = Inr ((), c1)"
    using assms by (auto simp: mi_res_simple_def seq_def ret_def heap_def bnd_Inr_iff Let_def)
qed

lemma res_var_kept:
  assumes "mi_res_var var tclass c = Inr (x, c1)"
  shows "kept (blocks_opt x) c c1"
proof (cases "linked c")
  case True
  obtain r c2 where r: "mi_get_response_blk c = Inr (r, c2)"
    using assms by (auto simp: mi_res_var_def seq_Inr)
  then have "list_all record_ok r" using True response_records_ok [of c r c2] by (simp add: linked_def)
  from res_var_find [OF r this, of var tclass] assms
  have c1: "c1 = c2\<lparr>c_w := add_live (blocks_opt x - blocks_os r) (c_w c2)\<rparr>" by simp
  have "kept (blocks_opt x - blocks_os r) c2 c1"
    unfolding c1 by (rule keptI) (auto simp: others_def linked_def po_ok_def owned_def)
  from kept_trans [OF response_kept [OF r] this] show ?thesis by simp
qed (simp add: kept_def)

text \<open>The node found, released by the caller.\<close>

definition drop_var :: "string \<Rightarrow> nat \<Rightarrow> unit com" where
  "drop_var var tclass = seq (mi_res_var var tclass) (\<lambda>x.
     case x of None \<Rightarrow> ret () | Some r \<Rightarrow> heap (mi_free_results [r]))"

lemma drop_var_kept:
  assumes "drop_var var tclass c = Inr (u, c1)"
  shows "kept 0 c c1"
proof -
  obtain x c2 where x: "mi_res_var var tclass c = Inr (x, c2)"
    and 2: "(case x of None \<Rightarrow> ret () | Some r \<Rightarrow> heap (mi_free_results [r])) c2 = Inr (u, c1)"
    using assms by (auto simp: drop_var_def seq_Inr)
  have "kept (- blocks_opt x) c2 c1"
    using 2 by (intro keptI) (auto simp: others_def linked_def po_ok_def owned_def heap_def ret_def
        blocks_opt_def mi_free_results_live split: option.splits)
  from kept_trans [OF res_var_kept [OF x] this] show ?thesis by simp
qed

lemma send_kept: "mi_send str c = Inr (n, c1) \<Longrightarrow> kept 0 c c1"
  by (rule keptI)
    (auto simp: mi_send_def com_defs call_stream_def others_def linked_def po_ok_def owned_def blocks_h_def
      c_free_live c_malloc_def split: if_splits option.splits list.splits)

text \<open>
  What an application does with a connection: it polls, waits, looks for a variable, takes and releases
  what has arrived, sends commands and changes the callbacks.
\<close>

definition callback_changes :: "unit com set" where
  "callback_changes = {m. \<exists>cb data. m \<in> {mi_set_console_cb cb data, mi_set_target_cb cb data, mi_set_log_cb cb data,
     mi_set_async_cb cb data, mi_set_to_gdb_cb cb data, mi_set_from_gdb_cb cb data, mi_set_time_out_cb cb data,
     mi_set_time_out (int data)}}"

inductive wire_step :: "conn \<Rightarrow> conn \<Rightarrow> bool" where
  poll: "mi_get_response c = Inr (x, c1) \<Longrightarrow> wire_step c c1"
| wait: "seq mi_get_response_blk (\<lambda>rs. heap (mi_free_output rs)) c = Inr (u, c1) \<Longrightarrow> wire_step c c1"
| retire: "seq mi_retire_response (\<lambda>rs. heap (mi_free_output rs)) c = Inr (u, c1) \<Longrightarrow> wire_step c c1"
| simple: "mi_res_simple tclass c = Inr (ok, c1) \<Longrightarrow> wire_step c c1"
| var: "drop_var v tclass c = Inr (u, c1) \<Longrightarrow> wire_step c c1"
| send: "mi_send str c = Inr (n, c1) \<Longrightarrow> wire_step c c1"
| callback: "m \<in> callback_changes \<Longrightarrow> m c = Inr (u, c1) \<Longrightarrow> wire_step c c1"

lemma callback_kept: "m \<in> callback_changes \<Longrightarrow> m c = Inr (u, c1) \<Longrightarrow> kept 0 c c1"
  by (rule keptI)
    (auto simp: callback_changes_def mi_set_console_cb_def mi_set_target_cb_def mi_set_log_cb_def mi_set_async_cb_def
      mi_set_to_gdb_cb_def mi_set_from_gdb_cb_def mi_set_time_out_cb_def mi_set_time_out_def hand_def
      others_def linked_def po_ok_def owned_def blocks_h_def)

lemma step_kept: "wire_step c c1 \<Longrightarrow> kept 0 c c1"
  by (induction rule: wire_step.induct)
    (auto intro: owns.holdsD [OF owns_response] response_freed retired_freed simple_kept drop_var_kept send_kept
      callback_kept)

lemma steps_kept: "wire_step\<^sup>*\<^sup>* c c1 \<Longrightarrow> kept 0 c c1"
  by (induction rule: rtranclp_induct) (auto intro: owns.R_refl kept_nothing step_kept)

text \<open>
  C5: However long a connection lives, whatever gdb sends over it and whatever allocations fail, the blocks
  released with it are its own: when it is closed the heap still holds every block that did not belong to
  the connection. As long as no error was recorded nothing is lost either: the heap then holds exactly these.
\<close>

theorem connection_owners:
  assumes "linked c" and "wire_step\<^sup>*\<^sup>* c c1" and "mi_disconnect c1 = Inr ((), c2)"
  shows "others c \<le> live (c_w c2) \<and> (mi_error (c_w c2) = MI_OK \<longrightarrow> live (c_w c2) = others c)"
proof -
  have "live (c_w c2) = others c1" "mi_error (c_w c2) = mi_error (c_w c1)"
    using assms(3)
    by (auto simp: mi_disconnect_def seq_def free_h_run ask_def heap_def set_msg_def c_free_live others_def owned_def)
  with steps_kept [OF assms(2)] assms(1) show ?thesis by (auto simp: kept_def)
qed

text \<open>A handle that holds two records and whose heap is counted from there: in the end it is short of its blocks.\<close>

theorem connection_owners_witness:
  "\<exists>c1 c2. wire_step\<^sup>*\<^sup>* (holding demo_records) c1 \<and> mi_disconnect c1 = Inr ((), c2) \<and>
     mi_error (c_w c2) = MI_OK \<and> live (c_w c2) = live (c_w (holding demo_records)) - owned (holding demo_records)"
proof -
  let ?c = "holding demo_records"
  have "\<forall>x\<in>set demo_records. record_ok x"
    by (simp add: demo_records_def record_ok_def record_codes)
  then have linked: "linked ?c" by (simp add: linked_def po_ok_def holding_def started_def)
  obtain c1 where 1: "mi_get_response_blk ?c = Inr (demo_records, c1)" "mi_error (c_w c1) = 0"
    by (rule holding_response [of demo_records]) (simp_all add: demo_records_def)
  let ?c1 = "c1\<lparr>c_w := mi_free_output demo_records (c_w c1)\<rparr>"
  have "wire_step ?c ?c1"
    using 1(1) by (intro wire_step.wait) (simp add: seq_def heap_def)
  then have steps: "wire_step\<^sup>*\<^sup>* ?c ?c1" by simp
  obtain c2 where c2: "mi_disconnect ?c1 = Inr ((), c2)" "mi_error (c_w c2) = 0"
    using 1(2) by (auto simp: mi_disconnect_def seq_def free_h_run ask_def heap_def set_msg_def free_live)
  with connection_owners [OF linked steps c2(1)] steps show ?thesis
    by (auto simp: error_codes others_def)
qed

end
