(* ===== verification/MI_Changes.thy ===== *)
theory MI_Changes
  imports MI_Vars
begin

text \<open>
  The two formats in which gdb reports the variables that changed, \<open>mi_res_changelist\<close> in \<open>src/parse.c\<close>: a list of
  tuples (MI version 2) and one tuple with the fields of all of them one after the other (version 1).
  The two branches of the function read the same changes and leave the same blocks.
\<close>

section \<open>One change\<close>

text \<open>The fields of one variable as gdb documents them: the name comes first, and each field once.\<close>

definition change_fields :: "mi_results list \<Rightarrow> bool" where
  "change_fields t \<longleftrightarrow> (case t of
       [] \<Rightarrow> False
     | x # l \<Rightarrow> r_var x = Some ''name'' \<and> r_type x = t_const) \<and>
     list_all named_full t \<and> distinct (map r_var t)"

lemma change_fields_chg_tuple: "change_fields t \<Longrightarrow> chg_tuple t"
  by (cases t) (simp_all add: change_fields_def chg_tuple_def)

lemma change_fields_cases:
  assumes "change_fields t"
  obtains s l where "t = MiRes (Some ''name'') (VConst (Some s)) # l"
    and "\<forall>r\<in>set l. named_full r \<and> r_var r \<noteq> Some ''name''"
proof -
  obtain x l where t: "t = x # l" "r_var x = Some ''name''" "r_type x = t_const" "named_full x"
    "\<forall>r\<in>set l. named_full r" "r_var x \<notin> r_var ` set l"
    using assms by (cases t) (auto simp: change_fields_def list_all_iff)
  moreover from this(4) t(2,3) obtain s where "x = MiRes (Some ''name'') (VConst (Some s))"
    by (cases rule: named_full_cases) simp_all
  ultimately show thesis using that [of s l] by force
qed

text \<open>The fields after the name: the loop over one tuple takes the turns of \<open>chg_node\<close>.\<close>

lemma chgs_v1_fields:
  assumes "\<forall>r\<in>set l. named_full r \<and> r_var r \<noteq> Some ''name''" and "scan chg_node x l w = Inr (x1, l1, w1)"
  shows "chgs_v1 s (Some x) (l @ later) w =
    bnd (chgs_v1 s (Some x1) later w1) (\<lambda>(y, later1, w2). Inr (y, l1 @ later1, w2))"
  using assms
proof (induction l arbitrary: x w l1)
  case Nil
  then show ?case by (cases "chgs_v1 s (Some x) later w") auto
next
  case (Cons r l)
  from Cons.prems(2) obtain x2 r1 w2 l2 where 1: "chg_node x r w = Inr (x2, r1, w2)"
    "scan chg_node x2 l w2 = Inr (x1, l2, w1)" "l1 = r1 # l2"
    by (elim scan_Cons_Inr)
  have r: "named_full r" "r_var r \<noteq> Some ''name''" using Cons.prems(1) by simp_all
  have "chgs_v1 s (Some x) ((r # l) @ later) w =
      bnd (chgs_v1 s (Some x2) (l @ later) w2) (\<lambda>(y, m, w3). Inr (y, r1 # m, w3))"
    using r(1) by (cases rule: named_full_cases) (use r(2) 1(1) in \<open>auto simp: Let_def chg_node_def\<close>)
  also have "\<dots> = bnd (chgs_v1 s (Some x1) later w1) (\<lambda>(y, m, w3). Inr (y, l1 @ m, w3))"
    using Cons.IH [OF _ 1(2)] Cons.prems(1) 1(3) by (cases "chgs_v1 s (Some x1) later w1") auto
  finally show ?case .
qed

lemma chgs_v1_change:
  assumes "change_fields t" and "oom w = []" and "mi_get_gvar_chg t w = Inr (Some x, t1, w1)"
  shows "chgs_v1 s n (t @ later) w =
    bnd (chgs_v1 (add_chg n s) (Some x) later w1) (\<lambda>(y, later1, w2). Inr (y, t1 @ later1, w2))"
proof -
  obtain v l where t: "t = MiRes (Some ''name'') (VConst (Some v)) # l"
    and l: "\<forall>r\<in>set l. named_full r \<and> r_var r \<noteq> Some ''name''"
    using assms(1) by (rule change_fields_cases)
  let ?x = "zero_gvar_chg\<lparr>chg_name := Some v\<rparr>"
  obtain l1 where l1: "scan chg_node ?x l (add_live 1 w) = Inr (x, l1, w1)"
    "t1 = MiRes (Some ''name'') (VConst None) # l1"
    using assms(2,3) unfolding t
    by (auto simp: mi_get_gvar_chg_def fill_def mi_alloc_gvar_chg_def chg_node_def bnd_Inr_iff)
  have "chgs_v1 s n (t @ later) w =
      bnd (chgs_v1 (add_chg n s) (Some ?x) (l @ later) (add_live 1 w)) (\<lambda>(y, m, w2).
        Inr (y, MiRes (Some ''name'') (VConst None) # m, w2))"
    using assms(2) unfolding t by (simp add: mi_alloc_gvar_chg_def Let_def)
  also have "\<dots> = bnd (chgs_v1 (add_chg n s) (Some x) later w1) (\<lambda>(y, m, w2). Inr (y, t1 @ m, w2))"
    using chgs_v1_fields [OF l l1(1)] l1(2)
    by (cases "chgs_v1 (add_chg n s) (Some x) later w1") auto
  finally show ?thesis .
qed

section \<open>All changes\<close>

abbreviation chg_tuples :: "mi_results list list \<Rightarrow> mi_results list" where
  "chg_tuples ts \<equiv> map (\<lambda>t. MiRes None (VTuple t)) ts"

abbreviation blocks_chgs :: "mi_gvar_chg list \<Rightarrow> int" where
  "blocks_chgs ns \<equiv> (\<Sum>n\<leftarrow>ns. blocks_chg n)"

lemma get_gvar_chg_balance:
  assumes "change_fields t" and "oom w = []"
  obtains x t1 where "mi_get_gvar_chg t w = Inr (Some x, t1, add_live 1 w)" "chg_is t x"
    "blocks_chg x + blocks_l t1 = blocks_l t + 1"
proof -
  obtain x t1 where x: "mi_get_gvar_chg t w = Inr (Some x, t1, add_live 1 w)" "chg_is t x"
    using get_gvar_chg_is [OF change_fields_chg_tuple] assms by blast
  then have "fill (mi_alloc 40 zero_gvar_chg w) chg_node t = Inr (Some x, t1, add_live 1 w)"
    using assms(1) by (cases t) (auto simp: mi_get_gvar_chg_def mi_alloc_gvar_chg_def change_fields_def)
  from chg.list.parse_exact [OF this] have "blocks_chg x + blocks_l t1 = blocks_l t + 1"
    using assms(1) by (auto simp: change_fields_def list_all_iff)
  with x that show thesis by blast
qed

lemma both_formats:
  assumes "\<forall>t\<in>set ts. change_fields t" and "oom w = []"
  shows "\<exists>ns l m. let r = (fst (add_chg n s) @ ns, snd (add_chg n s) + int (length ts)) in
    scan chgs_node (add_chg n s) (chg_tuples ts) w = Inr (r, l, add_live (int (length ts)) w) \<and>
    chgs_v1 s n (concat ts) w = Inr (Some r, m, add_live (int (length ts)) w) \<and>
    list_all2 chg_is ts ns \<and>
    blocks_chgs ns + blocks_l l = blocks_l (chg_tuples ts) + int (length ts) \<and>
    blocks_chgs ns + blocks_l m = blocks_l (concat ts) + int (length ts)"
  using assms
proof (induction ts arbitrary: s n w)
  case (Cons t ts)
  let ?s = "add_chg n s"
  obtain x t1 where x: "mi_get_gvar_chg t w = Inr (Some x, t1, add_live 1 w)" "chg_is t x"
    "blocks_chg x + blocks_l t1 = blocks_l t + 1"
    using get_gvar_chg_balance [of t w] Cons.prems by auto
  obtain ns l m where ih: "scan chgs_node (add_chg (Some x) ?s) (chg_tuples ts) (add_live 1 w) =
      Inr ((fst ?s @ x # ns, snd ?s + 1 + int (length ts)), l, add_live (int (length ts)) (add_live 1 w))"
    "chgs_v1 ?s (Some x) (concat ts) (add_live 1 w) =
      Inr (Some (fst ?s @ x # ns, snd ?s + 1 + int (length ts)), m, add_live (int (length ts)) (add_live 1 w))"
    "list_all2 chg_is ts ns"
    "blocks_chgs ns + blocks_l l = blocks_l (chg_tuples ts) + int (length ts)"
    "blocks_chgs ns + blocks_l m = blocks_l (concat ts) + int (length ts)"
    using Cons.IH [of "add_live 1 w" "Some x" ?s] Cons.prems by (auto simp: add_chg_def Let_def)
  have "chgs_node ?s (MiRes None (VTuple t)) w = Inr (add_chg (Some x) ?s, MiRes None (VTuple t1), add_live 1 w)"
    using x(1) by (simp add: chgs_node_def add_chg_def)
  with ih(1) have "scan chgs_node ?s (chg_tuples (t # ts)) w =
      Inr ((fst ?s @ x # ns, snd ?s + int (length (t # ts))), MiRes None (VTuple t1) # l,
        add_live (int (length (t # ts))) w)"
    by (simp add: ac_simps)
  moreover have "chgs_v1 s n (concat (t # ts)) w =
      Inr (Some (fst ?s @ x # ns, snd ?s + int (length (t # ts))), t1 @ m, add_live (int (length (t # ts))) w)"
    using chgs_v1_change [OF _ _ x(1), of s n "concat ts"] ih(2) Cons.prems by (simp add: ac_simps)
  ultimately show ?case
    using x(2,3) ih(3-5)
    by (intro exI [of _ "x # ns"] exI [of _ "MiRes None (VTuple t1) # l"] exI [of _ "t1 @ m"]) (simp add: Let_def)
qed (simp add: Let_def)

text \<open>A change is given by its fields, so that it does not depend on the heap it was read in.\<close>

lemma chg_is_unique: "list_all2 chg_is ts ns \<Longrightarrow> list_all2 chg_is ts ns' \<Longrightarrow> ns = ns'"
  by (induction ns arbitrary: ts ns') (auto simp: list_all2_Cons1 list_all2_Cons2 chg_is_def intro: mi_gvar_chg.equality)

text \<open>
  C22: The two formats of a change list are equivalent: whether gdb sends a list with one tuple for each variable or
  one tuple with all their fields in a row, the function returns the same changes in the same order and
  the same count, one more than their number, and leaves on the heap exactly the blocks of these changes.
\<close>

theorem changelist_formats:
  assumes "mi_get_response_blk c = Inr (r, c1)" and "list_all record_ok r" and "oom (c_w c1) = []"
    and "lookup r MI_CL_DONE ''changelist'' = Some (MiRes v (VList (chg_tuples ts)))"
    and "mi_get_response_blk d = Inr (q, d1)" and "list_all record_ok q" and "oom (c_w d1) = []"
    and "lookup q MI_CL_DONE ''changelist'' = Some (MiRes v (VTuple (concat ts)))"
    and "\<forall>t\<in>set ts. change_fields t"
  shows "\<exists>ns c2 d2. mi_res_changelist c = Inr ((1 + int (length ts), Some ns), c2) \<and>
    mi_res_changelist d = Inr ((1 + int (length ts), Some ns), d2) \<and> list_all2 chg_is ts ns \<and>
    live (c_w c2) = live (c_w c1) - blocks_os r + blocks_chgs ns \<and>
    live (c_w d2) = live (c_w d1) - blocks_os q + blocks_chgs ns"
proof -
  let ?x = "MiRes v (VList (chg_tuples ts))"
  let ?y = "MiRes v (VTuple (concat ts))"
  let ?w = "add_live (blocks_r ?x - blocks_os r) (c_w c1)"
  let ?z = "add_live (blocks_r ?y - blocks_os q) (c_w d1)"
  have "mi_res_done_var ''changelist'' c = Inr (Some ?x, c1\<lparr>c_w := ?w\<rparr>)"
    using res_var_find [OF assms(1,2), of "''changelist''" MI_CL_DONE] assms(4)
    by (simp add: mi_res_done_var_def blocks_opt_def)
  moreover have "mi_res_done_var ''changelist'' d = Inr (Some ?y, d1\<lparr>c_w := ?z\<rparr>)"
    using res_var_find [OF assms(5,6), of "''changelist''" MI_CL_DONE] assms(8)
    by (simp add: mi_res_done_var_def blocks_opt_def)
  moreover obtain ns l where 1: "scan chgs_node ([], 1) (chg_tuples ts) ?w =
      Inr ((ns, 1 + int (length ts)), l, add_live (int (length ts)) ?w)" "list_all2 chg_is ts ns"
    "blocks_chgs ns + blocks_l l = blocks_l (chg_tuples ts) + int (length ts)"
    using both_formats [OF assms(9), of ?w None "([], 1)"] assms(3) by (auto simp: add_chg_def Let_def)
  moreover obtain ns' m where 2: "chgs_v1 ([], 1) None (concat ts) ?z =
      Inr (Some (ns', 1 + int (length ts)), m, add_live (int (length ts)) ?z)" "list_all2 chg_is ts ns'"
    "blocks_chgs ns' + blocks_l m = blocks_l (concat ts) + int (length ts)"
    using both_formats [OF assms(9), of ?z None "([], 1)"] assms(7) by (auto simp: add_chg_def Let_def)
  moreover have "ns' = ns" using chg_is_unique [OF 1(2) 2(2)] by simp
  ultimately show ?thesis
    by (intro exI [of _ ns]) (simp add: mi_res_changelist_def seq_def on_w_def heap_def ret_def mi_free_results_live)
qed

text \<open>The two answers of gdb about a variable that has changed and another that is out of scope.\<close>

definition demo_changes :: "mi_results list list" where
  "demo_changes = [[MiRes (Some ''name'') (VConst (Some ''var1'')), MiRes (Some ''in_scope'') (VConst (Some ''true''))],
     [MiRes (Some ''name'') (VConst (Some ''var2'')), MiRes (Some ''in_scope'') (VConst (Some ''false''))]]"

theorem changelist_formats_witness:
  "\<exists>n k c2 d2. mi_res_changelist (holding (demo_response ''changelist'' (VList (chg_tuples demo_changes)))) =
      Inr ((3, Some [n, k]), c2) \<and>
    mi_res_changelist (holding (demo_response ''changelist'' (VTuple (concat demo_changes)))) =
      Inr ((3, Some [n, k]), d2) \<and>
    chg_name n = Some ''var1'' \<and> chg_in_scope n \<and> chg_name k = Some ''var2'' \<and> \<not> chg_in_scope k"
proof -
  let ?r = "demo_response ''changelist'' (VList (chg_tuples demo_changes))"
  let ?q = "demo_response ''changelist'' (VTuple (concat demo_changes))"
  obtain c1 where 1: "mi_get_response_blk (holding ?r) = Inr (?r, c1)" "oom (c_w c1) = []"
    by (rule holding_response [of ?r]) (simp_all add: demo_response_def)
  obtain d1 where 2: "mi_get_response_blk (holding ?q) = Inr (?q, d1)" "oom (c_w d1) = []"
    by (rule holding_response [of ?q]) (simp_all add: demo_response_def)
  have ok: "list_all record_ok ?r" "list_all record_ok ?q"
    by (intro demo_response_ok;
        simp add: demo_changes_def good_name_def mi_is_var_name_char_def isalnum_def is_digit_def)+
  have look: "lookup ?r MI_CL_DONE ''changelist'' = Some (MiRes (Some ''changelist'') (VList (chg_tuples demo_changes)))"
    "lookup ?q MI_CL_DONE ''changelist'' = Some (MiRes (Some ''changelist'') (VTuple (concat demo_changes)))"
    by (simp_all add: demo_response_def lookup_def the_record_def record_codes)
  have "\<forall>t\<in>set demo_changes. change_fields t"
    by (simp add: demo_changes_def change_fields_def named_full_def good_name_def mi_is_var_name_char_def isalnum_def
        is_digit_def)
  from changelist_formats [OF 1(1) ok(1) 1(2) look(1) 2(1) ok(2) 2(2) look(2) this] show ?thesis
    by (auto simp: demo_changes_def list_all2_Cons1 chg_is_def)
qed

end
