(* ===== verification/MI_Stop_Fields.thy ===== *)
theory MI_Stop_Fields
  imports MI_Stop
begin

text \<open>
  What is in the structure \<open>mi_get_stopped\<close> makes of a stop record (\<open>src/parse.c\<close> lines 1466 to 1552): each field as
  a function of the results of the record. The proofs go through the record from the left and add one
  node at a time.
\<close>

section \<open>Results seen so far\<close>

lemma last_str_snoc:
  "last_str (l @ [c]) n = (case last_str [c] n of Some s \<Rightarrow> Some s | None \<Rightarrow> last_str l n)"
  by (induction l) (auto split: option.splits)

lemma last_str_absent: "Some n \<notin> r_var ` set l \<Longrightarrow> last_str l n = None"
  by (induction l) auto

text \<open>The constants: a second \<open>bkptno\<close> or \<open>thread-id\<close> would not count, so that no name comes twice.\<close>

definition before_bkptno :: "mi_results list \<Rightarrow> mi_results list" where
  "before_bkptno l = (if last_str l ''bkptno'' = None then l
     else takeWhile (\<lambda>r. r_var r \<noteq> Some ''bkptno'') l)"

definition stop_consts :: "mi_results list \<Rightarrow> mi_stop \<Rightarrow> bool" where
  "stop_consts l s \<longleftrightarrow>
     st_reason s = or_else (last_str l ''reason'') sr_unknown mi_reason_str_to_enum \<and>
     (st_have_thread_id s \<longleftrightarrow> last_str l ''thread-id'' \<noteq> None) \<and>
     st_thread_id s = or_else (last_str l ''thread-id'') 0 atoi \<and>
     (st_have_bkptno s \<longleftrightarrow> last_str l ''bkptno'' \<noteq> None) \<and>
     st_bkptno s = or_else (last_str l ''bkptno'') 0 atoi \<and>
     (st_have_wpno s \<longleftrightarrow> last_str (before_bkptno l) ''wpnum'' \<noteq> None) \<and>
     st_wpno s = or_else (last_str (before_bkptno l) ''wpnum'') 0 atoi \<and>
     (st_have_exit_code s \<longleftrightarrow> last_str l ''exit-code'' \<noteq> None) \<and>
     st_exit_code s = or_else (last_str l ''exit-code'') 0 atoi \<and>
     st_gdb_result_var s = last_str l ''gdb-result-var'' \<and>
     st_return_value s = last_str l ''return-value'' \<and>
     st_signal_name s = last_str l ''signal-name'' \<and>
     st_signal_meaning s = last_str l ''signal-meaning''"

lemma stop_consts_zero: "stop_consts [] zero_stop"
  by (simp add: stop_consts_def zero_stop_def before_bkptno_def)

lemma before_bkptno_snoc:
  assumes "r_var c \<notin> r_var ` set l"
  shows "before_bkptno (l @ [c]) = (if last_str l ''bkptno'' \<noteq> None then before_bkptno l
    else if last_str [c] ''bkptno'' \<noteq> None then l else l @ [c])"
proof (cases "last_str l ''bkptno''")
  case None
  show ?thesis
  proof (cases "last_str [c] ''bkptno''")
    case (Some t)
    then have c: "r_var c = Some ''bkptno''" by (auto split: if_splits)
    then have "\<forall>r\<in>set l. r_var r \<noteq> Some ''bkptno''" using assms by (auto simp: image_iff)
    with c Some None show ?thesis by (simp add: before_bkptno_def last_str_snoc takeWhile_append2)
  qed (use None in \<open>simp add: before_bkptno_def last_str_snoc\<close>)
next
  case (Some t)
  then have "Some ''bkptno'' \<in> r_var ` set l" using last_str_absent [of "''bkptno''" l] by auto
  then obtain x where "x \<in> set l" "r_var x = Some ''bkptno''" by auto
  with Some show ?thesis
    by (simp add: before_bkptno_def last_str_snoc takeWhile_append1 split: option.splits)
qed

text \<open>The fields that are not filled from constants.\<close>

definition same_parts :: "mi_stop \<Rightarrow> mi_stop \<Rightarrow> bool" where
  "same_parts s s1 \<longleftrightarrow> st_frame s1 = st_frame s \<and> st_wp s1 = st_wp s \<and>
     st_wp_old s1 = st_wp_old s \<and> st_wp_val s1 = st_wp_val s"

lemma last_str_const:
  "last_str (l @ [MiRes (Some v) (VConst (Some t))]) n = (if v = n then Some t else last_str l n)"
  by (simp add: last_str_snoc)

lemma before_bkptno_const:
  assumes "Some v \<notin> r_var ` set l"
  shows "last_str (before_bkptno (l @ [MiRes (Some v) (VConst (Some t))])) ''wpnum'' =
    (if last_str l ''bkptno'' = None \<and> v = ''wpnum'' then Some t else last_str (before_bkptno l) ''wpnum'')"
proof -
  have "last_str l ''bkptno'' = None \<Longrightarrow> before_bkptno l = l" by (simp add: before_bkptno_def)
  with before_bkptno_snoc [of "MiRes (Some v) (VConst (Some t))" l] assms show ?thesis
    by (simp add: last_str_const)
qed

lemma stop_const_fields:
  assumes "stop_consts l s" and "Some v \<notin> r_var ` set l" and r_def: "r = MiRes (Some v) (VConst (Some t))"
  shows "\<exists>s1 r1. stop_const v s r w = Inr (s1, r1, w) \<and> stop_consts (l @ [r]) s1 \<and> same_parts s s1"
proof -
  have new: "last_str l v = None" using assms(2) by (rule last_str_absent)
  note l = assms(1) [unfolded stop_consts_def]
  note simps = r_def stop_const_def stop_consts_def same_parts_def last_str_const
  note bef = before_bkptno_const [OF assms(2)]
  consider (wp) "v = ''wpnum''" "last_str l ''bkptno'' \<noteq> None" | (wp') "v = ''wpnum''" "last_str l ''bkptno'' = None"
    | "v = ''reason''" | "v = ''thread-id''" | "v = ''bkptno''" | "v = ''gdb-result-var''"
    | "v = ''return-value''" | "v = ''signal-name''" | "v = ''signal-meaning''" | "v = ''exit-code''"
    | "v \<noteq> ''reason''" "v \<noteq> ''thread-id''" "v \<noteq> ''bkptno''" "v \<noteq> ''wpnum''" "v \<noteq> ''gdb-result-var''"
      "v \<noteq> ''return-value''" "v \<noteq> ''signal-name''" "v \<noteq> ''signal-meaning''" "v \<noteq> ''exit-code''"
    by blast
  then show ?thesis
  proof cases
    case wp
    with l new bef [of t] show ?thesis by (simp add: simps)
  next
    case wp'
    with l new bef [of t] show ?thesis by (simp add: simps)
  qed (use l new bef [of t] in \<open>simp add: simps\<close>)+
qed

text \<open>A node that is no constant leaves these fields alone.\<close>

definition same_consts :: "mi_stop \<Rightarrow> mi_stop \<Rightarrow> bool" where
  "same_consts s s1 \<longleftrightarrow> s1\<lparr>st_frame := st_frame s, st_wp := st_wp s, st_wp_val := st_wp_val s, st_wp_old := st_wp_old s\<rparr> = s"

lemma last_str_part: "r_type r \<noteq> t_const \<Longrightarrow> last_str (l @ [r]) n = last_str l n"
  by (cases r; cases "r_val r") (auto simp: last_str_snoc)

lemma stop_consts_part:
  assumes "stop_consts l s" and "r_type r \<noteq> t_const" and "r_var r \<notin> r_var ` set l" and "same_consts s s1"
  shows "stop_consts (l @ [r]) s1"
proof -
  have none: "last_str [r] n = None" for n using last_str_part [OF assms(2), of "[]"] by simp
  have "last_str (before_bkptno (l @ [r])) ''wpnum'' = last_str (before_bkptno l) ''wpnum''"
    unfolding before_bkptno_snoc [OF assms(3)] none
    by (simp add: last_str_part [OF assms(2)] before_bkptno_def)
  moreover have "stop_consts l s1"
    using assms(1) by (subst (asm) assms(4) [unfolded same_consts_def, symmetric]) (simp add: stop_consts_def)
  ultimately show ?thesis
    by (simp add: stop_consts_def last_str_part [OF assms(2)])
qed

section \<open>The parts of the record\<close>

definition part :: "mi_results list \<Rightarrow> string set \<Rightarrow> mi_results option" where
  "part l ns = find (\<lambda>r. r_type r \<noteq> t_const \<and> r_var r \<in> Some ` ns) l"

lemma part_snoc:
  "part (l @ [c]) ns = (if part l ns \<noteq> None then part l ns
     else if r_type c \<noteq> t_const \<and> r_var c \<in> Some ` ns then Some c else None)"
  unfolding part_def by (induction l) auto

lemma part_old: "r_type c = t_const \<or> r_var c \<notin> Some ` ns \<Longrightarrow> part (l @ [c]) ns = part l ns"
  by (auto simp: part_snoc)

lemma part_new: "part l ns = None \<Longrightarrow> r_type c \<noteq> t_const \<Longrightarrow> r_var c \<in> Some ` ns \<Longrightarrow> part (l @ [c]) ns = Some c"
  and part_kept: "part l ns \<noteq> None \<Longrightarrow> part (l @ [c]) ns = part l ns"
  by (simp_all add: part_snoc)

lemma part_Nil [simp]: "part [] ns = None"
  by (simp add: part_def)

lemma part_absent: "\<forall>n\<in>ns. Some n \<notin> r_var ` set l \<Longrightarrow> part l ns = None"
  unfolding part_def by (induction l) auto

text \<open>A watchpoint: its mode comes from the name of the node.\<close>

definition mode_of :: "string option \<Rightarrow> mi_wp_mode" where
  "mode_of v = (if v = Some ''wpt'' then wm_write else if v = Some ''hw-rwpt'' then wm_read else wm_rw)"

definition wp_is :: "mi_wp_mode \<Rightarrow> mi_results list \<Rightarrow> mi_wp \<Rightarrow> bool" where
  "wp_is m k x \<longleftrightarrow> wp_mode x = m \<and> wp_number x = or_else (last_str k ''number'') 0 atoi \<and>
     (wp_enabled x \<longleftrightarrow> last_str k ''number'' \<noteq> None) \<and> wp_exp x = last_str k ''exp''"

definition wp_upd :: "mi_wp \<Rightarrow> mi_results list \<Rightarrow> mi_wp \<Rightarrow> bool" where
  "wp_upd y k x \<longleftrightarrow> wp_mode x = wp_mode y \<and> wp_number x = or_else (last_str k ''number'') (wp_number y) atoi \<and>
     wp_enabled x = or_else (last_str k ''number'') (wp_enabled y) (\<lambda>_. True) \<and>
     wp_exp x = or_else (last_str k ''exp'') (wp_exp y) Some"

lemma wp_node_upd:
  assumes "full_r c"
  shows "wp (wp_node y c w) (\<lambda>(x, c1, w1). w1 = w \<and> wp_upd y [c] x) (\<lambda>_. False)"
proof (cases "r_var c")
  case None
  then show ?thesis by (simp add: wp_node_def wp_upd_def)
next
  case (Some v)
  then have "named_full c" using assms by (simp add: named_full_def)
  then show ?thesis by (cases rule: named_full_cases) (simp_all add: wp_node_def wp_upd_def)
qed

lemma scan_wp_upd:
  "\<forall>c\<in>set k. full_r c \<Longrightarrow> \<exists>x k1. scan wp_node y k w = Inr (x, k1, w) \<and> wp_upd y k x"
proof (induction k arbitrary: y)
  case (Cons c k)
  obtain x c1 where 1: "wp_node y c w = Inr (x, c1, w)" "wp_upd y [c] x"
    using wp_node_upd [of c y w] Cons.prems by (cases "wp_node y c w") auto
  obtain z k2 where 2: "scan wp_node x k w = Inr (z, k2, w)" "wp_upd x k z"
    using Cons by fastforce
  have "wp_upd y (c # k) z"
    using 1(2) 2(2) unfolding wp_upd_def or_else_step [of c k] by simp
  with 1(1) 2(1) show ?case by simp
qed (simp add: wp_upd_def)

lemma get_wp_is:
  assumes "\<forall>c\<in>set k. full_r c" and "oom w = []"
  shows "\<exists>x k1. mi_get_wp m k w = Inr (Some x, k1, add_live 1 w) \<and> wp_is m k x"
  using scan_wp_upd [OF assms(1), of "zero_wp\<lparr>wp_mode := m\<rparr>" "add_live 1 w"] assms(2)
  by (auto simp: mi_get_wp_mode fill_def wp_upd_def wp_is_def zero_wp_def or_else_def split: option.splits)

text \<open>The watched values: the new one comes under one of two names.\<close>

definition value_str :: "mi_results list \<Rightarrow> string option" where
  "value_str k = (case last_str k ''value'' of None \<Rightarrow> last_str k ''new'' | Some t \<Rightarrow> Some t)"

lemma value_fits_iff:
  "value_fits k c \<longleftrightarrow> (\<exists>v t. c = MiRes (Some v) (VConst (Some t)) \<and> (v \<in> {''value'', ''new''} \<longrightarrow> v = k))"
  by (cases c rule: node_cases) (auto simp: value_fits_def split: option.splits)

lemma scan_value_fields:
  assumes "\<forall>c\<in>set l. value_fits k c" and "k \<in> {''value'', ''new''}"
  shows "\<exists>l1. scan value_node s l w = Inr (s\<lparr>st_wp_val := or_else (last_str l k) (st_wp_val s) Some,
      st_wp_old := or_else (last_str l ''old'') (st_wp_old s) Some\<rparr>, l1, w)"
  using assms(1)
proof (induction l arbitrary: s)
  case (Cons c l)
  from Cons.prems obtain v t where c: "c = MiRes (Some v) (VConst (Some t))" "v \<in> {''value'', ''new''} \<longrightarrow> v = k"
    by (auto simp: value_fits_iff)
  let ?s = "s\<lparr>st_wp_val := or_else (last_str [c] k) (st_wp_val s) Some,
      st_wp_old := or_else (last_str [c] ''old'') (st_wp_old s) Some\<rparr>"
  have "\<exists>c1. value_node s c w = Inr (?s, c1, w)"
  proof -
    consider "v = k" | "v = ''old''" | "v \<notin> {''value'', ''new'', ''old''}" using c(2) by blast
    then show ?thesis
      by cases (use c(1) assms(2) in \<open>auto simp: value_node_def\<close>)
  qed
  then obtain c1 where c1: "value_node s c w = Inr (?s, c1, w)" by blast
  obtain l1 where "scan value_node ?s l w = Inr (?s\<lparr>st_wp_val := or_else (last_str l k) (st_wp_val ?s) Some,
      st_wp_old := or_else (last_str l ''old'') (st_wp_old ?s) Some\<rparr>, l1, w)"
    using Cons.IH [of ?s] Cons.prems by auto
  with c1 show ?case unfolding or_else_step [of c l] by simp
qed simp

lemma scan_value_str:
  assumes "\<exists>k. \<forall>c\<in>set l. value_fits k c"
  shows "\<exists>l1. scan value_node s l w = Inr (s\<lparr>st_wp_val := or_else (value_str l) (st_wp_val s) Some,
      st_wp_old := or_else (last_str l ''old'') (st_wp_old s) Some\<rparr>, l1, w)"
proof -
  obtain k where k: "\<forall>c\<in>set l. value_fits k c" "k \<in> {''value'', ''new''}"
  proof -
    from assms obtain j where j: "\<forall>c\<in>set l. value_fits j c" by blast
    show thesis
    proof (cases "j \<in> {''value'', ''new''}")
      case False
      then have "\<forall>c\<in>set l. value_fits ''value'' c"
        using j by (fastforce simp: value_fits_iff)
      then show thesis by (rule that) simp
    qed (use j that in blast)
  qed
  have "last_str l n = None" if n: "n \<in> {''value'', ''new''}" "n \<noteq> k" for n
  proof (rule last_str_absent, rule notI)
    assume "Some n \<in> r_var ` set l"
    then obtain c where c: "c \<in> set l" "r_var c = Some n" by auto
    with k(1) have "value_fits k c" by blast
    with c(2) n show False by (auto simp: value_fits_iff)
  qed
  from this [of "''value''"] this [of "''new''"] have "value_str l = last_str l k"
    using k(2) by (auto simp: value_str_def split: option.splits)
  with scan_value_fields [OF k] show ?thesis by simp
qed

section \<open>The record\<close>

abbreviation wp_names :: "string set" where
  "wp_names \<equiv> {''wpt'', ''hw-rwpt'', ''hw-awpt''}"

text \<open>What a node stands for, if it is there: a frame, a watchpoint.\<close>

definition frame_part :: "mi_results option \<Rightarrow> mi_frame list \<Rightarrow> bool" where
  "frame_part p fs \<longleftrightarrow> (case p of None \<Rightarrow> fs = [] | Some r \<Rightarrow> (\<exists>f. fs = [f] \<and> frame_is zero_frame (inner r) f))"

definition wp_part :: "mi_results option \<Rightarrow> mi_wp list \<Rightarrow> bool" where
  "wp_part p xs \<longleftrightarrow> (case p of None \<Rightarrow> xs = [] | Some r \<Rightarrow> (\<exists>x. xs = [x] \<and> wp_is (mode_of (r_var r)) (inner r) x))"

lemma part_simps [simp]:
  "frame_part None fs \<longleftrightarrow> fs = []" "frame_part (Some r) fs \<longleftrightarrow> (\<exists>f. fs = [f] \<and> frame_is zero_frame (inner r) f)"
  "wp_part None xs \<longleftrightarrow> xs = []" "wp_part (Some r) xs \<longleftrightarrow> (\<exists>x. xs = [x] \<and> wp_is (mode_of (r_var r)) (inner r) x)"
  by (simp_all add: frame_part_def wp_part_def)

text \<open>
  The frame, the watchpoint (the first, should there be several) and the watched values.
\<close>

definition stop_parts :: "mi_results list \<Rightarrow> mi_stop \<Rightarrow> bool" where
  "stop_parts l s \<longleftrightarrow>
     frame_part (part l {''frame''}) (st_frame s) \<and>
     wp_part (part l wp_names) (st_wp s) \<and>
     st_wp_val s = (case part l {''value''} of None \<Rightarrow> None | Some r \<Rightarrow> value_str (inner r)) \<and>
     st_wp_old s = (case part l {''value''} of None \<Rightarrow> None | Some r \<Rightarrow> last_str (inner r) ''old'')"

lemma stop_parts_zero: "stop_parts [] zero_stop"
  by (simp add: stop_parts_def zero_stop_def)

lemma stop_parts_const: "stop_parts l s \<Longrightarrow> r_type r = t_const \<Longrightarrow> same_parts s s1 \<Longrightarrow> stop_parts (l @ [r]) s1"
  by (simp add: stop_parts_def same_parts_def part_old)

lemma stop_inner_fields:
  assumes "stop_parts l s" and "stop_fits r" and "r_type r \<noteq> t_const" and "r_var r = Some v"
    and "Some v \<notin> r_var ` set l" and "oom w = []"
  shows "\<exists>s1 r1 w1. stop_inner v s r w = Inr (s1, r1, w1) \<and> oom w1 = [] \<and> stop_parts (l @ [r]) s1 \<and> same_consts s s1"
proof -
  have rs: "c_rs r = Inr (inner r)" by (rule c_rs_inner [OF assms(3)])
  have new: "part l {v} = None" using assms(5) by (intro part_absent) simp
  note simps = stop_inner_def rs stop_parts_def same_consts_def part_old part_new part_kept opt_list_def assms(3,4)
  consider (frame) "v = ''frame''" | (wp) "v \<in> wp_names" "st_wp s = []" | (wps) "v \<in> wp_names" "st_wp s \<noteq> []"
    | (watch) "v = ''value''" | (other) "v \<noteq> ''frame''" "v \<notin> wp_names" "v \<noteq> ''value''"
    by blast
  then show ?thesis
  proof cases
    case frame
    then have "list_all named_full (inner r)" using assms(2,4) by (simp add: stop_fits_def list_all_iff)
    from parse_frame_fields [OF this assms(6)] frame new assms(1,6) show ?thesis
      by (auto simp: simps)
  next
    case wp
    then have "\<forall>n\<in>set (inner r). full_r n" using assms(2,4) by (auto simp: stop_fits_def)
    from get_wp_is [OF this assms(6), of "mode_of (Some v)"] obtain x k1 where
      x: "mi_get_wp (mode_of (Some v)) (inner r) w = Inr (Some x, k1, add_live 1 w)" "wp_is (mode_of (Some v)) (inner r) x"
      by blast
    have "part l wp_names = None"
      using wp(2) assms(1) by (cases "part l wp_names") (auto simp: stop_parts_def)
    then have "part (l @ [r]) wp_names = Some r"
      using wp(1) assms(3,4) by (intro part_new) auto
    moreover have "part (l @ [r]) {''frame''} = part l {''frame''}"
      using wp(1) assms(4) by (intro part_old) auto
    moreover have "part (l @ [r]) {''value''} = part l {''value''}"
      using wp(1) assms(4) by (intro part_old) auto
    ultimately have "stop_parts (l @ [r]) (s\<lparr>st_wp := [x]\<rparr>)"
      using x(2) assms(1,4) by (simp add: stop_parts_def)
    moreover have "stop_inner v s r w = stop_wp (mode_of (Some v)) s r w"
      using wp(1) by (elim insertE emptyE) (simp_all add: stop_inner_def mode_of_def wp(2))
    then have "stop_inner v s r w = Inr (s\<lparr>st_wp := [x]\<rparr>, set_rs r k1, add_live 1 w)"
      by (simp add: stop_wp_def rs x(1) opt_list_def)
    ultimately show ?thesis
      using assms(6) by (simp add: same_consts_def)
  next
    case wps
    then have "part l wp_names \<noteq> None"
      using assms(1) by (cases "part l wp_names") (auto simp: stop_parts_def)
    with wps assms(1,6) show ?thesis by (auto simp: simps)
  next
    case watch
    have "\<exists>k. \<forall>n\<in>set (inner r). value_fits k n" using watch assms(2,4) by (simp add: stop_fits_def)
    from scan_value_str [OF this, of s w] watch new assms(1,6) show ?thesis
      by (auto simp: simps or_else_Some)
  next
    case other
    then show ?thesis using assms(1,6) by (auto simp: simps)
  qed
qed

lemma stop_node_fields:
  assumes "stop_consts l s" and "stop_parts l s" and "stop_fits r" and "r_var r \<notin> r_var ` set l" and "oom w = []"
  shows "\<exists>s1 r1 w1. stop_node s r w = Inr (s1, r1, w1) \<and> oom w1 = [] \<and>
    stop_consts (l @ [r]) s1 \<and> stop_parts (l @ [r]) s1"
proof -
  have "named_full r" using assms(3) by (simp add: stop_fits_def)
  then obtain v where v: "r_var r = Some v" by (auto simp: named_full_def)
  then have node: "stop_node s r w = (if r_type r = t_const then stop_const v s r w else stop_inner v s r w)"
    by (simp add: stop_node_def c_var_def)
  show ?thesis
  proof (cases "r_type r = t_const")
    case True
    then obtain t where r: "r = MiRes (Some v) (VConst (Some t))"
      using v by (cases rule: named_full_cases [OF \<open>named_full r\<close>]) auto
    obtain s1 r1 where 1: "stop_const v s r w = Inr (s1, r1, w)" "stop_consts (l @ [r]) s1" "same_parts s s1"
      using stop_const_fields [OF assms(1) _ r, of w] assms(4) v by auto
    with stop_parts_const [OF assms(2) True 1(3)] assms(5) True show ?thesis by (simp add: node)
  next
    case False
    obtain s1 r1 w1 where "stop_inner v s r w = Inr (s1, r1, w1)" "oom w1 = []" "stop_parts (l @ [r]) s1"
      "same_consts s s1"
      using stop_inner_fields [OF assms(2,3) False v _ assms(5)] assms(4) v by auto
    with stop_consts_part [OF assms(1) False assms(4)] False show ?thesis by (simp add: node)
  qed
qed

lemma scan_stop_fields:
  assumes "stop_consts l s" and "stop_parts l s" and "\<forall>r\<in>set rs. stop_fits r" and "distinct (map r_var (l @ rs))"
    and "oom w = []"
  shows "\<exists>s1 rs1 w1. scan stop_node s rs w = Inr (s1, rs1, w1) \<and> oom w1 = [] \<and> stop_consts (l @ rs) s1 \<and>
    stop_parts (l @ rs) s1"
  using assms
proof (induction rs arbitrary: l s w)
  case (Cons r rs)
  have "stop_fits r" "r_var r \<notin> r_var ` set l" using Cons.prems(3,4) by auto
  from stop_node_fields [OF Cons.prems(1,2) this Cons.prems(5)] obtain s1 r1 w1 where
    1: "stop_node s r w = Inr (s1, r1, w1)" "oom w1 = []" "stop_consts (l @ [r]) s1" "stop_parts (l @ [r]) s1"
    by blast
  then obtain s2 rs2 w2 where "scan stop_node s1 rs w1 = Inr (s2, rs2, w2)" "oom w2 = []"
    "stop_consts ((l @ [r]) @ rs) s2" "stop_parts ((l @ [r]) @ rs) s2"
    using Cons.IH [OF 1(3,4) _ _ 1(2)] Cons.prems(3,4) by auto
  with 1(1) show ?case by simp
qed simp

text \<open>
  C9: A stop record is read field by field. When its nodes are those gdb documents, none of them repeated, the
  structure has the reason, the thread, the breakpoint, the exit code, the function's result and the signal of
  the record's constants, each marked as present exactly when it is there; the frame, the watchpoint with
  the mode its name stands for, and the old and new value of what is watched. The number of a watchpoint
  is read only when no breakpoint number comes before it.
\<close>

theorem stop_record_fields:
  assumes "mi_get_stop_record (po (c_h c)) = Some i" and "oom (c_w c) = []"
    and "distinct (map r_var (o_c (po (c_h c) ! i)))" and "list_all stop_fits (o_c (po (c_h c) ! i))"
  shows "\<exists>s c1. mi_res_stop c = Inr (Some s, c1) \<and> po (c_h c1) = [] \<and>
    stop_consts (o_c (po (c_h c) ! i)) s \<and> stop_parts (o_c (po (c_h c) ! i)) s"
proof -
  let ?l = "o_c (po (c_h c) ! i)"
  obtain s l1 w1 where "scan stop_node zero_stop ?l (add_live 1 (c_w c)) = Inr (s, l1, w1)"
    "stop_consts ([] @ ?l) s" "stop_parts ([] @ ?l) s"
    using scan_stop_fields [OF stop_consts_zero stop_parts_zero, of ?l "add_live 1 (c_w c)"] assms(2-4)
    by (auto simp: list_all_iff)
  then have "mi_get_stopped ?l (c_w c) = Inr (Some s, l1, w1)" "stop_consts ?l s" "stop_parts ?l s"
    using assms(2) by (simp_all add: mi_get_stopped_def fill_def mi_alloc_stop_def)
  then show ?thesis
    using assms(1) by (simp add: mi_res_stop_def mi_retire_response_def com_defs)
qed

text \<open>A watchpoint that was hit, with the frame where the program stopped.\<close>

definition demo_hit :: mi_output where
  "demo_hit = \<lparr>o_type = MI_T_OUT_OF_BAND, o_stype = MI_ST_ASYNC, o_sstype = MI_SST_EXEC,
     o_tclass = MI_CL_STOPPED, o_c = [MiRes (Some ''reason'') (VConst (Some ''watchpoint-trigger'')),
       MiRes (Some ''wpt'') (VTuple [MiRes (Some ''number'') (VConst (Some ''2'')), MiRes (Some ''exp'') (VConst (Some ''v''))]),
       MiRes (Some ''value'') (VTuple [MiRes (Some ''old'') (VConst (Some ''2'')), MiRes (Some ''new'') (VConst (Some ''5''))]),
       MiRes (Some ''frame'') (VTuple [MiRes (Some ''func'') (VConst (Some ''main''))])]\<rparr>"

theorem stop_record_fields_witness:
  "\<exists>s c1 x f. mi_res_stop (holding [demo_hit]) = Inr (Some s, c1) \<and> st_reason s = sr_wp_trigger \<and>
    st_wp s = [x] \<and> wp_number x = 2 \<and> wp_mode x = wm_write \<and> wp_exp x = Some ''v'' \<and>
    st_wp_old s = Some ''2'' \<and> st_wp_val s = Some ''5'' \<and> st_frame s = [f] \<and> fr_func f = Some ''main'' \<and>
    \<not> st_have_bkptno s"
proof -
  have po: "po (c_h (holding [demo_hit])) = [demo_hit]" "oom (c_w (holding [demo_hit])) = []"
    by (simp_all add: holding_def started_def fresh_h_def)
  have fits: "list_all stop_fits (o_c demo_hit)"
    by (simp add: demo_hit_def stop_fits_def named_full_def value_fits_def good_name_def mi_is_var_name_char_def
        isalnum_def is_digit_def)
  have at: "atoi ''2'' = 2" by code_simp
  have "distinct (map r_var (o_c demo_hit))" "mi_get_stop_record [demo_hit] = Some 0"
    by (simp_all add: demo_hit_def is_stop_def)
  with stop_record_fields [of "holding [demo_hit]" 0] fits po obtain s c1 where
    s: "mi_res_stop (holding [demo_hit]) = Inr (Some s, c1)" "stop_consts (o_c demo_hit) s" "stop_parts (o_c demo_hit) s"
    by auto
  have "st_reason s = sr_wp_trigger \<and> \<not> st_have_bkptno s \<and> st_wp_old s = Some ''2'' \<and> st_wp_val s = Some ''5'' \<and>
      (\<exists>x. st_wp s = [x] \<and> wp_number x = 2 \<and> wp_mode x = wm_write \<and> wp_exp x = Some ''v'') \<and>
      (\<exists>f. st_frame s = [f] \<and> fr_func f = Some ''main'')"
    using s(2,3)
    by (auto simp: demo_hit_def stop_consts_def stop_parts_def part_def value_str_def wp_is_def mode_of_def
        frame_is_def before_bkptno_def at mi_reason_str_to_enum_def reason_names_def reason_values_def)
  with s(1) show ?thesis by blast
qed

end
