(* ===== verification/MI_Version.thy ===== *)
theory MI_Version
  imports MI_Globals MI_Numbers
begin

text \<open>
  The version of the library (\<open>src/mi_gdb.h\<close>), the program that prints it (\<open>version.c\<close>), and the number a version
  of gdb's interface is packed into by \<open>MI_VERSION2U\<close>.
\<close>

definition MI_VERSION_STR :: string where "MI_VERSION_STR = ''0.8.13''"
definition MI_VERSION_MAJOR :: int where "MI_VERSION_MAJOR = 0"
definition MI_VERSION_MIDDLE :: int where "MI_VERSION_MIDDLE = 8"
definition MI_VERSION_MINOR :: int where "MI_VERSION_MINOR = 13"

text \<open>What the program writes to its output, and its exit status.\<close>

definition version_main :: "string \<times> int" where
  "version_main = (MI_VERSION_STR, 0)"

lemma version_main_numbers:
  "version_main = (dec MI_VERSION_MAJOR @ ''.'' @ dec MI_VERSION_MIDDLE @ ''.'' @ dec MI_VERSION_MINOR, 0)"
  by (simp add: version_main_def MI_VERSION_STR_def MI_VERSION_MAJOR_def MI_VERSION_MIDDLE_def
      MI_VERSION_MINOR_def dec_def digits.simps digit_char_def)

text \<open>
  Versions whose parts fit their fields are compared by their numbers as they are by their parts; the fields
  are 8, 8 and 16 bits wide.
\<close>

lemma version_number:
  assumes "unat vmaj < 256" and "unat vmid < 256" and "unat vmin < 65536"
  shows "unat (MI_VERSION2U vmaj vmid vmin) = unat vmaj * 16777216 + unat vmid * 65536 + unat vmin"
  using assms by (simp add: MI_VERSION2U_def unat_word_ariths)

lemma version_order:
  assumes "unat a < 256" "unat b < 256" "unat c < 65536" and "unat a' < 256" "unat b' < 256" "unat c' < 65536"
  shows "MI_VERSION2U a b c < MI_VERSION2U a' b' c' \<longleftrightarrow>
    a < a' \<or> a = a' \<and> (b < b' \<or> b = b' \<and> c < c')"
  unfolding word_less_nat_alt version_number [OF assms(1-3)] version_number [OF assms(4-6)] word_unat_eq_iff
  using assms by arith

lemma version_order_wraps: "MI_VERSION2U 1 256 0 = MI_VERSION2U 2 0 0"
  by (simp add: MI_VERSION2U_def)

end
