(* ===== verification/Spec2Isabelle.thy ===== *)
theory Spec2Isabelle
  imports MI_Response MI_Frames MI_Breaks MI_Vars MI_Stop MI_Data MI_Parse_Safe MI_Roundtrip
    MI_Globals MI_Commands MI_Error MI_Term MI_Endings MI_Converse MI_Malformed MI_Builds MI_Start MI_Client
    MI_Owners MI_Changes MI_Stop_Fields MI_Version
begin

text \<open>
  A model of libmigdb, the C library that runs gdb as a child and talks to it in its machine interface
  (GDB/MI), with the C++ class on top of it. Paths below are under \<open>src/\<close> of the repository.

  \<^bold>\<open>The parts and how they interact.\<close> An application opens a connection (\<open>mi_connect_local\<close>), which starts gdb
  with a pipe in each direction. A command is one line of text (\<open>mi_send\<close>). The answer comes as lines,
  each parsed into a record (a tree of results), until a prompt; stream records go to callbacks, the
  others wait in the handle. A wait (\<open>mi_get_response_blk\<close>) takes the records, a query finds a variable
  in them, and a reader turns its tree into a structure and takes strings out of the tree. A
  \<open>gmi_x\<close> function is one command, one wait and one reader. \<open>MIDebugger\<close> adds a state machine.

  \<^bold>\<open>Values and effects.\<close> A C function is a function of the state it uses and returns \<open>fault + value\<close>: a fault
  (\<open>MI_Prelude\<close>) is where C leaves the language (a read or write outside an object, a null pointer, the wrong
  member of a union, a missing \<open>printf\<close> argument, a function with no return). Heap blocks are counted and
  not addressed: \<open>live\<close> is the number of blocks in use, \<open>oom\<close> the script of the allocations (the empty
  script never fails). Strings are lists of characters with no NUL; a buffer is the list of its bytes. A
  \<open>next\<close> chain is a list. Numbers are \<open>int\<close>, addresses 64 bit words, with the reading of \<open>strtol\<close>,
  \<open>strtoul\<close> and \<open>atoi\<close> written out.

  The system is a script in the state (\<open>MI_Connect\<close>): the results of \<open>read\<close> (one byte or nothing), of
  \<open>waitpid\<close>, \<open>select\<close>, \<open>pipe\<close>, \<open>fork\<close>, \<open>fdopen\<close>, \<open>mkstemp\<close>, \<open>stat\<close> and of the time-out callback, used up from the
  head, and functions for files, devices and \<open>PATH\<close>. What the library does to the system is a log:
  the lines sent and the events (callbacks called, descriptors closed, signals, files).

  \<^bold>\<open>Theories.\<close>
  \<^item> \<open>MI_Prelude\<close>: runs and faults, C strings, the parts of the C library. \<open>MI_Numbers\<close>: \<open>%d\<close> and \<open>%p\<close>.
  \<^item> \<open>MI_Alloc\<close>, \<open>MI_Structs\<close> (\<open>src/alloc.c\<close>, \<open>src/mi_gdb.h\<close>): result trees, records, the structures of the
    readers, their allocators and release functions; \<open>blocks_x\<close> counts what a structure owns, and each
    release gives back exactly that.
  \<^item> \<open>MI_Parse\<close> (\<open>src/parse.c\<close> 36 to 530): the parser of one line. \<open>MI_Parse_Safe\<close>: it ends, its faults are
    overreads only, every result has the documented shape and the blocks add up. \<open>MI_Reader\<close>: a printer of
    values and the locales \<open>value_loop\<close> and \<open>value_reader\<close>, the steps of the readers of values that all builds share,
    with the proof that they undo the printer. \<open>MI_Roundtrip\<close>: parsing undoes the printing of records.
    \<open>MI_Malformed\<close>: lines that are no records (unknown marks and classes, constants without an end, empty
    elements), for every such line. \<open>MI_Builds\<close>: the values of the build for Mac OS X (\<open>__APPLE__\<close>, the functions
    with the suffix \<open>_apple\<close>), compared with the usual build, and the terminals of other systems.
  \<^item> \<open>MI_Connect\<close> (\<open>src/connect.c\<close> 63 to 341): handle, line reader, one line of a response, wait, \<open>mi_send\<close>.
    \<open>MI_Session\<close>: the line reader stays in its buffer; what gdb writes is what the wait returns.
  \<^item> \<open>MI_Query\<close>, \<open>MI_Response\<close>: variables of a response, tables of names, and the locale of the waits.
    \<open>MI_Owners\<close>: which blocks belong to a connection, kept by every step of its use (\<open>wire_step\<close>).
  \<^item> \<open>MI_Scan\<close>: the locales of the readers (a scan over the nodes of a tree that fills a structure).
    \<open>MI_Frames\<close>, \<open>MI_Breaks\<close>, \<open>MI_Vars\<close>, \<open>MI_Stop\<close>, \<open>MI_Data\<close> (the rest of \<open>src/parse.c\<close>): the readers, each an
    interpretation of these locales, with what each field of the structure becomes. \<open>MI_Changes\<close>: the two formats of
    a change list are read alike. \<open>MI_Stop_Fields\<close>: the fields of a stop as functions of its record.
  \<^item> \<open>MI_Globals\<close> (the rest of \<open>src/connect.c\<close>): settings and their release, search in \<open>PATH\<close>, start-up files, start
    and end of a connection. \<open>MI_XTerm\<close> (lines 717 to 850): the X terminal; every descriptor and file it
    opens is closed and deleted on every path. \<open>MI_Term\<close> (\<open>src/get_free_vt.c\<close>, \<open>src/get_free_pty.c\<close>): free terminals.
    \<open>MI_Error\<close> (\<open>src/error.c\<close>): messages. \<open>MI_Version\<close> (\<open>version.c\<close>): the version and how versions compare.
  \<^item> \<open>MI_Commands\<close> (\<open>src/prg_control.c\<close>, \<open>src/breakpoint.c\<close>, \<open>src/stack_man.c\<close>, \<open>src/target_man.c\<close>, \<open>src/misc.c\<close>,
    \<open>src/thread.c\<close>, \<open>src/data_man.c\<close>, \<open>src/var_obj.c\<close>): every command, low and high level. The locale
    \<open>simple_command\<close> is a command answered by a class alone, \<open>simple_call\<close> their table. \<open>MI_Endings\<close>: a
    command answered with an error, and a response interrupted by a time-out.
  \<^item> \<open>MI_Debugger\<close> (\<open>src/cpp_int.cc\<close> and the inline methods of \<open>src/mi_gdb.h\<close>): the class, its methods and its
    destructor. The object is a record, a method a function of object and connection; the use of a
    NULL or freed handle or of an unset field is a misuse of its own. \<open>MI_Methods\<close>: the locale
    \<open>operation\<close> (the states in which a method acts and the moves it makes), the table \<open>guarded\<close>, the
    sessions a client can hold and the diagram of the states. \<open>MI_Lifetime\<close>: polling, the destructor,
    a gdb that died. \<open>MI_Converse\<close>: methods with several commands, from the bytes gdb writes to the object.
  \<^item> \<open>MI_Start\<close>: a connection from \<open>mi_connect_local\<close> to \<open>mi_disconnect\<close>, with the exchanges in between (\<open>went\<close>: the
    lines that go out, what is left to read, and that all else is as before). \<open>MI_Client\<close>
    (\<open>examples/ticepic.c\<close>): a client with its callbacks, what it prints and its \<open>main\<close>; \<open>lib\<close> is a call of a
    library function, after which the client has printed what its callbacks print for the new events.

  \<^bold>\<open>Kinds of statement.\<close> Round trips (records, names, numbers in commands); types and bounds (what the
  parser returns, the line buffer, memory reads); conservation of blocks (what a wait, a reader, a
  setting, a failed start leaves on the heap, and which descriptors it closes; over a whole connection, whatever
  gdb sends, that only its own blocks are released); functional behaviour of
  readers and commands from the bytes gdb sends; equivalences (a line in pieces, the formats of a change
  list); refinement (queries against a lookup in the list of
  results, methods against the diagram of the states); liveness of polling; errors, among them those
  that end in a fault.

  \<^bold>\<open>Bounds.\<close> The parser has a fuel of three per byte of the line, \<open>parse_fuel\<close>, which is shown to be enough;
  the search for a virtual terminal has 16 turns, one for each bit of its mask. The wait ends because
  each turn uses up an answer of \<open>select\<close> or of the time-out callback; an endless wait is an endless
  script, and finite ones stand for all its beginnings. The polling of the destructor and that of the
  client may run for ever and are partial functions: \<open>None\<close> is a run that does not end.

  \<^bold>\<open>Not modelled.\<close> The parts for \<open>__CYGWIN__\<close> of \<open>src/cpp_int.cc\<close>; \<open>src/symbol_query.c\<close> is a comment only; the other
  programs in \<open>examples/\<close> are tests that need a gdb and an X server, or the small programs they debug.
  The contents of blocks are values,
  so aliasing and the order of addresses are not modelled: the sources hand each block to one owner,
  and where they do not (the handle freed twice) it is a misuse of the object. Callbacks observe and
  do not call the library. Signals other than those sent are not delivered.
\<close>

end
